(* ===== verification/Prelude.thy ===== *)
theory Prelude
  imports Main "HOL-Library.Word" "HOL-Library.Monad_Syntax"
begin

text \<open>
  What every theory of the development shares: the machine integers of the code, spans and
  fixed arrays as lists with checked access, and the generic lemmas on checked access, on
  list update and on little-endian words.

  An access the C++ language leaves undefined (a read past the end of a span, a subspan that
  leaves its span) is the value \<open>None\<close> of the option monad, so that a model that returns
  \<open>Some\<close> has performed no such access. Sizes and indices (\<open>std::size_t\<close>) are \<open>nat\<close>: every
  size that occurs is the length of a buffer in memory, far below \<open>2 ^ 64\<close>. Where the code
  computes with a size that a caller supplies freely (\<open>sanitize_stack_size\<close>), the model keeps
  the 64-bit word.
\<close>

unbundle bit_operations_syntax

subsection \<open>Machine integers\<close>

type_synonym u8 = "8 word"
type_synonym u16 = "16 word"
type_synonym u32 = "32 word"
type_synonym u64 = "64 word"

text \<open>Signed integers are the same words, read with \<open>sint\<close>.\<close>

type_synonym i8 = "8 word"
type_synonym i16 = "16 word"

named_theorems span_simps \<open>evaluation of checked access\<close>

subsection \<open>Checked access to spans and arrays\<close>

definition rd :: "'a list \<Rightarrow> nat \<Rightarrow> 'a option" where
  "rd xs i = (if i < length xs then Some (xs ! i) else None)"

definition subspan :: "'a list \<Rightarrow> nat \<Rightarrow> nat \<Rightarrow> 'a list option" where
  "subspan xs off cnt =
     (if off + cnt \<le> length xs then Some (take cnt (drop off xs)) else None)"

text \<open>\<open>std::copy\<close> of a whole range to the front of a destination that is long enough.\<close>

definition copy_front :: "'a list \<Rightarrow> 'a list \<Rightarrow> 'a list" where
  "copy_front src dst = src @ drop (length src) dst"

lemma rd_in_range [span_simps]: "i < length xs \<Longrightarrow> rd xs i = Some (xs ! i)"
  by (simp add: rd_def)

lemma rd_out_of_range [span_simps]: "length xs \<le> i \<Longrightarrow> rd xs i = None"
  by (simp add: rd_def)

lemma rd_eq_Some_iff: "rd xs i = Some x \<longleftrightarrow> i < length xs \<and> xs ! i = x"
  by (auto simp: rd_def)

lemma rd_eq_None_iff: "rd xs i = None \<longleftrightarrow> length xs \<le> i"
  by (auto simp: rd_def)

lemma rd_append1: "i < length xs \<Longrightarrow> rd (xs @ ys) i = rd xs i"
  by (simp add: rd_def nth_append)

lemma rd_append2: "rd (xs @ ys) (length xs + i) = rd ys i"
  by (simp add: rd_def nth_append)

lemma rd_append_here [simp]: "rd (xs @ y # ys) (length xs) = Some y"
  by (simp add: rd_def)

lemma subspan_in_range [span_simps]:
  "off + cnt \<le> length xs \<Longrightarrow> subspan xs off cnt = Some (take cnt (drop off xs))"
  by (simp add: subspan_def)

lemma subspan_eq_Some_iff:
  "subspan xs off cnt = Some ys \<longleftrightarrow> off + cnt \<le> length xs \<and> ys = take cnt (drop off xs)"
  by (auto simp: subspan_def)

lemma subspan_eq_None_iff: "subspan xs off cnt = None \<longleftrightarrow> length xs < off + cnt"
  by (auto simp: subspan_def)

lemma length_subspan: "subspan xs off cnt = Some ys \<Longrightarrow> length ys = cnt"
  by (auto simp: subspan_def split: if_splits)

lemma subspan_append: "subspan (xs @ ys @ zs) (length xs) (length ys) = Some ys"
  by (simp add: subspan_def)

lemma copy_front_same_length [simp]: "length src = length dst \<Longrightarrow> copy_front src dst = src"
  by (simp add: copy_front_def)

lemma length_copy_front: "length src \<le> length dst \<Longrightarrow> length (copy_front src dst) = length dst"
  by (simp add: copy_front_def)

subsection \<open>Scanning a fixed table\<close>

text \<open>
  The index of the first element that satisfies a predicate: the range-for loops of the code
  that return a pointer to the first matching slot.
\<close>

fun find_index_from :: "nat \<Rightarrow> ('a \<Rightarrow> bool) \<Rightarrow> 'a list \<Rightarrow> nat option" where
  "find_index_from n p [] = None"
| "find_index_from n p (x # xs) = (if p x then Some n else find_index_from (Suc n) p xs)"

definition find_index :: "('a \<Rightarrow> bool) \<Rightarrow> 'a list \<Rightarrow> nat option" where
  "find_index p xs = find_index_from 0 p xs"

lemma find_index_from_Some:
  "find_index_from n p xs = Some i \<Longrightarrow>
     n \<le> i \<and> i - n < length xs \<and> p (xs ! (i - n)) \<and> (\<forall>k < i - n. \<not> p (xs ! k))"
proof (induction n p xs rule: find_index_from.induct)
  case (1 n p)
  then show ?case by simp
next
  case (2 n p x xs)
  show ?case
  proof (cases "p x")
    case True
    with "2.prems" show ?thesis by simp
  next
    case False
    with "2.prems" have rec: "find_index_from (Suc n) p xs = Some i" by simp
    have ih: "Suc n \<le> i \<and> i - Suc n < length xs \<and> p (xs ! (i - Suc n))
        \<and> (\<forall>k < i - Suc n. \<not> p (xs ! k))"
      by (rule "2.IH" [OF False rec])
    then have eq: "i - n = Suc (i - Suc n)" by arith
    have "\<forall>k < i - n. \<not> p ((x # xs) ! k)"
      using ih False by (auto simp: nth_Cons eq less_Suc_eq_0_disj)
    then show ?thesis using ih by (simp add: eq)
  qed
qed

lemma find_index_from_None: "find_index_from n p xs = None \<longleftrightarrow> (\<forall>x \<in> set xs. \<not> p x)"
  by (induction n p xs rule: find_index_from.induct) auto

lemma find_index_SomeD:
  assumes "find_index p xs = Some i"
  shows "i < length xs" and "p (xs ! i)" and "\<And>k. k < i \<Longrightarrow> \<not> p (xs ! k)"
  using find_index_from_Some [of 0 p xs i] assms by (auto simp: find_index_def)

lemma find_index_None_iff: "find_index p xs = None \<longleftrightarrow> (\<forall>x \<in> set xs. \<not> p x)"
  by (simp add: find_index_def find_index_from_None)

lemma find_index_None_nth: "find_index p xs = None \<Longrightarrow> i < length xs \<Longrightarrow> \<not> p (xs ! i)"
  by (simp add: find_index_None_iff)

lemma find_index_eqI:
  assumes "i < length xs" and "p (xs ! i)" and "\<And>k. k < i \<Longrightarrow> \<not> p (xs ! k)"
  shows "find_index p xs = Some i"
proof (cases "find_index p xs")
  case None
  with assms show ?thesis by (simp add: find_index_None_iff)
next
  case (Some j)
  note J = find_index_SomeD [OF Some]
  have "\<not> i < j" using J(3) assms(2) by blast
  moreover have "\<not> j < i" using assms(3) J(2) by blast
  ultimately show ?thesis using Some by simp
qed

lemma find_index_unique:
  assumes "i < length xs" and "p (xs ! i)"
    and "\<And>k. k < length xs \<Longrightarrow> p (xs ! k) \<Longrightarrow> k = i"
  shows "find_index p xs = Some i"
proof (rule find_index_eqI [where p = p and xs = xs, OF assms(1,2)])
  fix k
  assume "k < i"
  with assms(1) assms(3) [of k] show "\<not> p (xs ! k)" by auto
qed

lemma length_filter_split:
  assumes "i < length xs"
  shows "length (filter p xs) = length (filter p (take i xs))
      + (if p (xs ! i) then 1 else 0) + length (filter p (drop (Suc i) xs))"
proof -
  have "length (filter p (take i xs @ xs ! i # drop (Suc i) xs))
      = length (filter p (take i xs)) + (if p (xs ! i) then 1 else 0)
        + length (filter p (drop (Suc i) xs))"
    by simp
  then show ?thesis
    by (simp only: id_take_nth_drop [OF assms, symmetric])
qed

lemma length_filter_update:
  assumes "i < length xs"
  shows "length (filter p (xs[i := y])) + (if p (xs ! i) then 1 else 0)
      = length (filter p xs) + (if p y then 1 else 0)"
  using length_filter_split [of i "xs[i := y]" p] length_filter_split [OF assms, of p] assms
  by simp

end
