(* ===== verification/Logging.thy ===== *)
theory Logging
  imports Prelude
begin

text \<open>
  The logging bridge (include/logging/Logger.hpp). A call of a \<open>LOGGER_*\<close> macro is a
  severity, a printf format and its arguments; \<open>dispatch_log\<close> is the function call operator of
  \<open>LogDispatch\<close>, which formats into a buffer of 256 bytes. printf itself is a parameter.
\<close>

datatype severity = sev_none | sev_fatal | sev_error | sev_warning | sev_info | sev_debug
  | sev_verbose

datatype log_arg = ArgInt int | ArgStr string

datatype log_call = LogCall severity string "log_arg list"

definition LOGGER_NOTICE :: "string \<Rightarrow> log_arg list \<Rightarrow> log_call" where
  "LOGGER_NOTICE fmt args = LogCall sev_info fmt args"

definition LOGGER_WARNING :: "string \<Rightarrow> log_arg list \<Rightarrow> log_call" where
  "LOGGER_WARNING fmt args = LogCall sev_warning fmt args"

definition LOGGER_ERROR :: "string \<Rightarrow> log_arg list \<Rightarrow> log_call" where
  "LOGGER_ERROR fmt args = LogCall sev_error fmt args"

definition LOGGER_CRITICAL :: "string \<Rightarrow> log_arg list \<Rightarrow> log_call" where
  "LOGGER_CRITICAL fmt args = LogCall sev_fatal fmt args"

lemmas logger_defs =
  LOGGER_NOTICE_def LOGGER_WARNING_def LOGGER_ERROR_def LOGGER_CRITICAL_def

subsection \<open>Severities are ordered: a logger passes what is at least as severe as its level\<close>

fun severity_level :: "severity \<Rightarrow> nat" where
  "severity_level sev_none = 0"
| "severity_level sev_fatal = 1"
| "severity_level sev_error = 2"
| "severity_level sev_warning = 3"
| "severity_level sev_info = 4"
| "severity_level sev_debug = 5"
| "severity_level sev_verbose = 6"

lemma severity_level_inject: "severity_level a = severity_level b \<longleftrightarrow> a = b"
  by (cases a; cases b) simp_all

instantiation severity :: linorder
begin

definition less_eq_severity :: "severity \<Rightarrow> severity \<Rightarrow> bool" where
  "less_eq_severity a b \<longleftrightarrow> severity_level a \<le> severity_level b"

definition less_severity :: "severity \<Rightarrow> severity \<Rightarrow> bool" where
  "less_severity a b \<longleftrightarrow> severity_level a < severity_level b"

instance
  by standard (auto simp: less_eq_severity_def less_severity_def severity_level_inject
      simp flip: severity_level_inject)

end

subsection \<open>Dispatch\<close>

definition k_log_buf_size :: nat where
  "k_log_buf_size = 256"

text \<open>\<open>snprintf\<close> writes at most \<open>size - 1\<close> characters of the formatted text.\<close>

definition snprintf_trunc :: "nat \<Rightarrow> string \<Rightarrow> string" where
  "snprintf_trunc bufsize text = take (bufsize - 1) text"

text \<open>
  \<open>logger\<close> is the plog instance: \<open>None\<close> before \<open>plog::init\<close>, else its maximal severity. The
  result is the record handed to plog, if any. Without arguments the format is passed through
  \<open>"%s"\<close>, that is verbatim; with arguments \<open>format\<close> stands for printf's formatting.
\<close>

definition dispatch_log ::
    "(string \<Rightarrow> log_arg list \<Rightarrow> string) \<Rightarrow> severity option \<Rightarrow> log_call \<Rightarrow>
      (severity \<times> string) option" where
  "dispatch_log format logger c =
     (case logger of
        None \<Rightarrow> None
      | Some max_severity \<Rightarrow>
          (case c of LogCall sev fmt args \<Rightarrow>
             if \<not> sev \<le> max_severity then None
             else Some (sev, snprintf_trunc k_log_buf_size
                              (if args = [] then fmt else format fmt args))))"

lemma dispatch_log_bounded:
  "dispatch_log format logger c = Some (sev, text) \<Longrightarrow> length text < k_log_buf_size"
  by (auto simp: dispatch_log_def snprintf_trunc_def k_log_buf_size_def
      split: option.splits log_call.splits if_splits)

end
