(* ===== verification/Error_Handler.thy ===== *)
theory Error_Handler
  imports Logging
begin

text \<open>
  \<open>ErrorHandler<T, E>\<close> (include/error_handler/ErrorHandler.hpp): a value or an error, with
  monadic operations. Constructing a handler from an error writes a log line, so every operation
  returns the handler together with the log calls it made, in order. \<open>name\<close> is the function
  \<open>ErrorTraits<E>::name\<close> and \<open>loc\<close> the function name of the source location.

  The four reference-qualified overloads of an operation differ in how the contained value is
  passed. The \<open>&\<close> overload passes a mutable reference, so the function it calls may change the
  value inside the handler: the definitions that end in \<open>_ref\<close> return the handler as the call
  leaves it. The other three overloads are one definition.
\<close>

datatype ('t, 'e) error_handler = Value 't | Unexpected 'e

type_synonym 'a logged = "'a \<times> log_call list"

definition default_traits_name :: "'e \<Rightarrow> string" where
  "default_traits_name e = ''Unknown Error''"

subsection \<open>Constructors\<close>

definition of_value :: "'t \<Rightarrow> ('t, 'e) error_handler logged" where
  "of_value v = (Value v, [])"

definition of_error ::
    "('e \<Rightarrow> string) \<Rightarrow> 'e \<Rightarrow> string \<Rightarrow> string \<Rightarrow> ('t, 'e) error_handler logged" where
  "of_error name e custom_msg loc =
     (Unexpected e,
      [LOGGER_ERROR ''Error at %s: %s - %s'' [ArgStr loc, ArgStr (name e), ArgStr custom_msg]])"

definition of_unexpected ::
    "('e \<Rightarrow> string) \<Rightarrow> 'e \<Rightarrow> string \<Rightarrow> ('t, 'e) error_handler logged" where
  "of_unexpected name e loc =
     (Unexpected e, [LOGGER_ERROR ''Error at %s: %s'' [ArgStr loc, ArgStr (name e)]])"

lemmas handler_constructors = of_value_def of_error_def of_unexpected_def

subsection \<open>Access\<close>

fun has_value :: "('t, 'e) error_handler \<Rightarrow> bool" where
  "has_value (Value v) = True"
| "has_value (Unexpected e) = False"

text \<open>\<open>None\<close>: \<open>value()\<close> throws \<open>std::bad_expected_access\<close>.\<close>

fun handler_value :: "('t, 'e) error_handler \<Rightarrow> 't option" where
  "handler_value (Value v) = Some v"
| "handler_value (Unexpected e) = None"

text \<open>\<open>None\<close>: \<open>error()\<close> on a value is undefined behaviour.\<close>

fun handler_error :: "('t, 'e) error_handler \<Rightarrow> 'e option" where
  "handler_error (Value v) = None"
| "handler_error (Unexpected e) = Some e"

fun value_or :: "('t, 'e) error_handler \<Rightarrow> 't \<Rightarrow> 't" where
  "value_or (Value v) default_value = v"
| "value_or (Unexpected e) default_value = default_value"

subsection \<open>Monadic operations\<close>

fun and_then_ref ::
    "('e \<Rightarrow> string) \<Rightarrow> string \<Rightarrow> ('t, 'e) error_handler \<Rightarrow>
      ('t \<Rightarrow> 't \<times> ('u, 'e) error_handler logged) \<Rightarrow>
      ('t, 'e) error_handler \<times> ('u, 'e) error_handler logged" where
  "and_then_ref name loc (Value v) f = (let (v', r) = f v in (Value v', r))"
| "and_then_ref name loc (Unexpected e) f = (Unexpected e, of_unexpected name e loc)"

fun and_then ::
    "('e \<Rightarrow> string) \<Rightarrow> string \<Rightarrow> ('t, 'e) error_handler \<Rightarrow>
      ('t \<Rightarrow> ('u, 'e) error_handler logged) \<Rightarrow> ('u, 'e) error_handler logged" where
  "and_then name loc (Value v) f = f v"
| "and_then name loc (Unexpected e) f = of_unexpected name e loc"

fun transform_ref ::
    "('e \<Rightarrow> string) \<Rightarrow> string \<Rightarrow> ('t, 'e) error_handler \<Rightarrow> ('t \<Rightarrow> 't \<times> 'u logged) \<Rightarrow>
      ('t, 'e) error_handler \<times> ('u, 'e) error_handler logged" where
  "transform_ref name loc (Value v) f =
     (let (v', u, log) = f v; (h, log') = of_value u in (Value v', h, log @ log'))"
| "transform_ref name loc (Unexpected e) f = (Unexpected e, of_unexpected name e loc)"

fun transform ::
    "('e \<Rightarrow> string) \<Rightarrow> string \<Rightarrow> ('t, 'e) error_handler \<Rightarrow> ('t \<Rightarrow> 'u logged) \<Rightarrow>
      ('u, 'e) error_handler logged" where
  "transform name loc (Value v) f =
     (let (u, log) = f v; (h, log') = of_value u in (h, log @ log'))"
| "transform name loc (Unexpected e) f = of_unexpected name e loc"

fun or_else_ref ::
    "('t, 'e) error_handler \<Rightarrow> ('e \<Rightarrow> 'e \<times> ('t, 'e) error_handler logged) \<Rightarrow>
      ('t, 'e) error_handler \<times> ('t, 'e) error_handler logged" where
  "or_else_ref (Value v) f = (Value v, of_value v)"
| "or_else_ref (Unexpected e) f = (let (e', r) = f e in (Unexpected e', r))"

fun or_else ::
    "('t, 'e) error_handler \<Rightarrow> ('e \<Rightarrow> ('t, 'e) error_handler logged) \<Rightarrow>
      ('t, 'e) error_handler logged" where
  "or_else (Value v) f = of_value v"
| "or_else (Unexpected e) f = f e"

text \<open>\<open>name'\<close> is \<open>ErrorTraits<G>::name\<close> of the new error type.\<close>

fun transform_error_ref ::
    "('g \<Rightarrow> string) \<Rightarrow> string \<Rightarrow> ('t, 'e) error_handler \<Rightarrow> ('e \<Rightarrow> 'e \<times> 'g logged) \<Rightarrow>
      ('t, 'e) error_handler \<times> ('t, 'g) error_handler logged" where
  "transform_error_ref name' loc (Value v) f = (Value v, of_value v)"
| "transform_error_ref name' loc (Unexpected e) f =
     (let (e', g, log) = f e; (h, log') = of_error name' g ''Error transformed'' loc
      in (Unexpected e', h, log @ log'))"

fun transform_error ::
    "('g \<Rightarrow> string) \<Rightarrow> string \<Rightarrow> ('t, 'e) error_handler \<Rightarrow> ('e \<Rightarrow> 'g logged) \<Rightarrow>
      ('t, 'g) error_handler logged" where
  "transform_error name' loc (Value v) f = of_value v"
| "transform_error name' loc (Unexpected e) f =
     (let (g, log) = f e; (h, log') = of_error name' g ''Error transformed'' loc
      in (h, log @ log'))"

subsection \<open>Pipelines\<close>

text \<open>
  A method chain \<open>h.and_then(f1).and_then(f2)...\<close>: each stage is applied to the handler the
  previous one returned, and the log lines accumulate.
\<close>

fun chain ::
    "('e \<Rightarrow> string) \<Rightarrow> string \<Rightarrow> ('t, 'e) error_handler logged \<Rightarrow>
      ('t \<Rightarrow> ('t, 'e) error_handler logged) list \<Rightarrow> ('t, 'e) error_handler logged" where
  "chain name loc (h, log) [] = (h, log)"
| "chain name loc (h, log) (f # fs) =
     (let (h', log') = and_then name loc h f in chain name loc (h', log @ log') fs)"

lemma chain_append:
  "chain name loc hl (fs @ gs) = chain name loc (chain name loc hl fs) gs"
proof (induction fs arbitrary: hl)
  case Nil
  show ?case by (cases hl) simp
next
  case (Cons f fs)
  show ?case by (cases hl) (simp add: Cons.IH split: prod.split)
qed

lemma chain_unexpected:
  "chain name loc (Unexpected e, log) fs =
     (Unexpected e,
      log @ replicate (length fs) (LOGGER_ERROR ''Error at %s: %s'' [ArgStr loc, ArgStr (name e)]))"
  by (induction fs arbitrary: log) (simp_all add: of_unexpected_def)

text \<open>The value of a chain without its log: bind of the plain error monad.\<close>

lemma chain_value: "fst (chain name loc (h, log) fs) = fst (chain name loc (h, log') fs)"
proof (induction fs arbitrary: h log log')
  case Nil
  show ?case by simp
next
  case (Cons f fs)
  show ?case by (simp split: prod.split) (metis Cons.IH)
qed

lemma and_then_assoc_value:
  "fst (and_then name loc (fst (and_then name loc h f)) g) =
     fst (and_then name loc h (\<lambda>x. and_then name loc (fst (f x)) g))"
  by (cases h) (simp_all add: of_unexpected_def)

lemma transform_is_and_then:
  "transform name loc h f =
     and_then name loc h (\<lambda>v. let (u, log) = f v; (h, log') = of_value u in (h, log @ log'))"
  by (cases h) simp_all

text \<open>The mutable overloads agree with the others when the function leaves its argument alone.\<close>

lemma and_then_ref_pure:
  "and_then_ref name loc h (\<lambda>v. (v, f v)) = (h, and_then name loc h f)"
  by (cases h) simp_all

lemma transform_ref_pure:
  "transform_ref name loc h (\<lambda>v. (v, f v)) = (h, transform name loc h f)"
  by (cases h) (simp_all add: of_value_def split: prod.split)

lemma or_else_ref_pure: "or_else_ref h (\<lambda>e. (e, f e)) = (h, or_else h f)"
  by (cases h) simp_all

lemma transform_error_ref_pure:
  "transform_error_ref name' loc h (\<lambda>e. (e, f e)) = (h, transform_error name' loc h f)"
  by (cases h) (simp_all split: prod.split)

subsection \<open>Properties\<close>

text \<open>
  Error propagation in a method chain. When the stages before a stage succeed and the stage
  fails, the chain fails with exactly that error; no later stage is called; and the error is
  logged by the stage that creates it and once more by every later stage, each time under the
  location of the \<open>and_then\<close> it passes through.
\<close>

theorem chain_propagates:
  assumes "chain name loc (Value v, log) gs = (Value w, log1)" and "f w = (Unexpected e, log2)"
  shows "chain name loc (Value v, log) (gs @ f # hs) =
     (Unexpected e, log1 @ log2 @
        replicate (length hs) (LOGGER_ERROR ''Error at %s: %s'' [ArgStr loc, ArgStr (name e)]))"
  using assms by (simp add: chain_append chain_unexpected)

definition half :: "int \<Rightarrow> (int, nat) error_handler logged" where
  "half n = (if n mod 2 = 0 then of_value (n div 2)
             else of_error (\<lambda>e. ''Odd'') 3 ''cannot halve'' ''half'')"

theorem chain_propagates_witness:
  "chain (\<lambda>e. ''Odd'') ''and_then'' (Value 6, []) [half, half, half, half] =
     (Unexpected 3,
      [LOGGER_ERROR ''Error at %s: %s - %s'' [ArgStr ''half'', ArgStr ''Odd'', ArgStr ''cannot halve''],
       LOGGER_ERROR ''Error at %s: %s'' [ArgStr ''and_then'', ArgStr ''Odd''],
       LOGGER_ERROR ''Error at %s: %s'' [ArgStr ''and_then'', ArgStr ''Odd'']])"
proof -
  have "chain (\<lambda>e. ''Odd'') ''and_then'' (Value 6, []) [half] = (Value 3, [])"
    by (simp add: half_def of_value_def)
  moreover have "half 3 = (Unexpected 3, [LOGGER_ERROR ''Error at %s: %s - %s''
      [ArgStr ''half'', ArgStr ''Odd'', ArgStr ''cannot halve'']])"
    by (simp add: half_def of_error_def)
  ultimately show ?thesis
    using chain_propagates [of "\<lambda>e. ''Odd''" "''and_then''" 6 "[]" "[half]" 3 "[]" half 3 _ "[half, half]"]
    by simp
qed

text \<open>
  The values of \<open>ErrorHandler\<close> form the error monad: wrapping a value and binding calls the
  function on it, binding \<open>ErrorHandler(value)\<close> changes nothing, binding is associative, \<open>transform\<close> is
  binding to a wrapped result, \<open>or_else\<close> and \<open>value_or\<close> leave a success alone and handle every
  error, and \<open>transform_error\<close> changes the error and nothing else.
\<close>

theorem handler_laws:
  "and_then name loc (fst (of_value x)) f = f x \<and>
   fst (and_then name loc h of_value) = h \<and>
   fst (and_then name loc (fst (and_then name loc h f)) g) =
     fst (and_then name loc h (\<lambda>x. and_then name loc (fst (f x)) g)) \<and>
   fst (transform name loc h k) = (case h of Value v \<Rightarrow> Value (fst (k v)) | Unexpected e \<Rightarrow> Unexpected e) \<and>
   or_else h r = (case h of Value v \<Rightarrow> (Value v, []) | Unexpected e \<Rightarrow> r e) \<and>
   value_or h d = (case handler_value h of None \<Rightarrow> d | Some v \<Rightarrow> v) \<and>
   fst (transform_error name' loc h m) =
     (case h of Value v \<Rightarrow> Value v | Unexpected e \<Rightarrow> Unexpected (fst (m e))) \<and>
   (has_value h \<longleftrightarrow> handler_value h \<noteq> None) \<and> (has_value h \<longleftrightarrow> handler_error h = None)"
proof -
  have "fst (and_then name loc (fst (and_then name loc h f)) g) =
     fst (and_then name loc h (\<lambda>x. and_then name loc (fst (f x)) g))"
    by (rule and_then_assoc_value)
  then show ?thesis
    by (cases h) (simp_all add: of_value_def of_unexpected_def of_error_def split: prod.split)
qed

end
