(* ===== verification/Error_Codes.thy ===== *)
theory Error_Codes
  imports Error_Handler
begin

text \<open>
  The error enumerations of the repository and their \<open>ErrorTraits<E>::name\<close> functions, one
  pair per interface: threads, mutexes, semaphores, message queues, the BLE scanner, the crypto
  backend, the EnOcean driver, GPIO, serial lines and the watchdog. Each enumeration's names are
  pairwise distinct, so a log line written by \<open>ErrorHandler\<close> identifies the error code.
\<close>

datatype ThreadError =
    ThreadError_InvalidParameter
  | ThreadError_InsufficientMemory
  | ThreadError_ResourceLimitExceeded
  | ThreadError_PermissionDenied
  | ThreadError_ThreadNotFound
  | ThreadError_AlreadyCreated
  | ThreadError_Deadlock
  | ThreadError_InvalidThread
  | ThreadError_Deleted
  | ThreadError_CallerError
  | ThreadError_InvalidStack
  | ThreadError_InvalidPriority
  | ThreadError_CreationFailed
  | ThreadError_Unknown

fun ThreadError_name :: "ThreadError \<Rightarrow> string" where
  "ThreadError_name ThreadError_InvalidParameter = ''Invalid Parameter''"
| "ThreadError_name ThreadError_InsufficientMemory = ''Insufficient Memory''"
| "ThreadError_name ThreadError_ResourceLimitExceeded = ''Resource Limit Exceeded''"
| "ThreadError_name ThreadError_PermissionDenied = ''Permission Denied''"
| "ThreadError_name ThreadError_ThreadNotFound = ''Thread Not Found''"
| "ThreadError_name ThreadError_AlreadyCreated = ''Thread Already Created''"
| "ThreadError_name ThreadError_Deadlock = ''Deadlock Detected''"
| "ThreadError_name ThreadError_InvalidThread = ''Invalid Thread''"
| "ThreadError_name ThreadError_Deleted = ''Thread Deleted''"
| "ThreadError_name ThreadError_CallerError = ''Caller Error''"
| "ThreadError_name ThreadError_InvalidStack = ''Invalid Stack''"
| "ThreadError_name ThreadError_InvalidPriority = ''Invalid Priority''"
| "ThreadError_name ThreadError_CreationFailed = ''Thread Creation Failed''"
| "ThreadError_name ThreadError_Unknown = ''Unknown Error''"

text \<open>The enumerators count from 0 (\<open>static_cast<int>\<close>).\<close>

fun ThreadError_int :: "ThreadError \<Rightarrow> int" where
  "ThreadError_int ThreadError_InvalidParameter = 0"
| "ThreadError_int ThreadError_InsufficientMemory = 1"
| "ThreadError_int ThreadError_ResourceLimitExceeded = 2"
| "ThreadError_int ThreadError_PermissionDenied = 3"
| "ThreadError_int ThreadError_ThreadNotFound = 4"
| "ThreadError_int ThreadError_AlreadyCreated = 5"
| "ThreadError_int ThreadError_Deadlock = 6"
| "ThreadError_int ThreadError_InvalidThread = 7"
| "ThreadError_int ThreadError_Deleted = 8"
| "ThreadError_int ThreadError_CallerError = 9"
| "ThreadError_int ThreadError_InvalidStack = 10"
| "ThreadError_int ThreadError_InvalidPriority = 11"
| "ThreadError_int ThreadError_CreationFailed = 12"
| "ThreadError_int ThreadError_Unknown = 13"

lemma ThreadError_name_inject: "ThreadError_name a = ThreadError_name b \<longleftrightarrow> a = b"
  by (cases a; cases b) simp_all

datatype MutexError =
    MutexError_InvalidParameter
  | MutexError_InsufficientMemory
  | MutexError_ResourceLimitExceeded
  | MutexError_Timeout
  | MutexError_Interrupted
  | MutexError_NotInitialized
  | MutexError_AlreadyInitialized
  | MutexError_Deadlock
  | MutexError_InvalidMutex
  | MutexError_PermissionDenied
  | MutexError_Busy
  | MutexError_Deleted
  | MutexError_WaitAborted
  | MutexError_CallerError
  | MutexError_Unknown

fun MutexError_name :: "MutexError \<Rightarrow> string" where
  "MutexError_name MutexError_InvalidParameter = ''Invalid Parameter''"
| "MutexError_name MutexError_InsufficientMemory = ''Insufficient Memory''"
| "MutexError_name MutexError_ResourceLimitExceeded = ''Resource Limit Exceeded''"
| "MutexError_name MutexError_Timeout = ''Operation Timeout''"
| "MutexError_name MutexError_Interrupted = ''Operation Interrupted''"
| "MutexError_name MutexError_NotInitialized = ''Mutex Not Initialized''"
| "MutexError_name MutexError_AlreadyInitialized = ''Mutex Already Initialized''"
| "MutexError_name MutexError_Deadlock = ''Deadlock Detected''"
| "MutexError_name MutexError_InvalidMutex = ''Invalid Mutex''"
| "MutexError_name MutexError_PermissionDenied = ''Permission Denied''"
| "MutexError_name MutexError_Busy = ''Mutex Busy''"
| "MutexError_name MutexError_Deleted = ''Mutex Deleted''"
| "MutexError_name MutexError_WaitAborted = ''Wait Aborted''"
| "MutexError_name MutexError_CallerError = ''Caller Error''"
| "MutexError_name MutexError_Unknown = ''Unknown Error''"

text \<open>The enumerators count from 0 (\<open>static_cast<int>\<close>).\<close>

fun MutexError_int :: "MutexError \<Rightarrow> int" where
  "MutexError_int MutexError_InvalidParameter = 0"
| "MutexError_int MutexError_InsufficientMemory = 1"
| "MutexError_int MutexError_ResourceLimitExceeded = 2"
| "MutexError_int MutexError_Timeout = 3"
| "MutexError_int MutexError_Interrupted = 4"
| "MutexError_int MutexError_NotInitialized = 5"
| "MutexError_int MutexError_AlreadyInitialized = 6"
| "MutexError_int MutexError_Deadlock = 7"
| "MutexError_int MutexError_InvalidMutex = 8"
| "MutexError_int MutexError_PermissionDenied = 9"
| "MutexError_int MutexError_Busy = 10"
| "MutexError_int MutexError_Deleted = 11"
| "MutexError_int MutexError_WaitAborted = 12"
| "MutexError_int MutexError_CallerError = 13"
| "MutexError_int MutexError_Unknown = 14"

lemma MutexError_name_inject: "MutexError_name a = MutexError_name b \<longleftrightarrow> a = b"
  by (cases a; cases b) simp_all

datatype SemaphoreError =
    SemaphoreError_InvalidParameter
  | SemaphoreError_InsufficientMemory
  | SemaphoreError_ResourceLimitExceeded
  | SemaphoreError_Timeout
  | SemaphoreError_Interrupted
  | SemaphoreError_NotInitialized
  | SemaphoreError_AlreadyInitialized
  | SemaphoreError_InvalidSemaphore
  | SemaphoreError_PermissionDenied
  | SemaphoreError_CountOverflow
  | SemaphoreError_Deleted
  | SemaphoreError_WaitAborted
  | SemaphoreError_CallerError
  | SemaphoreError_Unknown

fun SemaphoreError_name :: "SemaphoreError \<Rightarrow> string" where
  "SemaphoreError_name SemaphoreError_InvalidParameter = ''Invalid Parameter''"
| "SemaphoreError_name SemaphoreError_InsufficientMemory = ''Insufficient Memory''"
| "SemaphoreError_name SemaphoreError_ResourceLimitExceeded = ''Resource Limit Exceeded''"
| "SemaphoreError_name SemaphoreError_Timeout = ''Operation Timeout''"
| "SemaphoreError_name SemaphoreError_Interrupted = ''Operation Interrupted''"
| "SemaphoreError_name SemaphoreError_NotInitialized = ''Semaphore Not Initialized''"
| "SemaphoreError_name SemaphoreError_AlreadyInitialized = ''Semaphore Already Initialized''"
| "SemaphoreError_name SemaphoreError_InvalidSemaphore = ''Invalid Semaphore''"
| "SemaphoreError_name SemaphoreError_PermissionDenied = ''Permission Denied''"
| "SemaphoreError_name SemaphoreError_CountOverflow = ''Count Overflow''"
| "SemaphoreError_name SemaphoreError_Deleted = ''Semaphore Deleted''"
| "SemaphoreError_name SemaphoreError_WaitAborted = ''Wait Aborted''"
| "SemaphoreError_name SemaphoreError_CallerError = ''Caller Error''"
| "SemaphoreError_name SemaphoreError_Unknown = ''Unknown Error''"

lemma SemaphoreError_name_inject: "SemaphoreError_name a = SemaphoreError_name b \<longleftrightarrow> a = b"
  by (cases a; cases b) simp_all

datatype MessageQueueError =
    MessageQueueError_InvalidParameter
  | MessageQueueError_InsufficientMemory
  | MessageQueueError_ResourceLimitExceeded
  | MessageQueueError_Timeout
  | MessageQueueError_Interrupted
  | MessageQueueError_QueueFull
  | MessageQueueError_QueueEmpty
  | MessageQueueError_InvalidQueue
  | MessageQueueError_AlreadyInitialized
  | MessageQueueError_PermissionDenied
  | MessageQueueError_AlreadyExists
  | MessageQueueError_Unknown

fun MessageQueueError_name :: "MessageQueueError \<Rightarrow> string" where
  "MessageQueueError_name MessageQueueError_InvalidParameter = ''Invalid Parameter''"
| "MessageQueueError_name MessageQueueError_InsufficientMemory = ''Insufficient Memory''"
| "MessageQueueError_name MessageQueueError_ResourceLimitExceeded = ''Resource Limit Exceeded''"
| "MessageQueueError_name MessageQueueError_Timeout = ''Operation Timeout''"
| "MessageQueueError_name MessageQueueError_Interrupted = ''Operation Interrupted''"
| "MessageQueueError_name MessageQueueError_QueueFull = ''Queue Full''"
| "MessageQueueError_name MessageQueueError_QueueEmpty = ''Queue Empty''"
| "MessageQueueError_name MessageQueueError_InvalidQueue = ''Invalid Queue''"
| "MessageQueueError_name MessageQueueError_AlreadyInitialized = ''Already Initialized''"
| "MessageQueueError_name MessageQueueError_PermissionDenied = ''Permission Denied''"
| "MessageQueueError_name MessageQueueError_AlreadyExists = ''Already Exists''"
| "MessageQueueError_name MessageQueueError_Unknown = ''Unknown Error''"

lemma MessageQueueError_name_inject: "MessageQueueError_name a = MessageQueueError_name b \<longleftrightarrow> a = b"
  by (cases a; cases b) simp_all

datatype BleError =
    BleError_AlreadyInitialised
  | BleError_NotInitialised
  | BleError_AdapterNotFound
  | BleError_PermissionDenied
  | BleError_ScanStartFailed
  | BleError_ScanStopFailed
  | BleError_InvalidCallback
  | BleError_SystemError

fun BleError_name :: "BleError \<Rightarrow> string" where
  "BleError_name BleError_AlreadyInitialised = ''AlreadyInitialised''"
| "BleError_name BleError_NotInitialised = ''NotInitialised''"
| "BleError_name BleError_AdapterNotFound = ''AdapterNotFound''"
| "BleError_name BleError_PermissionDenied = ''PermissionDenied''"
| "BleError_name BleError_ScanStartFailed = ''ScanStartFailed''"
| "BleError_name BleError_ScanStopFailed = ''ScanStopFailed''"
| "BleError_name BleError_InvalidCallback = ''InvalidCallback''"
| "BleError_name BleError_SystemError = ''SystemError''"

lemma BleError_name_inject: "BleError_name a = BleError_name b \<longleftrightarrow> a = b"
  by (cases a; cases b) simp_all

datatype CryptoError =
    CryptoError_NotInitialised
  | CryptoError_InvalidKey
  | CryptoError_InvalidNonce
  | CryptoError_InvalidTag
  | CryptoError_AuthFailed
  | CryptoError_SystemError

fun CryptoError_name :: "CryptoError \<Rightarrow> string" where
  "CryptoError_name CryptoError_NotInitialised = ''NotInitialised''"
| "CryptoError_name CryptoError_InvalidKey = ''InvalidKey''"
| "CryptoError_name CryptoError_InvalidNonce = ''InvalidNonce''"
| "CryptoError_name CryptoError_InvalidTag = ''InvalidTag''"
| "CryptoError_name CryptoError_AuthFailed = ''AuthFailed''"
| "CryptoError_name CryptoError_SystemError = ''SystemError''"

lemma CryptoError_name_inject: "CryptoError_name a = CryptoError_name b \<longleftrightarrow> a = b"
  by (cases a; cases b) simp_all

datatype EnoceanError =
    EnoceanError_InvalidParameter
  | EnoceanError_NotInitialised
  | EnoceanError_DeviceTableFull
  | EnoceanError_DeviceNotFound
  | EnoceanError_AuthenticationFailed
  | EnoceanError_ReplayDetected
  | EnoceanError_MalformedAdvertisement
  | EnoceanError_CryptoError
  | EnoceanError_Unknown

fun EnoceanError_name :: "EnoceanError \<Rightarrow> string" where
  "EnoceanError_name EnoceanError_InvalidParameter = ''InvalidParameter''"
| "EnoceanError_name EnoceanError_NotInitialised = ''NotInitialised''"
| "EnoceanError_name EnoceanError_DeviceTableFull = ''DeviceTableFull''"
| "EnoceanError_name EnoceanError_DeviceNotFound = ''DeviceNotFound''"
| "EnoceanError_name EnoceanError_AuthenticationFailed = ''AuthenticationFailed''"
| "EnoceanError_name EnoceanError_ReplayDetected = ''ReplayDetected''"
| "EnoceanError_name EnoceanError_MalformedAdvertisement = ''MalformedAdvertisement''"
| "EnoceanError_name EnoceanError_CryptoError = ''CryptoError''"
| "EnoceanError_name EnoceanError_Unknown = ''Unknown''"

lemma EnoceanError_name_inject: "EnoceanError_name a = EnoceanError_name b \<longleftrightarrow> a = b"
  by (cases a; cases b) simp_all

datatype GpioError =
    GpioError_InvalidParameter
  | GpioError_InvalidPin
  | GpioError_InvalidMode
  | GpioError_IOError
  | GpioError_DeviceNotAvailable
  | GpioError_InsufficientMemory
  | GpioError_Timeout
  | GpioError_PinInUse
  | GpioError_PermissionDenied
  | GpioError_Busy
  | GpioError_NotSupported
  | GpioError_HardwareFault
  | GpioError_Unknown

fun GpioError_name :: "GpioError \<Rightarrow> string" where
  "GpioError_name GpioError_InvalidParameter = ''Invalid Parameter''"
| "GpioError_name GpioError_InvalidPin = ''Invalid Pin''"
| "GpioError_name GpioError_InvalidMode = ''Invalid Mode''"
| "GpioError_name GpioError_IOError = ''I/O Error''"
| "GpioError_name GpioError_DeviceNotAvailable = ''Device Not Available''"
| "GpioError_name GpioError_InsufficientMemory = ''Insufficient Memory''"
| "GpioError_name GpioError_Timeout = ''Timeout''"
| "GpioError_name GpioError_PinInUse = ''Pin In Use''"
| "GpioError_name GpioError_PermissionDenied = ''Permission Denied''"
| "GpioError_name GpioError_Busy = ''Busy''"
| "GpioError_name GpioError_NotSupported = ''Not Supported''"
| "GpioError_name GpioError_HardwareFault = ''Hardware Fault''"
| "GpioError_name GpioError_Unknown = ''Unknown Error''"

text \<open>The enumerators count from 0 (\<open>static_cast<int>\<close>).\<close>

fun GpioError_int :: "GpioError \<Rightarrow> int" where
  "GpioError_int GpioError_InvalidParameter = 0"
| "GpioError_int GpioError_InvalidPin = 1"
| "GpioError_int GpioError_InvalidMode = 2"
| "GpioError_int GpioError_IOError = 3"
| "GpioError_int GpioError_DeviceNotAvailable = 4"
| "GpioError_int GpioError_InsufficientMemory = 5"
| "GpioError_int GpioError_Timeout = 6"
| "GpioError_int GpioError_PinInUse = 7"
| "GpioError_int GpioError_PermissionDenied = 8"
| "GpioError_int GpioError_Busy = 9"
| "GpioError_int GpioError_NotSupported = 10"
| "GpioError_int GpioError_HardwareFault = 11"
| "GpioError_int GpioError_Unknown = 12"

lemma GpioError_name_inject: "GpioError_name a = GpioError_name b \<longleftrightarrow> a = b"
  by (cases a; cases b) simp_all

datatype SerialError =
    SerialError_InvalidParameter
  | SerialError_InsufficientMemory
  | SerialError_DeviceNotFound
  | SerialError_IOError
  | SerialError_InvalidConfiguration
  | SerialError_Timeout
  | SerialError_DeviceBusy
  | SerialError_NotInitialized
  | SerialError_AlreadyInitialized
  | SerialError_InitializationFailed
  | SerialError_TransmitError
  | SerialError_ReceiveError
  | SerialError_OverrunError
  | SerialError_FramingError
  | SerialError_ParityError
  | SerialError_NoiseError
  | SerialError_BreakCondition
  | SerialError_DmaError
  | SerialError_HardwareFault

fun SerialError_name :: "SerialError \<Rightarrow> string" where
  "SerialError_name SerialError_InvalidParameter = ''Invalid Parameter''"
| "SerialError_name SerialError_InsufficientMemory = ''Insufficient Memory''"
| "SerialError_name SerialError_DeviceNotFound = ''Device Not Found''"
| "SerialError_name SerialError_IOError = ''I/O Error''"
| "SerialError_name SerialError_InvalidConfiguration = ''Invalid Configuration''"
| "SerialError_name SerialError_Timeout = ''Timeout''"
| "SerialError_name SerialError_DeviceBusy = ''Device Busy''"
| "SerialError_name SerialError_NotInitialized = ''Not Initialized''"
| "SerialError_name SerialError_AlreadyInitialized = ''Already Initialized''"
| "SerialError_name SerialError_InitializationFailed = ''Initialization Failed''"
| "SerialError_name SerialError_TransmitError = ''Transmit Error''"
| "SerialError_name SerialError_ReceiveError = ''Receive Error''"
| "SerialError_name SerialError_OverrunError = ''Overrun Error''"
| "SerialError_name SerialError_FramingError = ''Framing Error''"
| "SerialError_name SerialError_ParityError = ''Parity Error''"
| "SerialError_name SerialError_NoiseError = ''Noise Error''"
| "SerialError_name SerialError_BreakCondition = ''Break Condition''"
| "SerialError_name SerialError_DmaError = ''DMA Error''"
| "SerialError_name SerialError_HardwareFault = ''Hardware Fault''"

lemma SerialError_name_inject: "SerialError_name a = SerialError_name b \<longleftrightarrow> a = b"
  by (cases a; cases b) simp_all

datatype WatchdogError =
    WatchdogError_InvalidParameter
  | WatchdogError_DeviceNotFound
  | WatchdogError_DeviceNotReady
  | WatchdogError_NotSupported
  | WatchdogError_HardwareError
  | WatchdogError_AlreadyInitialized
  | WatchdogError_ConfigurationError
  | WatchdogError_TimeoutOutOfRange
  | WatchdogError_PrescalerError
  | WatchdogError_ReloadError

fun WatchdogError_name :: "WatchdogError \<Rightarrow> string" where
  "WatchdogError_name WatchdogError_InvalidParameter = ''Invalid Parameter''"
| "WatchdogError_name WatchdogError_DeviceNotFound = ''Device Not Found''"
| "WatchdogError_name WatchdogError_DeviceNotReady = ''Device Not Ready''"
| "WatchdogError_name WatchdogError_NotSupported = ''Not Supported''"
| "WatchdogError_name WatchdogError_HardwareError = ''Hardware Error''"
| "WatchdogError_name WatchdogError_AlreadyInitialized = ''Already Initialized''"
| "WatchdogError_name WatchdogError_ConfigurationError = ''Configuration Error''"
| "WatchdogError_name WatchdogError_TimeoutOutOfRange = ''Timeout Out Of Range''"
| "WatchdogError_name WatchdogError_PrescalerError = ''Prescaler Error''"
| "WatchdogError_name WatchdogError_ReloadError = ''Reload Error''"

lemma WatchdogError_name_inject: "WatchdogError_name a = WatchdogError_name b \<longleftrightarrow> a = b"
  by (cases a; cases b) simp_all

end
