(* ===== verification/Enocean_Types.thy ===== *)
theory Enocean_Types
  imports Error_Codes
begin

text \<open>
  The data of the EnOcean driver: src/enocean/EnoceanTypes.hpp and the protocol constants of
  src/enocean/EnoceanDriver.ipp. A function pointer is its symbol name, \<open>None\<close> is \<open>nullptr\<close>.
\<close>

subsection \<open>Constants of EnoceanTypes.hpp\<close>

definition k_enocean_manufacturer_id :: u16 where "k_enocean_manufacturer_id = 0x03DA"
definition k_key_len :: nat where "k_key_len = 16"
definition k_tag_len :: nat where "k_tag_len = 4"
definition k_nonce_len :: nat where "k_nonce_len = 13"
definition k_addr_len :: nat where "k_addr_len = 6"
definition k_max_devices :: nat where "k_max_devices = 8"

definition k_switch_oa :: u8 where "k_switch_oa = 0x01"
definition k_switch_ia :: u8 where "k_switch_ia = 0x02"
definition k_switch_ob :: u8 where "k_switch_ob = 0x04"
definition k_switch_ib :: u8 where "k_switch_ib = 0x08"

lemmas size_constants =
  k_key_len_def k_tag_len_def k_nonce_len_def k_addr_len_def k_max_devices_def

subsection \<open>Constants of EnoceanDriver.ipp (namespace detail)\<close>

definition k_ad_type_manufacturer :: u8 where "k_ad_type_manufacturer = 0xFF"
definition k_commissioning_payload_min :: nat where "k_commissioning_payload_min = 22"
definition k_data_payload_min :: nat where "k_data_payload_min = 9"
definition k_seq_offset :: nat where "k_seq_offset = 0"
definition k_key_offset :: nat where "k_key_offset = 4"
definition k_switch_state_offset :: nat where "k_switch_state_offset = 4"
definition k_sensor_data_offset :: nat where "k_sensor_data_offset = 4"

definition k_switch_addr5 :: u8 where "k_switch_addr5 = 0x03"
definition k_switch_addr4 :: u8 where "k_switch_addr4 = 0xDA"
definition k_switch_ptm216b_addr5 :: u8 where "k_switch_ptm216b_addr5 = 0xE2"
definition k_switch_ptm216b_addr4 :: u8 where "k_switch_ptm216b_addr4 = 0x15"
definition k_sensor_addr5 :: u8 where "k_sensor_addr5 = 0xE5"

definition k_stm_commissioning_marker :: u8 where "k_stm_commissioning_marker = 0x3E"
definition k_stm_commissioning_payload_len :: nat where "k_stm_commissioning_payload_len = 27"

definition k_adv_nonconn_ind :: u8 where "k_adv_nonconn_ind = 0x03"
definition k_addr_random :: u8 where "k_addr_random = 0x01"

definition k_tlv_type_mask :: u8 where "k_tlv_type_mask = 0x3F"
definition k_tlv_size_shift :: nat where "k_tlv_size_shift = 6"
definition k_tlv_size_var :: u8 where "k_tlv_size_var = 0x03"
definition k_tlv_type_optional :: u8 where "k_tlv_type_optional = 0x3C"
definition k_tlv_type_commissioning :: u8 where "k_tlv_type_commissioning = 0x3E"
definition k_tlv_commissioning_block :: nat where "k_tlv_commissioning_block = 22"

text \<open>Local constants of \<open>handle_switch\<close>.\<close>

definition k_switch_payload_max :: nat where "k_switch_payload_max = 13"
definition k_status_reserved_mask :: u8 where "k_status_reserved_mask = 0xE0"

lemmas payload_constants =
  k_commissioning_payload_min_def k_data_payload_min_def k_seq_offset_def k_key_offset_def
  k_switch_state_offset_def k_sensor_data_offset_def k_stm_commissioning_payload_len_def
  k_switch_payload_max_def k_tlv_commissioning_block_def k_tlv_size_shift_def

lemmas byte_constants =
  k_enocean_manufacturer_id_def k_ad_type_manufacturer_def k_switch_addr5_def k_switch_addr4_def
  k_switch_ptm216b_addr5_def k_switch_ptm216b_addr4_def k_sensor_addr5_def
  k_stm_commissioning_marker_def k_adv_nonconn_ind_def k_addr_random_def k_tlv_type_mask_def
  k_tlv_size_var_def k_tlv_type_optional_def k_tlv_type_commissioning_def
  k_status_reserved_mask_def

subsection \<open>Enumerations and records\<close>

datatype ButtonAction = Release | Press

datatype DeviceType = Switch | Sensor | DeviceType_Unknown

record BleAddr =
  ba_addr :: "u8 list"
  ba_type :: u8

record EnoceanDevice =
  ble_addr :: BleAddr
  dev_key :: "u8 list"
  seq_num :: u32
  dev_rssi :: i8
  dev_type :: DeviceType
  active :: bool

text \<open>The default member initialisers: \<open>EnoceanDevice{}\<close>.\<close>

definition default_ble_addr :: BleAddr where
  "default_ble_addr = \<lparr>ba_addr = replicate k_addr_len 0, ba_type = 0\<rparr>"

definition default_device :: EnoceanDevice where
  "default_device =
     \<lparr>ble_addr = default_ble_addr, dev_key = replicate k_key_len 0, seq_num = 0, dev_rssi = 0,
      dev_type = DeviceType_Unknown, active = False\<rparr>"

record SensorData =
  occupancy :: "bool option"
  light_sensor :: "u16 option"
  battery_voltage :: "u16 option"
  light_solar_cell :: "u16 option"
  energy_lvl :: "u8 option"
  temperature_cdeg :: "i16 option"
  humidity :: "u8 option"
  contact :: "bool option"
  accel_status :: "u8 option"
  accel_x_cg :: "i16 option"
  accel_y_cg :: "i16 option"
  accel_z_cg :: "i16 option"

definition empty_sensor_data :: SensorData where
  "empty_sensor_data =
     \<lparr>occupancy = None, light_sensor = None, battery_voltage = None, light_solar_cell = None,
      energy_lvl = None, temperature_cdeg = None, humidity = None, contact = None,
      accel_status = None, accel_x_cg = None, accel_y_cg = None, accel_z_cg = None\<rparr>"

type_synonym fn_ptr = "string option"

record EnoceanCallbacks =
  button_cb :: fn_ptr
  sensor_cb :: fn_ptr
  commissioned_cb :: fn_ptr
  decommissioned_cb :: fn_ptr
  loaded_cb :: fn_ptr

definition no_callbacks :: EnoceanCallbacks where
  "no_callbacks = \<lparr>button_cb = None, sensor_cb = None, commissioned_cb = None,
     decommissioned_cb = None, loaded_cb = None\<rparr>"

text \<open>
  What the driver does to the outside, in order: log calls and calls of the application's
  callbacks. The optional payload of a callback is its pointer and length: \<open>None\<close> is a null
  pointer with length 0. The code passes it for buttons only.
\<close>

datatype driver_event =
    Logged log_call
  | CallButton string EnoceanDevice ButtonAction u8 "u8 list option"
  | CallSensor string EnoceanDevice SensorData "u8 list option"
  | CallCommissioned string EnoceanDevice

text \<open>\<open>if (callbacks_.x != nullptr) { callbacks_.x(...); }\<close>\<close>

definition call_if :: "fn_ptr \<Rightarrow> (string \<Rightarrow> driver_event) \<Rightarrow> driver_event list" where
  "call_if fn mk = (case fn of None \<Rightarrow> [] | Some f \<Rightarrow> [mk f])"

text \<open>The events that carry a device's report to the application.\<close>

fun is_data_event :: "driver_event \<Rightarrow> bool" where
  "is_data_event (CallButton f d a b c) = True"
| "is_data_event (CallSensor f d s c) = True"
| "is_data_event _ = False"

fun is_commissioned_event :: "driver_event \<Rightarrow> bool" where
  "is_commissioned_event (CallCommissioned f d) = True"
| "is_commissioned_event _ = False"

text \<open>A device record of the sizes its \<open>std::array\<close> members have.\<close>

definition device_ok :: "EnoceanDevice \<Rightarrow> bool" where
  "device_ok d \<longleftrightarrow> length (ba_addr (ble_addr d)) = k_addr_len \<and> length (dev_key d) = k_key_len"

lemma default_device_ok [simp]: "device_ok default_device"
  by (simp add: device_ok_def default_device_def default_ble_addr_def)

lemma default_device_inactive [simp]: "\<not> active default_device"
  by (simp add: default_device_def)

lemma device_ok_update [simp]:
  "device_ok (d\<lparr>seq_num := s\<rparr>) = device_ok d"
  "device_ok (d\<lparr>dev_rssi := r\<rparr>) = device_ok d"
  "device_ok (d\<lparr>dev_type := ty\<rparr>) = device_ok d"
  "device_ok (d\<lparr>active := b\<rparr>) = device_ok d"
  by (simp_all add: device_ok_def)

end
