(* ===== verification/Enocean_Parse.thy ===== *)
theory Enocean_Parse
  imports Enocean_Types
begin

text \<open>
  The parsers of the driver (src/enocean/EnoceanDriver.ipp): the walk over the AD structures of an
  advertisement, the sequence number, the CCM nonce, the device type and the TLV fields of a
  sensor report.
\<close>

subsection \<open>Little-endian words\<close>

text \<open>The four-byte sequence number, as the three handlers assemble it.\<close>

definition read_seq :: "u8 list \<Rightarrow> u32 option" where
  "read_seq mfr_payload =
     do {
       b0 \<leftarrow> rd mfr_payload k_seq_offset;
       b1 \<leftarrow> rd mfr_payload (k_seq_offset + 1);
       b2 \<leftarrow> rd mfr_payload (k_seq_offset + 2);
       b3 \<leftarrow> rd mfr_payload (k_seq_offset + 3);
       Some (ucast b0 OR push_bit 8 (ucast b1) OR push_bit 16 (ucast b2) OR push_bit 24 (ucast b3))
     }"

text \<open>The bytes of a word as the devices send it, and as the driver puts it into the nonce.\<close>

definition seq_bytes :: "u32 \<Rightarrow> u8 list" where
  "seq_bytes s =
     [ucast (s AND 0xFF), ucast (drop_bit 8 s AND 0xFF), ucast (drop_bit 16 s AND 0xFF),
      ucast (drop_bit 24 s AND 0xFF)]"

definition build_nonce :: "u8 list \<Rightarrow> u32 \<Rightarrow> u8 list option" where
  "build_nonce addr seq =
     do {
       a0 \<leftarrow> rd addr 0;
       a1 \<leftarrow> rd addr 1;
       a2 \<leftarrow> rd addr 2;
       a3 \<leftarrow> rd addr 3;
       a4 \<leftarrow> rd addr 4;
       a5 \<leftarrow> rd addr 5;
       Some [a0, a1, a2, a3, a4, a5,
             ucast (seq AND 0xFF), ucast (drop_bit 8 seq AND 0xFF),
             ucast (drop_bit 16 seq AND 0xFF), ucast (drop_bit 24 seq AND 0xFF), 0, 0, 0]
     }"

definition check_sequence :: "u32 \<Rightarrow> u32 \<Rightarrow> bool" where
  "check_sequence stored new_seq = (new_seq > stored)"

subsection \<open>Device type\<close>

definition detect_device_type :: "u8 list \<Rightarrow> DeviceType" where
  "detect_device_type addr =
     (if length addr < k_addr_len then DeviceType_Unknown
      else if (addr ! 5 = k_switch_addr5 \<and> addr ! 4 = k_switch_addr4) \<or>
              (addr ! 5 = k_switch_ptm216b_addr5 \<and> addr ! 4 = k_switch_ptm216b_addr4)
      then Switch
      else if addr ! 5 = k_sensor_addr5 then Sensor
      else DeviceType_Unknown)"

subsection \<open>AD structures\<close>

text \<open>
  The loop of \<open>extract_manufacturer_data\<close> from position \<open>i\<close>. The result \<open>Some []\<close> is the empty
  span, \<open>None\<close> an access outside \<open>adv_data\<close>. The code increments \<open>i\<close> after it has read the
  length; here \<open>i\<close> keeps the position of the length byte, so \<open>i + 1\<close> is the code's \<open>i\<close>.
\<close>

function extract_from :: "u8 list \<Rightarrow> nat \<Rightarrow> u8 list option" where
  "extract_from adv_data i =
     (if i < length adv_data then
        do {
          len \<leftarrow> rd adv_data i;
          if len = 0 then Some []
          else if i + unat len > length adv_data then Some []
          else do {
            ty \<leftarrow> rd adv_data (i + 1);
            if ty = k_ad_type_manufacturer then
              if length adv_data - (i + 1) < 3 then Some []
              else do {
                lo \<leftarrow> rd adv_data (i + 2);
                hi \<leftarrow> rd adv_data (i + 3);
                if (ucast lo :: u16) OR push_bit 8 (ucast hi) = k_enocean_manufacturer_id then
                  if unat len < 3 then Some []
                  else subspan adv_data (i + 4) (unat len - 3)
                else extract_from adv_data (i + 1 + unat len)
              }
            else extract_from adv_data (i + 1 + unat len)
          }
        }
      else Some [])"
  by pat_completeness auto
termination
  by (relation "measure (\<lambda>(adv_data, i). length adv_data - i)") auto

declare extract_from.simps [simp del]

definition extract_manufacturer_data :: "u8 list \<Rightarrow> u8 list option" where
  "extract_manufacturer_data adv_data = extract_from adv_data 0"

subsection \<open>TLV fields of a sensor report\<close>

text \<open>The loop that assembles a value of \<open>val_len\<close> bytes at \<open>j\<close>.\<close>

function le_value_from :: "u8 list \<Rightarrow> nat \<Rightarrow> nat \<Rightarrow> nat \<Rightarrow> u32 \<Rightarrow> u32 option" where
  "le_value_from sensor_bytes j val_len b val =
     (if b < val_len then
        do {
          x \<leftarrow> rd sensor_bytes (j + b);
          le_value_from sensor_bytes j val_len (b + 1) (val OR push_bit (8 * b) (ucast x))
        }
      else Some val)"
  by pat_completeness auto
termination
  by (relation "measure (\<lambda>(sensor_bytes, j, val_len, b, val). val_len - b)") auto

declare le_value_from.simps [simp del]

text \<open>The switch over the field type.\<close>

definition apply_tlv :: "u8 \<Rightarrow> nat \<Rightarrow> u32 \<Rightarrow> SensorData \<Rightarrow> SensorData" where
  "apply_tlv type_id val_len val d =
     (if type_id = 0x00 then d\<lparr>temperature_cdeg := Some (ucast (val AND 0xFFFF))\<rparr>
      else if type_id = 0x01 then d\<lparr>battery_voltage := Some (ucast (val div 2))\<rparr>
      else if type_id = 0x02 then d\<lparr>energy_lvl := Some (ucast (val div 2))\<rparr>
      else if type_id = 0x04 then d\<lparr>light_solar_cell := Some (ucast val)\<rparr>
      else if type_id = 0x05 then d\<lparr>light_sensor := Some (ucast val)\<rparr>
      else if type_id = 0x06 then d\<lparr>humidity := Some (ucast ((val AND 0xFF) div 2))\<rparr>
      else if type_id = 0x0A then
        (if val_len = 4 then
           d\<lparr>accel_status := Some (ucast (drop_bit 30 val)),
             accel_x_cg := Some (word_of_int (uint (drop_bit 20 val AND 0x3FF) - 512)),
             accel_y_cg := Some (word_of_int (uint (drop_bit 10 val AND 0x3FF) - 512)),
             accel_z_cg := Some (word_of_int (uint (val AND 0x3FF) - 512))\<rparr>
         else d)
      else if type_id = 0x20 then d\<lparr>occupancy := Some (val = 0x02)\<rparr>
      else if type_id = 0x23 then d\<lparr>contact := Some ((ucast (val AND 0xFF) :: u8) = 0x02)\<rparr>
      else d)"

text \<open>The while loop over the fields, from position \<open>j\<close>.\<close>

function parse_tlv_from :: "u8 list \<Rightarrow> nat \<Rightarrow> SensorData \<Rightarrow> SensorData option" where
  "parse_tlv_from sensor_bytes j d =
     (if j < length sensor_bytes then
        do {
          header \<leftarrow> rd sensor_bytes j;
          let j1 = j + 1;
          let type_id = header AND k_tlv_type_mask;
          let size_bits = drop_bit k_tlv_size_shift header;
          if type_id = k_tlv_type_commissioning then
            parse_tlv_from sensor_bytes
              (if j1 + k_tlv_commissioning_block \<le> length sensor_bytes
               then j1 + k_tlv_commissioning_block else length sensor_bytes) d
          else if size_bits = k_tlv_size_var \<or> type_id = k_tlv_type_optional then
            if j1 \<ge> length sensor_bytes then Some d
            else do {
              vlen \<leftarrow> rd sensor_bytes j1;
              if unat vlen > length sensor_bytes - (j1 + 1) then Some d
              else parse_tlv_from sensor_bytes (j1 + 1 + unat vlen) d
            }
          else
            let val_len = push_bit (unat size_bits) 1 in
            if j1 + val_len > length sensor_bytes then Some d
            else do {
              val \<leftarrow> le_value_from sensor_bytes j1 val_len 0 0;
              parse_tlv_from sensor_bytes (j1 + val_len) (apply_tlv type_id val_len val d)
            }
        }
      else Some d)"
  by pat_completeness auto
termination
  by (relation "measure (\<lambda>(sensor_bytes, j, d). length sensor_bytes - j)") auto

declare parse_tlv_from.simps [simp del]

subsection \<open>Lemmas on little-endian words\<close>

lemma not_bit_u8: "8 \<le> n \<Longrightarrow> \<not> bit (x :: u8) n"
  using bit_imp_le_length [of x n] by auto

lemma mask8_eq: "(mask 8 :: 'a::len word) = 0xFF"
  by (simp add: mask_eq_exp_minus_1)

lemma and_FF: "(x :: 'a::len word) AND 0xFF = take_bit 8 x"
  by (simp only: mask8_eq [symmetric] take_bit_eq_mask)

lemma ucast8_and_FF [simp]: "(ucast (x AND 0xFF) :: u8) = ucast (x :: u32)"
  by (rule bit_word_eqI) (auto simp: bit_simps and_FF)

lemma seq_of_bytes:
  "(ucast (ucast s :: u8) OR push_bit 8 (ucast (ucast (drop_bit 8 s) :: u8))
     OR push_bit 16 (ucast (ucast (drop_bit 16 s) :: u8))
     OR push_bit 24 (ucast (ucast (drop_bit 24 s) :: u8)) :: u32) = s"
proof (rule bit_word_eqI)
  fix n :: nat
  assume "n < LENGTH(32)"
  then consider "n < 8" | "8 \<le> n" "n < 16" | "16 \<le> n" "n < 24" | "24 \<le> n" "n < 32"
    by force
  then show "bit (ucast (ucast s :: u8) OR push_bit 8 (ucast (ucast (drop_bit 8 s) :: u8))
      OR push_bit 16 (ucast (ucast (drop_bit 16 s) :: u8))
      OR push_bit 24 (ucast (ucast (drop_bit 24 s) :: u8)) :: u32) n = bit s n"
    by cases (auto simp: bit_simps)
qed

lemma read_seq_total: "4 \<le> length p \<Longrightarrow> \<exists>s. read_seq p = Some s"
  by (auto simp: read_seq_def rd_def payload_constants)

lemma length_seq_bytes [simp]: "length (seq_bytes s) = 4"
  by (simp add: seq_bytes_def)

lemma read_seq_of_bytes: "read_seq (seq_bytes s @ rest) = Some s"
  by (simp add: read_seq_def seq_bytes_def rd_def payload_constants seq_of_bytes)

lemma seq_bytes_inject: "seq_bytes s = seq_bytes t \<longleftrightarrow> s = t"
  by (metis append_Nil2 option.inject read_seq_of_bytes)

lemma read_seq_SomeD:
  assumes r: "read_seq p = Some t"
  shows "take 4 p = seq_bytes t"
proof -
  have "4 \<le> length p"
    using r by (auto simp: read_seq_def rd_def payload_constants split: if_splits bind_splits)
  then have "p \<noteq> []" by auto
  have t4: "take 4 p = [p ! 0, p ! 1, p ! 2, p ! 3]"
    using \<open>4 \<le> length p\<close> by (intro nth_equalityI) (auto simp: less_Suc_eq eval_nat_numeral)
  have t: "t = ucast (p ! 0) OR push_bit 8 (ucast (p ! 1)) OR push_bit 16 (ucast (p ! 2))
      OR push_bit 24 (ucast (p ! 3))"
    using r \<open>4 \<le> length p\<close> \<open>p \<noteq> []\<close>
    by (simp add: read_seq_def payload_constants rd_in_range [of 0] rd_in_range [of "Suc 0"]
        rd_in_range [of 2] rd_in_range [of 3] numeral_2_eq_2 [symmetric])
  show ?thesis
    unfolding t4 t seq_bytes_def
    by (auto intro!: bit_word_eqI simp: bit_simps not_bit_u8)
qed

lemma build_nonce_eq:
  assumes "length addr = k_addr_len"
  shows "build_nonce addr seq = Some (addr @ seq_bytes seq @ [0, 0, 0])"
proof -
  have "addr = [addr ! 0, addr ! 1, addr ! 2, addr ! 3, addr ! 4, addr ! 5]"
    using assms by (intro nth_equalityI) (auto simp: k_addr_len_def less_Suc_eq eval_nat_numeral)
  then obtain a0 a1 a2 a3 a4 a5 where "addr = [a0, a1, a2, a3, a4, a5]" by blast
  then show ?thesis by (simp add: build_nonce_def rd_def seq_bytes_def)
qed

lemma length_build_nonce: "build_nonce addr seq = Some n \<Longrightarrow> length n = k_nonce_len"
  by (auto simp: build_nonce_def rd_def k_nonce_len_def split: if_splits)

text \<open>The low \<open>n\<close> bytes of a value, as a TLV field carries them.\<close>

definition le_bytes :: "nat \<Rightarrow> u32 \<Rightarrow> u8 list" where
  "le_bytes n v = map (\<lambda>k. ucast (drop_bit (8 * k) v)) [0..<n]"

lemma length_le_bytes [simp]: "length (le_bytes n v) = n"
  by (simp add: le_bytes_def)

lemma le_step:
  "take_bit (8 * b) v OR push_bit (8 * b) (ucast (ucast (drop_bit (8 * b) v) :: u8))
     = take_bit (8 * (b + 1)) (v :: u32)"
  by (rule bit_word_eqI) (auto simp: bit_simps)

lemma le_value_from_bytes:
  assumes "b \<le> n"
  shows "le_value_from (pre @ le_bytes n v @ post) (length pre) n b (take_bit (8 * b) v)
           = Some (take_bit (8 * n) v)"
  using assms
proof (induction "n - b" arbitrary: b)
  case 0
  then show ?case by (simp add: le_value_from.simps)
next
  case (Suc m)
  then have b: "b < n" by simp
  have r: "rd (pre @ le_bytes n v @ post) (length pre + b) = Some (ucast (drop_bit (8 * b) v))"
    using b by (simp add: rd_def nth_append le_bytes_def)
  have "le_value_from (pre @ le_bytes n v @ post) (length pre) n (b + 1) (take_bit (8 * (b + 1)) v)
      = Some (take_bit (8 * n) v)"
    using Suc by (intro Suc.hyps(1)) auto
  then show ?case
    using b by (simp add: le_value_from.simps [of _ _ n b] r le_step [simplified])
qed

lemma le_value_from_total:
  "j + val_len \<le> length sb \<Longrightarrow> le_value_from sb j val_len b val \<noteq> None"
proof (induction sb j val_len b val rule: le_value_from.induct)
  case (1 sb j val_len b val)
  show ?case
  proof (cases "b < val_len")
    case True
    then have r: "rd sb (j + b) = Some (sb ! (j + b))" using "1.prems" by (simp add: span_simps)
    from "1.IH" [OF True r "1.prems"] show ?thesis
      using True by (simp add: le_value_from.simps [of sb j val_len b val] r)
  next
    case False
    then show ?thesis by (simp add: le_value_from.simps [of sb j val_len b val])
  qed
qed

subsection \<open>The TLV loop\<close>

text \<open>The loop never reads outside the sensor bytes, whatever they are.\<close>

lemma parse_tlv_from_total: "parse_tlv_from sb j d \<noteq> None"
proof (induction "length sb - j" arbitrary: j d rule: less_induct)
  case less
  have next_total: "\<exists>d'. parse_tlv_from sb j' e = Some d'" if "j < length sb" "j < j'" for j' e
    using less [of j' e] that by fastforce
  show ?case
  proof (cases "j < length sb")
    case True
    then show ?thesis
      by (subst parse_tlv_from.simps)
        (auto simp: Let_def rd_def next_total le_value_from_total not_less split: bind_splits)
  next
    case False
    then show ?thesis by (subst parse_tlv_from.simps) simp
  qed
qed

text \<open>
  The fields as the EnOcean sensor protocol defines them, and their encoding. A value field has
  1, 2 or 4 bytes (size bits 0, 1, 2); a field of variable length (size bits 3, or type 0x3C) has
  a length byte; an embedded commissioning block has 22 bytes.
\<close>

datatype tlv_field =
    TlvValue u8 nat u32
  | TlvVariable u8 u8 "u8 list"
  | TlvCommissioning u8 "u8 list"

definition tlv_header :: "u8 \<Rightarrow> u8 \<Rightarrow> u8" where
  "tlv_header type_id size_bits = type_id OR push_bit 6 size_bits"

fun tlv_field_ok :: "tlv_field \<Rightarrow> bool" where
  "tlv_field_ok (TlvValue ty sz v) \<longleftrightarrow>
     ty < 64 \<and> sz < 3 \<and> ty \<noteq> k_tlv_type_optional \<and> ty \<noteq> k_tlv_type_commissioning"
| "tlv_field_ok (TlvVariable ty sz bs) \<longleftrightarrow>
     ty < 64 \<and> sz < 4 \<and> length bs < 256 \<and> ty \<noteq> k_tlv_type_commissioning \<and>
     (sz = k_tlv_size_var \<or> ty = k_tlv_type_optional)"
| "tlv_field_ok (TlvCommissioning sz bs) \<longleftrightarrow> sz < 4 \<and> length bs = k_tlv_commissioning_block"

fun encode_tlv :: "tlv_field \<Rightarrow> u8 list" where
  "encode_tlv (TlvValue ty sz v) = tlv_header ty (of_nat sz) # le_bytes (2 ^ sz) v"
| "encode_tlv (TlvVariable ty sz bs) = tlv_header ty sz # of_nat (length bs) # bs"
| "encode_tlv (TlvCommissioning sz bs) = tlv_header k_tlv_type_commissioning sz # bs"

text \<open>What a field means for the report: a value field sets its measurement.\<close>

fun apply_tlv_field :: "tlv_field \<Rightarrow> SensorData \<Rightarrow> SensorData" where
  "apply_tlv_field (TlvValue ty sz v) d = apply_tlv ty (2 ^ sz) (take_bit (8 * 2 ^ sz) v) d"
| "apply_tlv_field (TlvVariable ty sz bs) d = d"
| "apply_tlv_field (TlvCommissioning sz bs) d = d"

lemma word8_less_64: "(x :: u8) < 64 \<longleftrightarrow> take_bit 6 x = x"
  using mask_eq_iff [of x 6] by (simp add: word_less_def flip: take_bit_eq_mask)

lemma word8_less_4: "(x :: u8) < 4 \<longleftrightarrow> take_bit 2 x = x"
  using mask_eq_iff [of x 2] by (simp add: word_less_def flip: take_bit_eq_mask)

lemma and_tlv_mask: "(x :: u8) AND k_tlv_type_mask = take_bit 6 x"
  by (simp add: take_bit_eq_mask mask_eq_exp_minus_1 k_tlv_type_mask_def)

lemma tlv_header_type:
  "ty < 64 \<Longrightarrow> tlv_header ty sz AND k_tlv_type_mask = ty"
  unfolding word8_less_64
  by (metis (no_types, lifting) tlv_header_def and_tlv_mask take_bit_or take_bit_push_bit
      diff_self_eq_0 take_bit_0 push_bit_of_0 or.right_neutral)

lemma tlv_header_size:
  assumes "ty < 64" and "sz < 4"
  shows "drop_bit k_tlv_size_shift (tlv_header ty sz) = sz"
proof (rule bit_word_eqI)
  fix n :: nat
  assume n: "n < LENGTH(8)"
  have t: "bit ty m \<Longrightarrow> m < 6" for m
    using assms(1) unfolding word8_less_64 by (metis bit_take_bit_iff)
  have s: "bit sz m \<Longrightarrow> m < 2" for m
    using assms(2) unfolding word8_less_4 by (metis bit_take_bit_iff)
  show "bit (drop_bit k_tlv_size_shift (tlv_header ty sz)) n = bit sz n"
    using n by (auto simp: tlv_header_def bit_simps k_tlv_size_shift_def dest: t s)
qed

lemma length_encode_tlv_pos: "encode_tlv f \<noteq> []"
  by (cases f) simp_all


lemma unat_of_nat_u8: "n < 256 \<Longrightarrow> unat (of_nat n :: u8) = n"
  by (simp add: unat_of_nat)

lemma of_nat_less_3:
  assumes "k < 3"
  shows "(of_nat k :: u8) < 4 \<and> (of_nat k :: u8) \<noteq> k_tlv_size_var \<and> unat (of_nat k :: u8) = k"
proof -
  consider "k = 0" | "k = 1" | "k = 2" using assms by linarith
  then show ?thesis by cases (simp_all add: k_tlv_size_var_def)
qed

text \<open>One iteration of the loop on an encoded field, whatever stands before and behind it.\<close>

lemma parse_tlv_value:
  assumes "tlv_field_ok (TlvValue ty sz v)"
  shows "parse_tlv_from (pre @ encode_tlv (TlvValue ty sz v) @ rest) (length pre) d =
     parse_tlv_from (pre @ encode_tlv (TlvValue ty sz v) @ rest)
       (length pre + length (encode_tlv (TlvValue ty sz v))) (apply_tlv_field (TlvValue ty sz v) d)"
proof -
  let ?h = "tlv_header ty (of_nat sz)"
  have s: "(of_nat sz :: u8) < 4" "(of_nat sz :: u8) \<noteq> k_tlv_size_var" "unat (of_nat sz :: u8) = sz"
    using assms of_nat_less_3 by auto
  have h: "?h AND k_tlv_type_mask = ty" "drop_bit k_tlv_size_shift ?h = of_nat sz"
    using assms s(1) by (simp_all add: tlv_header_type tlv_header_size)
  have v: "le_value_from (pre @ ?h # le_bytes (2 ^ sz) v @ rest) (Suc (length pre)) (2 ^ sz) 0 0 = Some (take_bit (8 * 2 ^ sz) v)"
    using le_value_from_bytes [of 0 "2 ^ sz" "pre @ [?h]" v rest] by simp
  show ?thesis
    using assms
    by (subst parse_tlv_from.simps) (simp add: Let_def h s v push_bit_eq_mult)
qed

lemma parse_tlv_variable:
  assumes "tlv_field_ok (TlvVariable ty sz bs)"
  shows "parse_tlv_from (pre @ encode_tlv (TlvVariable ty sz bs) @ rest) (length pre) d =
     parse_tlv_from (pre @ encode_tlv (TlvVariable ty sz bs) @ rest)
       (length pre + length (encode_tlv (TlvVariable ty sz bs))) d"
proof -
  have h: "tlv_header ty sz AND k_tlv_type_mask = ty" "drop_bit k_tlv_size_shift (tlv_header ty sz) = sz"
    using assms by (simp_all add: tlv_header_type tlv_header_size)
  have l: "rd (pre @ tlv_header ty sz # of_nat (length bs) # bs @ rest) (Suc (length pre))
      = Some (of_nat (length bs))"
    using rd_append_here [of "pre @ [tlv_header ty sz]" "of_nat (length bs)" "bs @ rest"] by simp
  have u: "unat (of_nat (length bs) :: u8) = length bs"
    using assms by (simp add: unat_of_nat_u8)
  show ?thesis
    using assms by (subst parse_tlv_from.simps) (simp add: Let_def h l u)
qed

lemma parse_tlv_commissioning:
  assumes "tlv_field_ok (TlvCommissioning sz bs)"
  shows "parse_tlv_from (pre @ encode_tlv (TlvCommissioning sz bs) @ rest) (length pre) d =
     parse_tlv_from (pre @ encode_tlv (TlvCommissioning sz bs) @ rest)
       (length pre + length (encode_tlv (TlvCommissioning sz bs))) d"
proof -
  have h: "tlv_header k_tlv_type_commissioning sz AND k_tlv_type_mask = k_tlv_type_commissioning"
    by (rule tlv_header_type) (simp add: k_tlv_type_commissioning_def)
  show ?thesis
    using assms by (subst parse_tlv_from.simps) (simp add: Let_def h)
qed

lemma parse_tlv_field:
  assumes "tlv_field_ok f"
  shows "parse_tlv_from (pre @ encode_tlv f @ rest) (length pre) d =
     parse_tlv_from (pre @ encode_tlv f @ rest) (length pre + length (encode_tlv f))
       (apply_tlv_field f d)"
proof (cases f)
  case (TlvValue ty sz v)
  with assms show ?thesis using parse_tlv_value by simp
next
  case (TlvVariable ty sz bs)
  with assms show ?thesis using parse_tlv_variable [of ty sz bs] by simp
next
  case (TlvCommissioning sz bs)
  with assms show ?thesis using parse_tlv_commissioning [of sz bs] by simp
qed

lemma parse_tlv_fields:
  assumes "\<forall>f \<in> set fs. tlv_field_ok f"
  shows "parse_tlv_from (pre @ concat (map encode_tlv fs) @ rest) (length pre) d =
     parse_tlv_from (pre @ concat (map encode_tlv fs) @ rest)
       (length pre + length (concat (map encode_tlv fs))) (fold apply_tlv_field fs d)"
  using assms
proof (induction fs arbitrary: pre d)
  case Nil
  show ?case by simp
next
  case (Cons f fs)
  show ?case
    using parse_tlv_field [of f pre "concat (map encode_tlv fs) @ rest" d] Cons.prems
      Cons.IH [of "pre @ encode_tlv f" "apply_tlv_field f d"]
    by (simp add: add.assoc)
qed

text \<open>A field that is cut off ends the loop, with the report of the fields before it.\<close>

lemma parse_tlv_end: "length sb \<le> j \<Longrightarrow> parse_tlv_from sb j d = Some d"
  by (simp add: parse_tlv_from.simps)

lemma parse_tlv_truncated:
  assumes ok: "tlv_field_ok f" and k: "k < length (encode_tlv f)"
  shows "parse_tlv_from (pre @ take k (encode_tlv f)) (length pre) d = Some d"
proof (cases k)
  case 0
  then show ?thesis by (simp add: parse_tlv_end)
next
  case (Suc k')
  show ?thesis
  proof (cases f)
    case (TlvValue ty sz v)
    have s: "(of_nat sz :: u8) < 4" "(of_nat sz :: u8) \<noteq> k_tlv_size_var"
      "unat (of_nat sz :: u8) = sz"
      using ok TlvValue of_nat_less_3 by auto
    then show ?thesis
      using ok k by (subst parse_tlv_from.simps)
        (simp add: TlvValue Suc Let_def tlv_header_type tlv_header_size push_bit_eq_mult)
  next
    case (TlvVariable ty sz bs)
    have u: "unat (of_nat (length bs) :: u8) = length bs"
      using ok TlvVariable by (simp add: unat_of_nat_u8)
    have l: "rd (pre @ tlv_header ty sz # of_nat (length bs) # xs) (Suc (length pre))
        = Some (of_nat (length bs))" for xs
      using rd_append_here [of "pre @ [tlv_header ty sz]" "of_nat (length bs)" xs] by simp
    show ?thesis
      using ok k by (subst parse_tlv_from.simps, cases k')
        (simp_all add: TlvVariable Suc Let_def tlv_header_type tlv_header_size u l)
  next
    case (TlvCommissioning sz bs)
    have h: "tlv_header k_tlv_type_commissioning sz AND k_tlv_type_mask = k_tlv_type_commissioning"
      by (rule tlv_header_type) (simp add: k_tlv_type_commissioning_def)
    show ?thesis
      using ok k by (subst parse_tlv_from.simps)
        (simp add: TlvCommissioning Suc Let_def h parse_tlv_end)
  qed
qed

subsection \<open>The walk over AD structures\<close>

text \<open>
  An AD structure is its type and its data; the advertisement holds the length of both, the type
  and the data. The walk only looks at manufacturer structures that can hold the company
  identifier, so one shorter than that is not well-formed for it.
\<close>

type_synonym ad_structure = "u8 \<times> u8 list"

fun encode_ad :: "ad_structure \<Rightarrow> u8 list" where
  "encode_ad (ty, body) = of_nat (length body + 1) # ty # body"

fun ad_ok :: "ad_structure \<Rightarrow> bool" where
  "ad_ok (ty, body) \<longleftrightarrow> length body < 255 \<and> (ty = k_ad_type_manufacturer \<longrightarrow> 2 \<le> length body)"

fun is_enocean_ad :: "ad_structure \<Rightarrow> bool" where
  "is_enocean_ad (ty, body) \<longleftrightarrow>
     ty = k_ad_type_manufacturer \<and> take 2 body = [0xDA, 0x03]"

lemma company_id: "(ucast (lo :: u8) :: u16) OR push_bit 8 (ucast (hi :: u8)) = 0x03DA
    \<longleftrightarrow> lo = 0xDA \<and> hi = 0x03"
proof
  assume a: "(ucast lo :: u16) OR push_bit 8 (ucast hi) = 0x03DA"
  have "lo = ucast ((ucast lo :: u16) OR push_bit 8 (ucast hi))"
    by (rule bit_word_eqI) (auto simp: bit_simps)
  moreover have "hi = ucast (drop_bit 8 ((ucast lo :: u16) OR push_bit 8 (ucast hi)))"
    by (rule bit_word_eqI) (auto simp: bit_simps dest: bit_imp_le_length)
  ultimately show "lo = 0xDA \<and> hi = 0x03" unfolding a by simp
qed simp

lemma unat_ad_length: "ad_ok (ty, body) \<Longrightarrow> unat (of_nat (length body + 1) :: u8) = length body + 1"
  by (rule unat_of_nat_u8) simp

lemma of_nat_u8_nonzero: "0 < n \<Longrightarrow> n < 256 \<Longrightarrow> (of_nat n :: u8) \<noteq> 0"
  by (metis less_numeral_extra(3) unat_of_nat_u8 unat_0)

lemma extract_end: "length adv \<le> i \<Longrightarrow> extract_from adv i = Some []"
  by (simp add: extract_from.simps)

lemma extract_terminator: "extract_from (pre @ 0 # rest) (length pre) = Some []"
  by (simp add: extract_from.simps)

lemma extract_step_other:
  assumes "rd adv i = Some len" and "len \<noteq> 0" and "i + unat len \<le> length adv"
    and "rd adv (i + 1) = Some ty" and "ty \<noteq> k_ad_type_manufacturer"
  shows "extract_from adv i = extract_from adv (i + 1 + unat len)"
proof -
  have "i < length adv" using assms(1) by (simp add: rd_eq_Some_iff)
  with assms show ?thesis by (subst extract_from.simps) simp
qed

lemma extract_step_manufacturer:
  assumes "rd adv i = Some len" and "len \<noteq> 0" and "i + unat len \<le> length adv"
    and "rd adv (i + 1) = Some k_ad_type_manufacturer"
    and "rd adv (i + 2) = Some lo" and "rd adv (i + 3) = Some hi"
  shows "extract_from adv i =
     (if lo = 0xDA \<and> hi = 0x03
      then if unat len < 3 then Some [] else subspan adv (i + 4) (unat len - 3)
      else extract_from adv (i + 1 + unat len))"
proof -
  have "i < length adv" and "\<not> length adv - (i + 1) < 3"
    using assms(6) by (auto simp: rd_eq_Some_iff)
  with assms show ?thesis
    by (subst extract_from.simps) (simp add: company_id k_enocean_manufacturer_id_def)
qed

lemma extract_ad:
  assumes ok: "ad_ok (ty, body)"
  shows "extract_from (pre @ encode_ad (ty, body) @ rest) (length pre) =
     (if is_enocean_ad (ty, body) then Some (drop 2 body)
      else extract_from (pre @ encode_ad (ty, body) @ rest)
             (length pre + length (encode_ad (ty, body))))"
proof -
  define L :: u8 where "L = of_nat (length body + 1)"
  define a where "a = pre @ L # ty # body @ rest"
  have u: "unat L = length body + 1" unfolding L_def using ok by (rule unat_ad_length)
  have nz: "L \<noteq> 0" unfolding L_def using ok by (intro of_nat_u8_nonzero) auto
  have at: "rd a (length pre + k) = rd (L # ty # body @ rest) k" for k
    unfolding a_def by (rule rd_append2)
  have r0: "rd a (length pre) = Some L" and r1: "rd a (length pre + 1) = Some ty"
    using at [of 0] at [of 1] by (simp_all add: rd_def)
  have bound: "length pre + unat L \<le> length a" by (simp add: a_def u)
  have "extract_from a (length pre) =
     (if is_enocean_ad (ty, body) then Some (drop 2 body)
      else extract_from a (length pre + 1 + unat L))"
  proof (cases "ty = k_ad_type_manufacturer")
    case False
    then show ?thesis using extract_step_other [OF r0 nz bound r1] by simp
  next
    case True
    then obtain lo hi more where body: "body = lo # hi # more"
      using ok by (cases body; cases "tl body") auto
    have r2: "rd a (length pre + 2) = Some lo" and r3: "rd a (length pre + 3) = Some hi"
      using at [of 2] at [of 3] by (simp_all add: rd_def body eval_nat_numeral)
    have "subspan a (length pre + 4) (unat L - 3) = Some more"
      using subspan_append [of "pre @ [L, ty, lo, hi]" more rest]
      by (simp add: body a_def u numeral_eq_Suc)
    then show ?thesis
      using extract_step_manufacturer [OF r0 nz bound r1 [unfolded True] r2 r3] True
      by (simp add: body u eval_nat_numeral)
  qed
  moreover have "length pre + 1 + unat L = length pre + length (encode_ad (ty, body))"
    by (simp add: u)
  moreover have "a = pre @ encode_ad (ty, body) @ rest" by (simp add: a_def L_def)
  ultimately show ?thesis by simp
qed

lemma extract_ads:
  assumes "\<forall>a \<in> set ads. ad_ok a"
  shows "extract_from (pre @ concat (map encode_ad ads) @ rest) (length pre) =
     (case find is_enocean_ad ads of
        Some (ty, body) \<Rightarrow> Some (drop 2 body)
      | None \<Rightarrow> extract_from (pre @ concat (map encode_ad ads) @ rest)
                 (length pre + length (concat (map encode_ad ads))))"
  using assms
proof (induction ads arbitrary: pre)
  case Nil
  show ?case by simp
next
  case (Cons a ads)
  obtain ty body where a: "a = (ty, body)" by (cases a)
  let ?tail = "concat (map encode_ad ads) @ rest"
  have "extract_from (pre @ encode_ad a @ ?tail) (length pre) =
     (if is_enocean_ad a then Some (drop 2 body)
      else extract_from (pre @ encode_ad a @ ?tail) (length pre + length (encode_ad a)))"
    unfolding a using Cons.prems by (intro extract_ad) (simp add: a)
  moreover have "\<forall>x \<in> set ads. ad_ok x" using Cons.prems by simp
  note Cons.IH [OF this, of "pre @ encode_ad a"]
  ultimately show ?case
    by (cases "is_enocean_ad a") (simp_all add: a add.assoc split: option.split
        del: encode_ad.simps is_enocean_ad.simps)
qed

text \<open>
  Where the walk can leave the span: only at a structure that ends one byte behind the end of
  the advertisement, because the bound check does not count the length byte.
\<close>

lemma extract_from_None:
  "extract_from adv i = None \<Longrightarrow>
     \<exists>j. i \<le> j \<and> j < length adv \<and> 0 < unat (adv ! j) \<and> j + unat (adv ! j) = length adv"
proof (induction "length adv - i" arbitrary: i rule: less_induct)
  case less
  have i: "i < length adv"
    using less.prems extract_end [of adv i] by (cases "length adv \<le> i") auto
  have r: "rd adv i = Some (adv ! i)" using i by (simp add: span_simps)
  have L: "adv ! i \<noteq> 0" "i + unat (adv ! i) \<le> length adv"
    using less.prems i by (subst (asm) extract_from.simps; simp add: r split: if_splits)+
  then have p: "0 < unat (adv ! i)" by (simp add: unat_gt_0)
  show ?case
  proof (cases "i + unat (adv ! i) = length adv")
    case True
    then show ?thesis using i p by (intro exI [of _ i]) simp
  next
    case False
    then have lt: "i + unat (adv ! i) < length adv" using L(2) by simp
    have "extract_from adv (i + 1 + unat (adv ! i)) = None"
    proof (rule ccontr)
      assume "extract_from adv (i + 1 + unat (adv ! i)) \<noteq> None"
      then have "extract_from adv i \<noteq> None"
        using L p lt by (subst extract_from.simps) (auto simp: rd_def subspan_def)
      then show False using less.prems by simp
    qed
    moreover have "length adv - (i + 1 + unat (adv ! i)) < length adv - i" using i by simp
    ultimately have "\<exists>j. i + 1 + unat (adv ! i) \<le> j \<and> j < length adv \<and> 0 < unat (adv ! j) \<and>
        j + unat (adv ! j) = length adv"
      by (intro less.hyps)
    then show ?thesis by (meson add_leD1)
  qed
qed

subsection \<open>Properties of the parsers\<close>

text \<open>
  TLV decoding inverts the encoding of the sensor protocol. Whatever well-formed fields a
  report holds, in whatever order and of whatever types (the unknown ones included), the loop
  returns exactly the measurements they carry; a last field that is cut off after any number of
  bytes is dropped and does not disturb the fields before it.
\<close>

theorem tlv_roundtrip:
  assumes "\<forall>f \<in> set fs. tlv_field_ok f" and "tlv_field_ok lastf" and "k < length (encode_tlv lastf)"
  shows "parse_tlv_from (concat (map encode_tlv fs) @ take k (encode_tlv lastf)) 0 d =
     Some (fold apply_tlv_field fs d)"
  using parse_tlv_fields [OF assms(1), of "[]" "take k (encode_tlv lastf)" d]
    parse_tlv_truncated [OF assms(2,3), of "concat (map encode_tlv fs)" "fold apply_tlv_field fs d"]
  by simp

theorem tlv_roundtrip_witness:
  "parse_tlv_from [0x40, 0xD4, 0xFE, 0x06, 0x64, 0xC7, 2, 9, 9, 0x20, 0x02, 0x45, 0x10] 0
     empty_sensor_data =
     Some (empty_sensor_data\<lparr>temperature_cdeg := Some (-300), humidity := Some 50,
       occupancy := Some True\<rparr>)"
proof -
  let ?fs = "[TlvValue 0x00 1 0xFED4, TlvValue 0x06 0 0x64, TlvVariable 0x07 3 [9, 9],
    TlvValue 0x20 0 0x02]"
  have "\<forall>f \<in> set ?fs. tlv_field_ok f"
    by (simp add: byte_constants)
  moreover have "tlv_field_ok (TlvValue 0x05 1 0x10)" by (simp add: byte_constants)
  moreover have "2 < length (encode_tlv (TlvValue 0x05 1 0x10))" by simp
  ultimately have "parse_tlv_from (concat (map encode_tlv ?fs) @
      take 2 (encode_tlv (TlvValue 0x05 1 0x10))) 0 empty_sensor_data =
      Some (fold apply_tlv_field ?fs empty_sensor_data)"
    by (rule tlv_roundtrip)
  moreover have "concat (map encode_tlv ?fs) @ take 2 (encode_tlv (TlvValue 0x05 1 0x10)) =
      [0x40, 0xD4, 0xFE, 0x06, 0x64, 0xC7, 2, 9, 9, 0x20, 0x02, 0x45, 0x10]"
    by code_simp
  moreover have "fold apply_tlv_field ?fs empty_sensor_data = empty_sensor_data
      \<lparr>temperature_cdeg := Some (-300), humidity := Some 50, occupancy := Some True\<rparr>"
    by code_simp
  ultimately show ?thesis by simp
qed

text \<open>
  Memory safety of the TLV loop: on every byte string and from every position it ends, and it
  reads no byte outside the sensor bytes.
\<close>

theorem tlv_memory_safe: "\<exists>d'. parse_tlv_from sensor_bytes j d = Some d'"
  using parse_tlv_from_total by auto

text \<open>
  The walk over AD structures returns the payload of the first EnOcean manufacturer structure
  of a well-formed advertisement, wherever it stands, and the empty span when there is none; it
  stops at a zero length byte, and it reads no byte outside the advertisement.
\<close>

theorem extract_roundtrip:
  assumes "\<forall>a \<in> set ads. ad_ok a" and "rest = [] \<or> (\<exists>more. rest = 0 # more)"
  shows "extract_manufacturer_data (concat (map encode_ad ads) @ rest) =
     Some (case find is_enocean_ad ads of None \<Rightarrow> [] | Some (ty, body) \<Rightarrow> drop 2 body)"
proof -
  have "extract_from (concat (map encode_ad ads) @ rest) (length (concat (map encode_ad ads)))
      = Some []"
    using assms(2) extract_terminator by (auto simp: extract_end)
  then show ?thesis
    using extract_ads [OF assms(1), of "[]" rest]
    by (auto simp: extract_manufacturer_data_def split: option.split)
qed

theorem extract_roundtrip_witness:
  "extract_manufacturer_data [2, 0x01, 0x06, 4, 0xFF, 0x59, 0x00, 7, 6, 0xFF, 0xDA, 0x03, 1, 2, 3,
     0, 0xAA] = Some [1, 2, 3]"
  using extract_roundtrip [of "[(0x01, [0x06]), (0xFF, [0x59, 0x00, 7]), (0xFF, [0xDA, 0x03, 1, 2, 3])]"
      "[0, 0xAA]"]
  by (simp add: k_ad_type_manufacturer_def)

text \<open>
  C40: The bound check of the walk is off by one. Cut the last byte off an EnOcean structure with
  a payload, behind any well-formed structures of other kinds: the check passes, and the span of
  the payload that the code takes ends one byte behind the advertisement.
\<close>

theorem extract_over_read:
  assumes "\<forall>a \<in> set ads. ad_ok a \<and> \<not> is_enocean_ad a"
    and "payload \<noteq> []" and "length payload < 253"
  shows "extract_manufacturer_data
     (concat (map encode_ad ads) @ butlast (encode_ad (0xFF, 0xDA # 0x03 # payload))) = None"
proof -
  let ?pre = "concat (map encode_ad ads)"
  obtain ini x where p: "payload = ini @ [x]" using assms(2) by (cases payload rule: rev_cases) auto
  define L :: u8 where "L = of_nat (length payload + 3)"
  have u: "unat L = length payload + 3" unfolding L_def using assms(3) by (intro unat_of_nat_u8) simp
  define a where "a = ?pre @ butlast (encode_ad (0xFF, 0xDA # 0x03 # payload))"
  have a: "a = ?pre @ L # 0xFF # 0xDA # 0x03 # ini"
    by (simp add: a_def L_def p ac_simps)
  have at: "rd a (length ?pre + k) = rd (L # 0xFF # 0xDA # 0x03 # ini) k" for k
    unfolding a by (rule rd_append2)
  have r: "rd a (length ?pre) = Some L" "rd a (length ?pre + 1) = Some k_ad_type_manufacturer"
    "rd a (length ?pre + 2) = Some 0xDA" "rd a (length ?pre + 3) = Some 0x03"
    using at [of 0] at [of 1] at [of 2] at [of 3]
    by (simp_all add: rd_def k_ad_type_manufacturer_def)
  have "L \<noteq> 0" using u by auto
  moreover have "length ?pre + unat L \<le> length a" by (simp add: a u p)
  ultimately have "extract_from a (length ?pre) = subspan a (length ?pre + 4) (unat L - 3)"
    using extract_step_manufacturer [OF r(1) _ _ r(2,3,4)] u by simp
  also have "\<dots> = None" by (simp add: subspan_eq_None_iff a u p)
  finally have "extract_from a (length ?pre) = None" .
  moreover have "find is_enocean_ad ads = None" using assms(1) by (auto simp: find_None_iff)
  ultimately show ?thesis
    using extract_ads [of ads "[]" "butlast (encode_ad (0xFF, 0xDA # 0x03 # payload))"] assms(1)
    by (simp add: extract_manufacturer_data_def a_def)
qed

theorem extract_over_read_witness:
  "extract_manufacturer_data [2, 0x01, 0x06, 12, 0xFF, 0xDA, 0x03, 1, 0, 0, 0, 0x03, 9, 9, 9] = None"
  using extract_over_read [of "[(0x01, [0x06])]" "[1, 0, 0, 0, 0x03, 9, 9, 9, 9]"]
  by (simp add: k_ad_type_manufacturer_def)

text \<open>
  The off-by-one is the only defect of the walk: when it leaves the advertisement, there is a
  structure whose length byte claims exactly one byte more than the advertisement still holds.
\<close>

theorem extract_only_over_read:
  "extract_manufacturer_data adv = None \<Longrightarrow>
     \<exists>j < length adv. 0 < unat (adv ! j) \<and> j + unat (adv ! j) = length adv"
  unfolding extract_manufacturer_data_def using extract_from_None [of adv 0] by auto

theorem extract_only_over_read_witness:
  "\<exists>j < length [1 :: u8]. 0 < unat ([1 :: u8] ! j) \<and> j + unat ([1 :: u8] ! j) = length [1 :: u8]"
  by (rule extract_only_over_read) code_simp

text \<open>
  Every 13-byte nonce belongs to one device address and one sequence number: a device whose
  sequence number increases never lets the driver authenticate two packets under one nonce.
\<close>

theorem nonce_injective:
  assumes "length a = k_addr_len" and "length b = k_addr_len"
  shows "build_nonce a s \<noteq> None \<and> (build_nonce a s = build_nonce b t \<longleftrightarrow> a = b \<and> s = t)"
  using assms by (auto simp: build_nonce_eq seq_bytes_inject)

theorem nonce_injective_witness:
  "build_nonce [1, 2, 3, 4, 5, 6] 0x100 \<noteq> build_nonce [1, 2, 3, 4, 5, 6] 0x101"
  using nonce_injective [of "[1, 2, 3, 4, 5, 6]" "[1, 2, 3, 4, 5, 6]" "0x100" "0x101"]
  by (simp add: size_constants)

text \<open>
  The sequence number survives the way over the air: reading its little-endian bytes from the
  front of a payload gives it back, and the bytes the nonce takes from a sequence number are
  those of the payload it was read from.
\<close>

theorem seq_roundtrip:
  "read_seq (seq_bytes s @ rest) = Some s \<and> (read_seq p = Some t \<longrightarrow> take 4 p = seq_bytes t)"
  using read_seq_of_bytes read_seq_SomeD by blast

theorem seq_roundtrip_witness: "take 4 [0x78, 0x56, 0x34, 0x12, 0xFF] = seq_bytes 0x12345678"
proof -
  have "read_seq [0x78, 0x56, 0x34, 0x12, 0xFF] = Some 0x12345678" by code_simp
  then show ?thesis using seq_roundtrip [of 0 "[]" "[0x78, 0x56, 0x34, 0x12, 0xFF]"] by blast
qed

text \<open>
  The acceleration vector is decoded without wrap-around: each axis is its ten bits less 512,
  between -512 and 511, and the status is the two bits on top.
\<close>

theorem acceleration_decoded:
  "\<exists>x y z st. apply_tlv 0x0A 4 val d =
       d\<lparr>accel_status := Some st, accel_x_cg := Some x, accel_y_cg := Some y, accel_z_cg := Some z\<rparr>
     \<and> sint x = (uint val div 2 ^ 20) mod 1024 - 512
     \<and> sint y = (uint val div 2 ^ 10) mod 1024 - 512
     \<and> sint z = uint val mod 1024 - 512
     \<and> uint st = uint val div 2 ^ 30
     \<and> sint x \<in> {-512..511} \<and> sint y \<in> {-512..511} \<and> sint z \<in> {-512..511}"
proof -
  have axis: "sint (word_of_int (uint (w AND 0x3FF) - 512) :: i16) = uint w mod 1024 - 512" for w :: u32
  proof -
    have "uint (w AND 0x3FF) = uint w mod 1024"
      using take_bit_eq_mask [of 10 "uint w"]
      by (simp add: unsigned_and_eq mask_eq_exp_minus_1 take_bit_eq_mod)
    moreover have "sint (word_of_int k :: i16) = k" if "-512 \<le> k" "k \<le> 511" for k
      using that by (simp add: sint_sbintrunc' signed_take_bit_int_eq_self)
    moreover have "-512 \<le> uint w mod 1024 - 512" "uint w mod 1024 - 512 \<le> 511" by simp_all
    ultimately show ?thesis by presburger
  qed
  have dr: "uint (drop_bit n val) = uint val div 2 ^ n" for n
    using take_bit_int_eq_self [of "uint val" 32] uint_bounded [of val]
    by (simp add: unsigned_drop_bit_eq flip: drop_bit_eq_div)
  have st: "uint (ucast (drop_bit 30 val) :: u8) = uint val div 2 ^ 30"
  proof -
    have "uint val < 2 ^ 32" using uint_bounded [of val] by simp
    then have "uint val div 2 ^ 30 < 256" by simp
    then show ?thesis by (simp add: dr unsigned_ucast_eq take_bit_int_eq_self pos_imp_zdiv_nonneg_iff)
  qed
  show ?thesis
    by (intro exI conjI, simp add: apply_tlv_def) (simp_all add: axis [simplified] dr st)
qed

end
