(* ===== verification/Crypto_Interface.thy ===== *)
theory Crypto_Interface
  imports Enocean_Types
begin

text \<open>
  The crypto interface of the driver (src/platform/common/icrypto/ICrypto.hpp). A backend is the
  function \<open>aes_ccm_decrypt_impl\<close> of the derived class: key, nonce, associated data, ciphertext,
  tag and the output buffer, returning the verdict, the output buffer as the call leaves it and
  the lines the backend logs.
  The backends of the repository are in Crypto_Posix and Crypto_Zephyr.
\<close>

type_synonym crypto_impl =
  "u8 list \<Rightarrow> u8 list \<Rightarrow> u8 list \<Rightarrow> u8 list \<Rightarrow> u8 list \<Rightarrow> u8 list \<Rightarrow> bool \<times> u8 list \<times> log_call list"

definition aes_ccm_decrypt :: "crypto_impl \<Rightarrow> crypto_impl" where
  "aes_ccm_decrypt aes_ccm_decrypt_impl key nonce aad ciphertext tag plaintext =
     (if length key \<noteq> k_key_len then (False, plaintext, [])
      else if length nonce \<noteq> k_nonce_len then (False, plaintext, [])
      else aes_ccm_decrypt_impl key nonce aad ciphertext tag plaintext)"

text \<open>No backend sees a key or a nonce of another length, and then nothing is written or logged.\<close>

lemma aes_ccm_decrypt_guard:
  "length key \<noteq> k_key_len \<or> length nonce \<noteq> k_nonce_len \<Longrightarrow>
     aes_ccm_decrypt impl key nonce aad ct tag out = (False, out, [])"
  by (auto simp: aes_ccm_decrypt_def)

lemma aes_ccm_decrypt_dispatch:
  "length key = k_key_len \<Longrightarrow> length nonce = k_nonce_len \<Longrightarrow>
     aes_ccm_decrypt impl key nonce aad ct tag out = impl key nonce aad ct tag out"
  by (simp add: aes_ccm_decrypt_def)

subsection \<open>The contract of a backend\<close>

text \<open>
  What the driver relies on in a backend: a call that only verifies a tag, without ciphertext
  and with an empty output buffer, has no result but its verdict and its log.
\<close>

locale aead_backend =
  fixes impl :: crypto_impl
  assumes auth_only: "fst (snd (impl key nonce aad [] tag [])) = []"
begin

lemma verdict_only:
  "fst (snd (aes_ccm_decrypt impl key nonce aad [] tag [])) = []"
  using auth_only [of key nonce aad tag] by (simp add: aes_ccm_decrypt_def)

end

end
