(* ===== verification/Enocean_Driver.thy ===== *)
theory Enocean_Driver
  imports Enocean_Parse Crypto_Interface
begin

text \<open>
  The driver itself (class \<open>EnoceanDriver\<close>, src/enocean/EnoceanDriver.hpp and .ipp): its members
  as a record, and one definition per member function, in the option monad of checked access
  (\<open>None\<close> is an access outside a span or array). A function that changes the driver or a device
  returns it changed, with the log calls and callbacks it makes, in order. A pointer into the
  device table is the index of the slot.
\<close>

subsection \<open>State\<close>

record EnoceanDriver =
  drv_callbacks :: EnoceanCallbacks
  drv_initialised :: bool
  drv_commissioning :: bool
  drv_devices :: "EnoceanDevice list"

definition new_driver :: "EnoceanCallbacks \<Rightarrow> EnoceanDriver" where
  "new_driver callbacks =
     \<lparr>drv_callbacks = callbacks, drv_initialised = False, drv_commissioning = False,
      drv_devices = replicate k_max_devices default_device\<rparr>"

definition driver_init :: "EnoceanDriver \<Rightarrow> EnoceanDriver \<times> driver_event list \<times>
    (unit, EnoceanError) error_handler" where
  "driver_init drv =
     (drv\<lparr>drv_devices := map (\<lambda>dev. default_device) (drv_devices drv), drv_commissioning := False,
          drv_initialised := True\<rparr>,
      [Logged (LOGGER_NOTICE ''EnoceanDriver initialised (max %zu devices)''
         [ArgInt (int k_max_devices)])],
      fst (of_value ()))"

definition enable_commissioning :: "EnoceanDriver \<Rightarrow> EnoceanDriver \<times> driver_event list" where
  "enable_commissioning drv =
     (drv\<lparr>drv_commissioning := True\<rparr>,
      [Logged (LOGGER_NOTICE ''EnOcean commissioning enabled'' [])])"

definition disable_commissioning :: "EnoceanDriver \<Rightarrow> EnoceanDriver \<times> driver_event list" where
  "disable_commissioning drv =
     (drv\<lparr>drv_commissioning := False\<rparr>,
      [Logged (LOGGER_NOTICE ''EnOcean commissioning disabled'' [])])"

definition commissioning_enabled :: "EnoceanDriver \<Rightarrow> bool" where
  "commissioning_enabled drv = drv_commissioning drv"

definition device_count :: "EnoceanDriver \<Rightarrow> nat" where
  "device_count drv = fold (\<lambda>dev count. if active dev then count + 1 else count) (drv_devices drv) 0"

subsection \<open>The device table\<close>

text \<open>
  \<open>std::equal\<close> over the range of \<open>addr\<close> reads as many bytes of the stored address. The one caller
  has checked that \<open>addr\<close> has six bytes, the size of the stored array.
\<close>

definition find_device :: "EnoceanDevice list \<Rightarrow> u8 list \<Rightarrow> nat option" where
  "find_device devices addr =
     find_index (\<lambda>dev. active dev \<and> take (length addr) (ba_addr (ble_addr dev)) = addr) devices"

definition allocate_device :: "EnoceanDevice list \<Rightarrow> nat option" where
  "allocate_device devices = find_index (\<lambda>dev. \<not> active dev) devices"

subsection \<open>Commissioning\<close>

definition addr_args :: "u8 list \<Rightarrow> log_arg list option" where
  "addr_args addr =
     do {
       a5 \<leftarrow> rd addr 5; a4 \<leftarrow> rd addr 4; a3 \<leftarrow> rd addr 3;
       a2 \<leftarrow> rd addr 2; a1 \<leftarrow> rd addr 1; a0 \<leftarrow> rd addr 0;
       Some (map (\<lambda>a. ArgInt (uint a)) [a5, a4, a3, a2, a1, a0])
     }"

text \<open>The format of the warning holds an em dash, which is three bytes in the source's encoding.\<close>

definition recommission_format :: string where
  "recommission_format =
     ''EnoceanDriver: re-commissioning with non-increasing seq (stored=%lu new=%lu) ''
       @ [CHR 0xE2, CHR 0x80, CHR 0x94] @ '' device may have reset''"

definition handle_commissioning ::
    "EnoceanDriver \<Rightarrow> u8 list \<Rightarrow> u8 \<Rightarrow> i8 \<Rightarrow> u8 list \<Rightarrow>
      (bool \<times> EnoceanDriver \<times> driver_event list) option" where
  "handle_commissioning drv addr addr_type rssi mfr_payload =
     (if length mfr_payload < k_commissioning_payload_min then Some (False, drv, [])
      else do {
        seq \<leftarrow> read_seq mfr_payload;
        let dev_type' = detect_device_type addr;
        marker \<leftarrow> rd mfr_payload k_key_offset;
        let stm_format = (length mfr_payload = k_stm_commissioning_payload_len \<and>
                          marker = k_stm_commissioning_marker);
        let key_offset = (if stm_format then k_key_offset + 1 else k_key_offset);
        if dev_type' = Sensor \<and> \<not> stm_format then Some (False, drv, [])
        else if key_offset + k_key_len > length mfr_payload then Some (False, drv, [])
        else case find_device (drv_devices drv) addr of
          Some i \<Rightarrow> do {
            device \<leftarrow> rd (drv_devices drv) i;
            key \<leftarrow> subspan mfr_payload key_offset k_key_len;
            let log = (if \<not> check_sequence (seq_num device) seq then
                         [Logged (LOGGER_WARNING recommission_format
                            [ArgInt (uint (seq_num device)), ArgInt (uint seq)])]
                       else []);
            let device = device\<lparr>seq_num := seq, dev_rssi := rssi,
                                dev_key := copy_front key (dev_key device)\<rparr>;
            Some (True, drv\<lparr>drv_devices := (drv_devices drv)[i := device]\<rparr>, log)
          }
        | None \<Rightarrow>
            (case allocate_device (drv_devices drv) of
               None \<Rightarrow> Some (False, drv,
                 [Logged (LOGGER_ERROR ''EnoceanDriver: device table full, cannot commission'' [])])
             | Some i \<Rightarrow> do {
                 device \<leftarrow> rd (drv_devices drv) i;
                 key \<leftarrow> subspan mfr_payload key_offset k_key_len;
                 args \<leftarrow> addr_args addr;
                 let device = device\<lparr>active := True, seq_num := seq, dev_rssi := rssi,
                   dev_type := dev_type',
                   ble_addr := \<lparr>ba_addr = copy_front addr (ba_addr (ble_addr device)),
                                ba_type = addr_type\<rparr>,
                   dev_key := copy_front key (dev_key device)\<rparr>;
                 Some (True, drv\<lparr>drv_devices := (drv_devices drv)[i := device]\<rparr>,
                   Logged (LOGGER_NOTICE (''EnoceanDriver: device commissioned '' @
                     ''%02hhX:%02hhX:%02hhX:%02hhX:%02hhX:%02hhX'') args)
                   # call_if (commissioned_cb (drv_callbacks drv)) (\<lambda>f. CallCommissioned f device))
               })
      })"

subsection \<open>Switch telegrams\<close>

definition handle_switch ::
    "crypto_impl \<Rightarrow> EnoceanCallbacks \<Rightarrow> EnoceanDevice \<Rightarrow> u8 list \<Rightarrow>
      (bool \<times> EnoceanDevice \<times> driver_event list) option" where
  "handle_switch crypto cbs device mfr_payload =
     (if length mfr_payload < k_data_payload_min then Some (False, device, [])
      else do {
        seq \<leftarrow> read_seq mfr_payload;
        if \<not> check_sequence (seq_num device) seq then
          Some (False, device, [Logged (LOGGER_WARNING ''EnoceanDriver: replay detected (switch)'' [])])
        else if length mfr_payload > k_switch_payload_max then Some (False, device, [])
        else do {
          state_byte_pre \<leftarrow> rd mfr_payload k_switch_state_offset;
          if state_byte_pre AND k_status_reserved_mask \<noteq> 0 then Some (False, device, [])
          else do {
            let tag_offset = length mfr_payload - k_tag_len;
            tag_span \<leftarrow> subspan mfr_payload tag_offset k_tag_len;
            payload_span \<leftarrow> subspan mfr_payload 0 tag_offset;
            nonce \<leftarrow> build_nonce (ba_addr (ble_addr device)) seq;
            let tag_arr = copy_front tag_span (replicate k_tag_len 0);
            let decrypted = aes_ccm_decrypt crypto (dev_key device) nonce payload_span [] tag_arr [];
            let auth_ok = fst decrypted;
            let crypto_log = map Logged (snd (snd decrypted));
            if \<not> auth_ok then
              Some (False, device,
                crypto_log @ [Logged (LOGGER_WARNING ''EnoceanDriver: switch auth failed'' [])])
            else do {
              let device = device\<lparr>seq_num := seq\<rparr>;
              state_byte \<leftarrow> rd mfr_payload k_switch_state_offset;
              let pressed = (state_byte AND 0x01 \<noteq> 0);
              let buttons = drop_bit 1 state_byte AND 0x0F;
              let action = (if pressed then Press else Release);
              let opt_offset = k_switch_state_offset + 1;
              let opt_len = (if tag_offset > opt_offset then tag_offset - opt_offset else 0);
              if tag_offset > opt_offset \<and> opt_len \<noteq> 1 \<and> opt_len \<noteq> 2 \<and> opt_len \<noteq> 4 then
                Some (False, device, crypto_log)
              else do {
                opt \<leftarrow> (if tag_offset > opt_offset
                       then map_option Some (subspan mfr_payload opt_offset opt_len)
                       else Some None);
                Some (True, device, crypto_log @ call_if (button_cb cbs)
                  (\<lambda>f. CallButton f device action buttons opt))
              }
            }
          }
        }
      })"

subsection \<open>Sensor telegrams\<close>

definition handle_sensor ::
    "crypto_impl \<Rightarrow> EnoceanCallbacks \<Rightarrow> EnoceanDevice \<Rightarrow> u8 list \<Rightarrow>
      (bool \<times> EnoceanDevice \<times> driver_event list) option" where
  "handle_sensor crypto cbs device mfr_payload =
     (if length mfr_payload < k_data_payload_min then Some (False, device, [])
      else do {
        seq \<leftarrow> read_seq mfr_payload;
        args \<leftarrow> addr_args (ba_addr (ble_addr device));
        let pkt = Logged (LOGGER_NOTICE
          (''EnoceanDriver: sensor pkt %02hhX:%02hhX:%02hhX:%02hhX:%02hhX:%02hhX '' @
           ''payload[%zu] seq=%lu'')
          (args @ [ArgInt (int (length mfr_payload)), ArgInt (uint seq)]));
        if \<not> check_sequence (seq_num device) seq then
          Some (False, device,
            [pkt, Logged (LOGGER_WARNING ''EnoceanDriver: replay detected (sensor)'' [])])
        else do {
          let tag_offset = length mfr_payload - k_tag_len;
          tag_span \<leftarrow> subspan mfr_payload tag_offset k_tag_len;
          payload_span \<leftarrow> subspan mfr_payload 0 tag_offset;
          nonce \<leftarrow> build_nonce (ba_addr (ble_addr device)) seq;
          let tag_arr = copy_front tag_span (replicate k_tag_len 0);
          let decrypted = aes_ccm_decrypt crypto (dev_key device) nonce payload_span [] tag_arr [];
          let auth_ok = fst decrypted;
          let crypto_log = map Logged (snd (snd decrypted));
          if \<not> auth_ok then
            Some (False, device,
              pkt # crypto_log @ [Logged (LOGGER_WARNING ''EnoceanDriver: sensor auth failed'' [])])
          else do {
            let device = device\<lparr>seq_num := seq\<rparr>;
            sensor_data \<leftarrow>
              (if length mfr_payload > k_sensor_data_offset then
                 do {
                   sensor_bytes \<leftarrow> subspan mfr_payload k_sensor_data_offset
                                    (tag_offset - k_sensor_data_offset);
                   parse_tlv_from sensor_bytes 0 empty_sensor_data
                 }
               else Some empty_sensor_data);
            Some (True, device,
              pkt # crypto_log @ call_if (sensor_cb cbs) (\<lambda>f. CallSensor f device sensor_data None))
          }
        }
      })"

subsection \<open>Advertisements\<close>

text \<open>A call of a handler on the device in slot \<open>i\<close>, which it changes in place.\<close>

type_synonym telegram_handler =
  "crypto_impl \<Rightarrow> EnoceanCallbacks \<Rightarrow> EnoceanDevice \<Rightarrow> u8 list \<Rightarrow>
    (bool \<times> EnoceanDevice \<times> driver_event list) option"

definition call_handler ::
    "telegram_handler \<Rightarrow> crypto_impl \<Rightarrow> EnoceanDriver \<Rightarrow> nat \<Rightarrow> u8 list \<Rightarrow>
      (EnoceanDriver \<times> driver_event list) option" where
  "call_handler handler crypto drv i mfr_payload =
     do {
       device \<leftarrow> rd (drv_devices drv) i;
       (ok, device', evs) \<leftarrow> handler crypto (drv_callbacks drv) device mfr_payload;
       Some (drv\<lparr>drv_devices := (drv_devices drv)[i := device']\<rparr>, evs)
     }"

definition process_advertisement ::
    "crypto_impl \<Rightarrow> EnoceanDriver \<Rightarrow> u8 list \<Rightarrow> u8 \<Rightarrow> u8 \<Rightarrow> i8 \<Rightarrow> u8 list \<Rightarrow>
      (EnoceanDriver \<times> driver_event list) option" where
  "process_advertisement crypto drv addr addr_type adv_type rssi adv_data =
     (if \<not> drv_initialised drv then Some (drv, [])
      else if length addr \<noteq> k_addr_len then Some (drv, [])
      else if adv_type \<noteq> k_adv_nonconn_ind \<or> addr_type \<noteq> k_addr_random then Some (drv, [])
      else do {
        mfr_payload \<leftarrow> extract_manufacturer_data adv_data;
        if mfr_payload = [] then Some (drv, [])
        else if length mfr_payload < k_data_payload_min then Some (drv, [])
        else case find_device (drv_devices drv) addr of
          Some i \<Rightarrow> do {
            device \<leftarrow> rd (drv_devices drv) i;
            let drv = drv\<lparr>drv_devices := (drv_devices drv)[i := device\<lparr>dev_rssi := rssi\<rparr>]\<rparr>;
            if dev_type device = Switch
            then call_handler handle_switch crypto drv i mfr_payload
            else call_handler handle_sensor crypto drv i mfr_payload
          }
        | None \<Rightarrow>
            if length mfr_payload \<ge> k_commissioning_payload_min \<and> drv_commissioning drv then
              do {
                (ok, drv', evs) \<leftarrow> handle_commissioning drv addr addr_type rssi mfr_payload;
                Some (drv', evs)
              }
            else Some (drv, [])
      })"

text \<open>\<open>ctx\<close> is the driver the pointer points to, or \<open>None\<close> for a null pointer.\<close>

definition advertisement_cb ::
    "crypto_impl \<Rightarrow> EnoceanDriver option \<Rightarrow> u8 list \<Rightarrow> u8 \<Rightarrow> u8 \<Rightarrow> i8 \<Rightarrow> u8 list \<Rightarrow>
      (EnoceanDriver option \<times> driver_event list) option" where
  "advertisement_cb crypto ctx addr addr_type adv_type rssi adv_data =
     (case ctx of
        None \<Rightarrow> Some (None, [])
      | Some driver \<Rightarrow>
          do {
            (driver', evs) \<leftarrow>
              process_advertisement crypto driver addr addr_type adv_type rssi adv_data;
            Some (Some driver', evs)
          })"

end
