(* ===== verification/Enocean_Reference.thy ===== *)
theory Enocean_Reference
  imports Enocean_Parse
begin

text \<open>
  The two byte parsers of the driver against reference definitions (src/enocean/EnoceanDriver.ipp,
  \<open>extract_manufacturer_data\<close> and \<open>parse_tlv\<close>). The code walks one buffer with an index; the
  references take lists apart and say in one line what is wanted. The equalities hold for every
  byte string, not only for the encodings of well-formed data. \<open>measured\<close> says what the fields of a
  sensor report mean, and the code's switch over the field types computes it.
\<close>

subsection \<open>TLV fields\<close>

text \<open>A value whose bytes are given, least significant first.\<close>

fun le_word :: "u8 list \<Rightarrow> u32" where
  "le_word [] = 0"
| "le_word (b # bs) = ucast b OR push_bit 8 (le_word bs)"

text \<open>The value fields of a report: type and bytes. Everything else is skipped.\<close>

fun tlv_values :: "u8 list \<Rightarrow> (u8 \<times> u8 list) list" where
  "tlv_values [] = []"
| "tlv_values (h # bs) =
     (let ty = h AND 0x3F; sz = drop_bit 6 h
      in if ty = 0x3E then tlv_values (drop 22 bs)
         else if sz = 3 \<or> ty = 0x3C then
           (case bs of [] \<Rightarrow> [] | n # cs \<Rightarrow> if length cs < unat n then [] else tlv_values (drop (unat n) cs))
         else if length bs < 2 ^ unat sz then []
         else (ty, take (2 ^ unat sz) bs) # tlv_values (drop (2 ^ unat sz) bs))"

definition read_report :: "u8 list \<Rightarrow> SensorData \<Rightarrow> SensorData" where
  "read_report bs d = fold (\<lambda>(ty, v). apply_tlv ty (length v) (le_word v)) (tlv_values bs) d"

lemma le_value_reference:
  assumes "j + n \<le> length sb" and "b \<le> n"
  shows "le_value_from sb j n b v = Some (v OR push_bit (8 * b) (le_word (take (n - b) (drop (j + b) sb))))"
  using assms
proof (induction "n - b" arbitrary: b v)
  case 0
  then show ?case by (simp add: le_value_from.simps)
next
  case (Suc m)
  then have b: "b < n" and r: "rd sb (j + b) = Some (sb ! (j + b))" by (simp_all add: span_simps)
  have "take (n - b) (drop (j + b) sb) = sb ! (j + b) # take (n - (b + 1)) (drop (j + (b + 1)) sb)"
    using b Suc.prems(1) by (simp add: Cons_nth_drop_Suc [symmetric] take_Cons' )
  moreover have "le_value_from sb j n (b + 1) (v OR push_bit (8 * b) (ucast (sb ! (j + b)))) =
      Some ((v OR push_bit (8 * b) (ucast (sb ! (j + b)))) OR
        push_bit (8 * (b + 1)) (le_word (take (n - (b + 1)) (drop (j + (b + 1)) sb))))"
    using Suc by (intro Suc.hyps(1)) auto
  moreover have "push_bit (8 * b) (push_bit 8 x) = push_bit (8 * (b + 1)) (x :: u32)" for x
    by (simp add: add.commute)
  ultimately show ?case
    using b by (simp add: le_value_from.simps [of sb j n b] r push_bit_or or.assoc)
qed

lemma parse_tlv_reference: "parse_tlv_from sb j d = Some (read_report (drop j sb) d)"
proof (induction "length sb - j" arbitrary: j d rule: less_induct)
  case less
  show ?case
  proof (cases "j < length sb")
    case False
    then show ?thesis by (simp add: parse_tlv_from.simps [of sb j] read_report_def)
  next
    case True
    define h where "h = sb ! j"
    define bs where "bs = drop (j + 1) sb"
    have dj: "drop j sb = h # bs" using True by (simp add: h_def bs_def Cons_nth_drop_Suc)
    have r: "rd sb j = Some h" using True by (simp add: h_def span_simps)
    have ih: "parse_tlv_from sb j' d' = Some (read_report (drop j' sb) d')" if "j < j'" for j' d'
      using less True that by (intro less.hyps) linarith
    have lbs: "length bs = length sb - (j + 1)" by (simp add: bs_def)
    consider (block) "h AND 0x3F = 0x3E"
      | (variable) "h AND 0x3F \<noteq> 0x3E" "drop_bit 6 h = 3 \<or> h AND 0x3F = 0x3C"
      | (val) "h AND 0x3F \<noteq> 0x3E" "\<not> (drop_bit 6 h = 3 \<or> h AND 0x3F = 0x3C)" by blast
    then show ?thesis
    proof cases
      case block
      define j' where "j' = (if j + 1 + 22 \<le> length sb then j + 1 + 22 else length sb)"
      have "drop j' sb = drop 22 bs" by (simp add: bs_def j'_def add.commute)
      moreover have "parse_tlv_from sb j d = parse_tlv_from sb j' d"
        using True block
        by (simp add: parse_tlv_from.simps [of sb j] r byte_constants payload_constants j'_def)
      moreover have "j < j'" using True by (simp add: j'_def)
      ultimately show ?thesis
        using block by (simp add: ih dj read_report_def)
    next
      case variable
      show ?thesis
      proof (cases bs)
        case Nil
        then show ?thesis
          using True variable lbs
          by (simp add: parse_tlv_from.simps [of sb j] r byte_constants payload_constants dj read_report_def)
      next
        case (Cons n cs)
        have cs: "cs = drop (j + 2) sb" and n: "rd sb (j + 1) = Some n"
          using Cons unfolding bs_def
          by (metis add_2_eq_Suc' drop_Suc list.sel(3) add.commute plus_1_eq_Suc tl_drop)
            (metis Cons bs_def rd_append_here append_take_drop_id length_take min.absorb2 nat_le_linear drop_all list.discI)
        have "drop (unat n) cs = drop (j + 2 + unat n) sb" by (simp add: cs add.commute)
        then show ?thesis
          using True variable lbs ih [of "j + 2 + unat n"] Cons n
          by (simp add: parse_tlv_from.simps [of sb j] r byte_constants payload_constants dj
              read_report_def cs)
      qed
    next
      case val
      let ?n = "2 ^ unat (drop_bit 6 h)"
      have pb: "push_bit (unat (drop_bit 6 h)) 1 = ?n" by (simp add: push_bit_eq_mult)
      show ?thesis
      proof (cases "length bs < ?n")
        case short: True
        then have "j + 1 + ?n > length sb" using lbs True by linarith
        then show ?thesis
          using True val short
          by (simp add: parse_tlv_from.simps [of sb j] r byte_constants payload_constants dj
              read_report_def pb Let_def)
      next
        case long: False
        then have "j + 1 + ?n \<le> length sb" using lbs True by linarith
        then have "le_value_from sb (j + 1) ?n 0 0 = Some (le_word (take ?n bs))"
          using le_value_reference [of "j + 1" ?n sb 0 0] by (simp add: bs_def)
        moreover have "drop (j + 1 + ?n) sb = drop ?n bs" by (simp add: bs_def add.commute)
        moreover have "length (take ?n bs) = ?n" using long by simp
        ultimately show ?thesis
          using True val lbs long ih [of "j + 1 + ?n"]
          by (simp add: parse_tlv_from.simps [of sb j] r byte_constants payload_constants dj
              read_report_def pb Let_def)
      qed
    qed
  qed
qed

subsection \<open>What a report says\<close>

text \<open>
  The measurements of a sensor report in the units of \<open>SensorData\<close>, as arithmetic on the numbers
  its fields carry and without reference to the code: of several fields of one type the last
  counts. Temperatures are sent in 0.01 degrees (signed, two bytes), voltages in 0.5 mV, energy
  levels and humidities in 0.5 per cent, light in lux; an acceleration field of four bytes has a
  status of two bits and three axes of ten bits around 512; presence and closed contacts are 2.
\<close>

fun byte_value :: "u8 list \<Rightarrow> nat" where
  "byte_value [] = 0"
| "byte_value (b # bs) = unat b + 256 * byte_value bs"

definition last_value :: "(u8 \<times> u8 list) list \<Rightarrow> u8 \<Rightarrow> nat option" where
  "last_value fs ty = map_option (\<lambda>(t, v). byte_value v) (find (\<lambda>(t, v). t = ty) (rev fs))"

definition last_acceleration :: "(u8 \<times> u8 list) list \<Rightarrow> nat option" where
  "last_acceleration fs =
     map_option (\<lambda>(t, v). byte_value v) (find (\<lambda>(t, v). t = 0x0A \<and> length v = 4) (rev fs))"

definition axis :: "nat \<Rightarrow> i16" where
  "axis v = word_of_int (int (v mod 1024) - 512)"

definition measured :: "(u8 \<times> u8 list) list \<Rightarrow> SensorData" where
  "measured fs =
     \<lparr>occupancy = map_option (\<lambda>v. v = 2) (last_value fs 0x20),
      light_sensor = map_option of_nat (last_value fs 0x05),
      battery_voltage = map_option (\<lambda>v. of_nat (v div 2)) (last_value fs 0x01),
      light_solar_cell = map_option of_nat (last_value fs 0x04),
      energy_lvl = map_option (\<lambda>v. of_nat (v div 2)) (last_value fs 0x02),
      temperature_cdeg = map_option of_nat (last_value fs 0x00),
      humidity = map_option (\<lambda>v. of_nat (v mod 256 div 2)) (last_value fs 0x06),
      contact = map_option (\<lambda>v. v mod 256 = 2) (last_value fs 0x23),
      accel_status = map_option (\<lambda>v. of_nat (v div 2 ^ 30)) (last_acceleration fs),
      accel_x_cg = map_option (\<lambda>v. axis (v div 2 ^ 20)) (last_acceleration fs),
      accel_y_cg = map_option (\<lambda>v. axis (v div 2 ^ 10)) (last_acceleration fs),
      accel_z_cg = map_option axis (last_acceleration fs)\<rparr>"

text \<open>A word of at most four bytes is the number of its bytes.\<close>

lemma unat_lt_256: "unat (b :: u8) < 256"
  using unsigned_less [of b] by simp

lemma byte_value_bound: "byte_value bs < 256 ^ length bs"
proof (induction bs)
  case (Cons b bs)
  have "unat b < 256" by (simp add: unat_lt_256)
  with Cons show ?case by simp
qed simp

lemma le_word_value: "length bs \<le> 4 \<Longrightarrow> unat (le_word bs) = byte_value bs"
proof (induction bs)
  case (Cons b bs)
  have l: "byte_value bs < 256 ^ 3"
    using byte_value_bound [of bs] Cons.prems power_increasing [of "length bs" 3 "256 :: nat"] by simp
  have w: "unat (le_word bs) = byte_value bs" using Cons by simp
  have p: "unat (push_bit 8 (le_word bs)) = 256 * byte_value bs"
    using l w by (simp add: push_bit_eq_mult unat_word_ariths)
  have "(ucast b :: u32) AND push_bit 8 (le_word bs) = 0"
    by (rule bit_word_eqI) (auto simp: bit_simps not_bit_u8)
  then have "ucast b OR push_bit 8 (le_word bs) = ucast b + push_bit 8 (le_word bs)"
    by (simp add: disjunctive_add_eq_or)
  moreover have "unat b < 256" by (rule unat_lt_256)
  moreover from this have "unat (ucast b :: u32) = unat b"
    by (simp add: unsigned_ucast_eq take_bit_nat_eq_self)
  ultimately show ?case using p l by (simp add: unat_word_ariths)
qed simp

lemma tlv_values_short: "(ty, v) \<in> set (tlv_values bs) \<Longrightarrow> length v \<le> 4"
proof (induction bs rule: tlv_values.induct)
  case (2 h bs)
  have "unat (drop_bit 6 h) < 4" using unat_lt_256 [of h] by (simp add: unsigned_drop_bit_eq drop_bit_eq_div unat_div)
  moreover have "unat (drop_bit 6 h) \<noteq> 3" if "drop_bit 6 h \<noteq> 3" using that by (simp add: word_unat_eq_iff)
  ultimately have "(2 :: nat) ^ unat (drop_bit 6 h) \<le> 2 ^ 2" if "drop_bit 6 h \<noteq> 3" using that
    by (intro power_increasing) fastforce+
  with 2 show ?case by (auto simp: Let_def split: if_splits list.splits)
qed simp

lemma last_value_snoc [simp]:
  "last_value (fs @ [(t, v)]) ty = (if t = ty then Some (byte_value v) else last_value fs ty)"
  "last_acceleration (fs @ [(t, v)]) =
     (if t = 0x0A \<and> length v = 4 then Some (byte_value v) else last_acceleration fs)"
  "last_value [] ty = None" "last_acceleration [] = None"
  by (simp_all add: last_value_def last_acceleration_def)

lemma and_3FF: "(x :: u32) AND 0x3FF = take_bit 10 x" and and_FFFF: "x AND 0xFFFF = take_bit 16 x"
  by (simp_all add: take_bit_eq_mask mask_eq_exp_minus_1)

lemma ucast_of_nat: "(of_nat (unat x) :: 'a::len word) = ucast x"
  by (simp add: unsigned_def)

lemma field_numbers:
  fixes x :: u32
  shows "(ucast (x AND 0xFFFF) :: i16) = of_nat (unat x)"
    and "(ucast (x div 2) :: 'a::len word) = of_nat (unat x div 2)"
    and "unat (x AND 0xFF) = unat x mod 256"
    and "(ucast (drop_bit 30 x) :: u8) = of_nat (unat x div 2 ^ 30)"
    and "(ucast x :: u8) = 2 \<longleftrightarrow> unat x mod 256 = 2"
    and "x = 2 \<longleftrightarrow> unat x = 2"
    and "uint (drop_bit n x AND 0x3FF) = int (unat x div 2 ^ n mod 1024)"
proof -
  show "(ucast (x AND 0xFFFF) :: i16) = of_nat (unat x)"
    unfolding ucast_of_nat and_FFFF by (rule bit_word_eqI) (auto simp: bit_simps)
  show "(ucast (x div 2) :: 'a word) = of_nat (unat x div 2)" by (simp add: ucast_of_nat [symmetric] unat_div)
  show "unat (x AND 0xFF) = unat x mod 256"
    by (simp only: and_FF unsigned_take_bit_eq) (simp add: take_bit_eq_mod)
  show "(ucast (drop_bit 30 x) :: u8) = of_nat (unat x div 2 ^ 30)"
    by (simp only: ucast_of_nat [symmetric] unat_drop_bit_eq) (simp only: drop_bit_eq_div)
  show "(ucast x :: u8) = 2 \<longleftrightarrow> unat x mod 256 = 2"
    by (simp add: word_unat_eq_iff unsigned_ucast_eq take_bit_eq_mod)
  show "x = 2 \<longleftrightarrow> unat x = 2" by (simp add: word_unat_eq_iff)
  have "unat (drop_bit n x AND 0x3FF) = unat x div 2 ^ n mod 1024"
    by (simp only: and_3FF unsigned_take_bit_eq unat_drop_bit_eq) (simp add: take_bit_eq_mod drop_bit_eq_div)
  then show "uint (drop_bit n x AND 0x3FF) = int (unat x div 2 ^ n mod 1024)" by (metis of_nat_unat)
qed

lemma apply_tlv_measured:
  assumes "length v \<le> 4"
  shows "apply_tlv ty (length v) (le_word v) (measured fs) = measured (fs @ [(ty, v)])"
  using field_numbers(7) [of 0 "le_word v"]
  by (simp add: apply_tlv_def measured_def axis_def field_numbers ucast_of_nat le_word_value [OF assms, symmetric]
      unat_div)

lemma fold_measured:
  "list_all (\<lambda>(ty, v). length v \<le> 4) fs \<Longrightarrow>
     fold (\<lambda>(ty, v). apply_tlv ty (length v) (le_word v)) fs empty_sensor_data = measured fs"
proof (induction fs rule: rev_induct)
  case Nil
  then show ?case by (simp add: measured_def empty_sensor_data_def)
next
  case (snoc f fs)
  then show ?case by (cases f) (simp add: apply_tlv_measured)
qed

lemma read_report_measured: "read_report bs empty_sensor_data = measured (tlv_values bs)"
  unfolding read_report_def by (rule fold_measured) (auto simp: list_all_iff tlv_values_short)

subsection \<open>AD structures\<close>

text \<open>
  The structures of an advertisement: each a length byte and as many bytes, the first of which is
  the type. A length of zero, or one beyond the end, ends the list.
\<close>

fun ad_structures :: "u8 list \<Rightarrow> u8 list list" where
  "ad_structures [] = []"
| "ad_structures (n # bs) =
     (if n = 0 \<or> length bs < unat n then []
      else take (unat n) bs # ad_structures (drop (unat n) bs))"

definition is_enocean :: "u8 list \<Rightarrow> bool" where
  "is_enocean c \<longleftrightarrow> take 3 c = [0xFF, 0xDA, 0x03]"

definition enocean_payload :: "u8 list \<Rightarrow> u8 list" where
  "enocean_payload adv = (case find is_enocean (ad_structures adv) of None \<Rightarrow> [] | Some c \<Rightarrow> drop 3 c)"

text \<open>
  The two kinds of malformed structure on which the code departs from the reference: one whose
  last byte is missing, and a manufacturer structure too short for the company identifier.
\<close>

fun ad_regular :: "u8 list \<Rightarrow> bool" where
  "ad_regular [] \<longleftrightarrow> True"
| "ad_regular (n # bs) \<longleftrightarrow>
     n = 0 \<or> length bs + 1 < unat n \<or>
     (unat n \<le> length bs \<and> (hd bs = 0xFF \<longrightarrow> 3 \<le> unat n) \<and> ad_regular (drop (unat n) bs))"

lemma enocean_payload_simps:
  "enocean_payload [] = []"
  "enocean_payload (n # bs) =
     (if n = 0 \<or> length bs < unat n then []
      else if is_enocean (take (unat n) bs) then drop 3 (take (unat n) bs)
      else enocean_payload (drop (unat n) bs))"
  by (simp_all add: enocean_payload_def)

lemma extract_reference:
  "ad_regular (drop i adv) \<Longrightarrow> extract_from adv i = Some (enocean_payload (drop i adv))"
proof (induction "length adv - i" arbitrary: i rule: less_induct)
  case less
  show ?case
  proof (cases "i < length adv")
    case False
    then show ?thesis by (simp add: extract_end enocean_payload_simps)
  next
    case True
    define n where "n = adv ! i"
    define bs where "bs = drop (i + 1) adv"
    have d: "drop i adv = n # bs" using True by (simp add: n_def bs_def Cons_nth_drop_Suc)
    have r: "rd adv i = Some n" using True by (simp add: n_def span_simps)
    have at: "rd adv (i + 1 + k) = rd bs k" for k
      using True by (auto simp: bs_def rd_def)
    have lbs: "length adv = i + 1 + length bs" using True by (simp add: bs_def)
    have next_bs: "drop (i + 1 + unat n) adv = drop (unat n) bs" by (simp add: bs_def add.commute)
    consider (stop) "n = 0 \<or> length bs + 1 < unat n"
      | (fits) "n \<noteq> 0" "unat n \<le> length bs" "hd bs = 0xFF \<longrightarrow> 3 \<le> unat n" "ad_regular (drop (unat n) bs)"
      using less.prems unfolding d by auto
    then show ?thesis
    proof cases
      case stop
      then show ?thesis
        using True by (auto simp: extract_from.simps [of adv i] r lbs d enocean_payload_simps)
    next
      case fits
      have n0: "0 < unat n" using fits(1) by (simp add: unat_gt_0)
      then obtain ty cs where bs: "bs = ty # cs" using fits(2) by (cases bs) auto
      have bound: "i + unat n \<le> length adv" using fits(2) lbs by simp
      have r1: "rd adv (i + 1) = Some ty" using at [of 0] bs by (simp add: rd_def)
      have ih: "extract_from adv (i + 1 + unat n) = Some (enocean_payload (drop (unat n) bs))"
        using less.hyps [of "i + 1 + unat n", unfolded next_bs] True fits(4) by simp
      show ?thesis
      proof (cases "ty = k_ad_type_manufacturer")
        case False
        have "\<not> is_enocean (take (unat n) bs)"
          using False n0 by (cases "unat n") (auto simp: is_enocean_def bs k_ad_type_manufacturer_def)
        then show ?thesis
          using extract_step_other [OF r fits(1) bound r1 False] ih fits(1,2)
          by (simp add: d enocean_payload_simps)
      next
        case True
        then have n3: "3 \<le> unat n" using fits(3) by (simp add: bs k_ad_type_manufacturer_def)
        then obtain lo hi es where cs: "cs = lo # hi # es"
          using fits(2) bs by (cases cs; cases "tl cs") auto
        have r2: "rd adv (i + 2) = Some lo" "rd adv (i + 3) = Some hi"
          using at [of 1] at [of 2] by (simp_all add: bs cs rd_def eval_nat_numeral)
        have t3: "take 3 (take (unat n) bs) = [ty, lo, hi]" using n3 by (simp add: bs cs min_def)
        have sub: "subspan adv (i + 4) (unat n - 3) = Some (drop 3 (take (unat n) bs))"
        proof -
          have "drop (i + 4) adv = drop 3 bs" by (simp add: bs_def add.commute)
          moreover have "i + 4 + (unat n - 3) \<le> length adv" using n3 fits(2) lbs by simp
          ultimately show ?thesis by (simp add: subspan_def drop_take)
        qed
        have "is_enocean (take (unat n) bs) \<longleftrightarrow> lo = 0xDA \<and> hi = 0x03"
          using True unfolding is_enocean_def t3 by (simp add: k_ad_type_manufacturer_def)
        then show ?thesis
          using extract_step_manufacturer [OF r fits(1) bound r1 [unfolded True] r2] ih fits(1,2) n3 sub
          by (simp add: d enocean_payload_simps)
      qed
    qed
  qed
qed

text \<open>
  The malformations that make the walk leave its span, told from the bytes alone: reading the
  structures one behind the other, the first structure that ends one byte behind the end of the
  data is either a lone length byte or begins with the manufacturer type and the EnOcean
  identifier. The bound check of the code lets such a structure pass because it does not count the
  length byte.
\<close>

fun ad_over_reads :: "u8 list \<Rightarrow> bool" where
  "ad_over_reads [] \<longleftrightarrow> False"
| "ad_over_reads (n # bs) \<longleftrightarrow>
     (if n = 0 \<or> length bs + 1 < unat n then False
      else if bs = [] then True
      else if take 3 bs = [0xFF, 0xDA, 0x03] then length bs < unat n
      else if hd bs = 0xFF \<and> length bs < 3 then False
      else ad_over_reads (drop (unat n) bs))"

lemma extract_from_over_reads: "extract_from adv i = None \<longleftrightarrow> ad_over_reads (drop i adv)"
proof (induction "length adv - i" arbitrary: i rule: less_induct)
  case less
  show ?case
  proof (cases "i < length adv")
    case False
    then show ?thesis by (simp add: extract_end)
  next
    case True
    define n where "n = adv ! i"
    define bs where "bs = drop (i + 1) adv"
    have d: "drop i adv = n # bs" using True by (simp add: n_def bs_def Cons_nth_drop_Suc)
    have r: "rd adv i = Some n" using True by (simp add: n_def span_simps)
    have at: "rd adv (i + 1 + k) = rd bs k" for k
      using True by (auto simp: bs_def rd_def)
    have lbs: "length adv = i + 1 + length bs" using True by (simp add: bs_def)
    have next_bs: "drop (i + 1 + unat n) adv = drop (unat n) bs" by (simp add: bs_def add.commute)
    have ih: "extract_from adv (i + 1 + unat n) = None \<longleftrightarrow> ad_over_reads (drop (unat n) bs)"
      using less.hyps [of "i + 1 + unat n", unfolded next_bs] True by simp
    consider (stop) "n = 0 \<or> length bs + 1 < unat n" | (last) "n \<noteq> 0" "unat n \<le> length bs + 1" "bs = []"
      | (inside) ty cs where "n \<noteq> 0" "unat n \<le> length bs + 1" "bs = ty # cs"
      by (cases bs) force+
    then show ?thesis
    proof cases
      case stop
      then show ?thesis using True by (auto simp: extract_from.simps [of adv i] r lbs d)
    next
      case last
      then show ?thesis using True at [of 0]
        by (simp add: extract_from.simps [of adv i] r lbs d rd_def n_def [symmetric])
    next
      case inside
      have bound: "i + unat n \<le> length adv" using inside(2) lbs by simp
      have r1: "rd adv (i + 1) = Some ty" using at [of 0] inside(3) by (simp add: rd_def)
      consider (other) "ty \<noteq> 0xFF" | (short) "ty = 0xFF" "length bs < 3"
        | (manufacturer) lo hi es where "ty = 0xFF" "bs = [ty, lo, hi] @ es"
        using inside(3) by (cases cs; cases "tl cs") force+
      then show ?thesis
      proof cases
        case other
        then show ?thesis
          using extract_step_other [OF r inside(1) bound r1] ih inside
          by (simp add: d k_ad_type_manufacturer_def take_Cons')
      next
        case short
        then show ?thesis
          using r r1 bound True inside lbs
          by (auto simp: extract_from.simps [of adv i] d k_ad_type_manufacturer_def)
      next
        case manufacturer
        have r2: "rd adv (i + 2) = Some lo" "rd adv (i + 3) = Some hi"
          using at [of 1] at [of 2] by (simp_all add: manufacturer(2) rd_def eval_nat_numeral)
        show ?thesis
          using extract_step_manufacturer [OF r inside(1) bound _ r2] r1 ih inside(1,2) manufacturer lbs
          by (auto simp: d k_ad_type_manufacturer_def subspan_def)
      qed
    qed
  qed
qed
lemma extract_over_reads:
  "extract_manufacturer_data adv = None \<longleftrightarrow> ad_over_reads adv"
  using extract_from_over_reads [of adv 0] by (simp add: extract_manufacturer_data_def)

subsection \<open>Properties\<close>

text \<open>
  C22: The TLV loop computes the reference: for every byte string it returns the starting report
  updated, in order, with the little-endian values of the value fields; embedded commissioning
  blocks and fields of variable length are skipped and a field that is cut off ends the report.
\<close>

theorem tlv_computes_reference:
  "parse_tlv_from sensor_bytes 0 d =
     Some (fold (\<lambda>(ty, v). apply_tlv ty (length v) (le_word v)) (tlv_values sensor_bytes) d)"
  using parse_tlv_reference [of sensor_bytes 0 d] by (simp add: read_report_def)

text \<open>
  C23: The AD walk computes the reference on every byte string without the two malformations: the
  result is the payload of the first structure that starts with the manufacturer type and the
  EnOcean identifier, or empty. A byte behind the structures - a terminator, or a length beyond
  the end - is no malformation.
\<close>

theorem extract_computes_reference:
  assumes "ad_regular adv"
  shows "extract_manufacturer_data adv = Some (enocean_payload adv)"
  using extract_reference [of 0 adv] assms by (simp add: extract_manufacturer_data_def)

theorem extract_computes_reference_witness:
  "extract_manufacturer_data [2, 0x01, 0x06, 1, 0x09, 4, 0xFF, 0xDA, 0x03, 7, 9, 1] = Some [7]"
proof -
  have "ad_regular [2, 0x01, 0x06, 1, 0x09, 4, 0xFF, 0xDA, 0x03, 7, 9, 1]"
    and "enocean_payload [2, 0x01, 0x06, 1, 0x09, 4, 0xFF, 0xDA, 0x03, 7, 9, 1] = [7]"
    by code_simp+
  with extract_computes_reference show ?thesis by metis
qed

text \<open>
  A manufacturer structure of two bytes: the walk takes the second byte of the identifier from
  the length byte of the next structure, believes it has found EnOcean data that is too short, and
  never reaches the EnOcean structure behind.
\<close>

lemma short_manufacturer_hides:
  "extract_manufacturer_data ([2, 0xFF, 0xDA, 3, 0x09, 1, 2] @ encode_ad (0xFF, 0xDA # 0x03 # payload)) = Some []"
proof -
  let ?adv = "[2, 0xFF, 0xDA, 3, 0x09, 1, 2] @ encode_ad (0xFF, 0xDA # 0x03 # payload)"
  have "rd ?adv 0 = Some 2" "rd ?adv (0 + 1) = Some k_ad_type_manufacturer" "rd ?adv (0 + 2) = Some 0xDA"
    "rd ?adv (0 + 3) = Some 3"
    by (simp_all add: rd_def k_ad_type_manufacturer_def eval_nat_numeral)
  then show ?thesis
    unfolding extract_manufacturer_data_def by (subst extract_step_manufacturer) auto
qed

end
