(* ===== verification/Enocean_Handlers.thy ===== *)
theory Enocean_Handlers
  imports Enocean_Driver Enocean_Reference
begin

text \<open>
  What the two telegram handlers of the driver do on every telegram (src/enocean/EnoceanDriver.ipp,
  \<open>handle_switch\<close> and \<open>handle_sensor\<close>): their results in terms of sequence number, body and
  tag, and the contract \<open>data_handler\<close> that the rest of the driver needs of a handler,
  interpreted on both.
\<close>

subsection \<open>Telegrams\<close>

text \<open>
  A data telegram is the sequence number, a body (for a switch its state byte and the optional
  data) and the four-byte tag over what precedes it. \<open>authentic\<close> is the question the driver puts
  to the crypto interface.
\<close>

definition telegram :: "u32 \<Rightarrow> u8 list \<Rightarrow> u8 list \<Rightarrow> u8 list" where
  "telegram s body tag = seq_bytes s @ body @ tag"

definition authentic :: "crypto_impl \<Rightarrow> EnoceanDevice \<Rightarrow> u32 \<Rightarrow> u8 list \<Rightarrow> u8 list \<Rightarrow> bool" where
  "authentic crypto dev s body tag =
     fst (aes_ccm_decrypt crypto (dev_key dev) (ba_addr (ble_addr dev) @ seq_bytes s @ [0, 0, 0])
            (seq_bytes s @ body) [] tag [])"

definition backend_log :: "crypto_impl \<Rightarrow> EnoceanDevice \<Rightarrow> u32 \<Rightarrow> u8 list \<Rightarrow> u8 list \<Rightarrow> log_call list" where
  "backend_log crypto dev s body tag =
     snd (snd (aes_ccm_decrypt crypto (dev_key dev) (ba_addr (ble_addr dev) @ seq_bytes s @ [0, 0, 0])
            (seq_bytes s @ body) [] tag []))"

lemma backend_log_rssi [simp]: "backend_log crypto (dev\<lparr>dev_rssi := r\<rparr>) = backend_log crypto dev"
  by (simp add: backend_log_def fun_eq_iff)

lemma filter_logged [simp]:
  "filter is_data_event (map Logged log) = []" "filter is_commissioned_event (map Logged log) = []"
  by (simp_all add: filter_empty_conv)

lemma logged_append: "\<exists>log'. map Logged log @ [Logged l] = map Logged log'"
    "\<exists>log'. Logged k # map Logged log @ [Logged l] = map Logged log'"
    "\<exists>log'. [Logged k, Logged l] = map Logged log'"
  by (rule exI [of _ "log @ [l]"] exI [of _ "k # log @ [l]"] exI [of _ "[k, l]"], simp)+

lemma authentic_rssi [simp]: "authentic crypto (dev\<lparr>dev_rssi := r\<rparr>) = authentic crypto dev"
  by (simp add: authentic_def fun_eq_iff)

lemma read_seq_telegram [simp]: "read_seq (telegram s body tag) = Some s"
  by (simp add: telegram_def read_seq_of_bytes)

lemma length_telegram [simp]: "length (telegram s body tag) = 4 + length body + length tag"
  by (simp add: telegram_def)

lemma telegram_exists:
  assumes "k_data_payload_min \<le> length p"
  shows "\<exists>s body tag. p = telegram s body tag \<and> length tag = k_tag_len \<and> body \<noteq> []"
proof -
  obtain s where s: "read_seq p = Some s"
    using read_seq_total [of p] assms by (auto simp: payload_constants)
  let ?body = "take (length p - 8) (drop 4 p)" and ?tag = "drop (length p - 4) p"
  have l: "9 \<le> length p" using assms by (simp add: payload_constants)
  have "?body @ ?tag = drop 4 p"
  proof -
    have "drop (length p - 8) (drop 4 p) = drop (length p - 4) p" using l by simp
    then show ?thesis by (metis append_take_drop_id)
  qed
  then have "p = telegram s ?body ?tag"
    unfolding telegram_def using read_seq_SomeD [OF s] by (metis append_take_drop_id)
  moreover have "length ?tag = k_tag_len" using l by (simp add: size_constants)
  moreover have "?body \<noteq> []" using l by auto
  ultimately show ?thesis by blast
qed

lemma rd_seq_bytes_append: "rd (seq_bytes s @ x # xs) 4 = Some x"
  using rd_append_here [of "seq_bytes s" x xs] by simp

lemma subspan_front: "subspan (seq_bytes s @ body @ tag) 0 (4 + length body) = Some (seq_bytes s @ body)"
  by (simp add: subspan_def)

lemma subspan_back:
  "length tag = 4 \<Longrightarrow> subspan (seq_bytes s @ body @ tag) (4 + length body) 4 = Some tag"
  using subspan_append [of "seq_bytes s @ body" tag "[]"] by simp

lemma subspan_body: "subspan (seq_bytes s @ body @ tag) 4 (length body) = Some body"
  using subspan_append [of "seq_bytes s" body tag] by simp

lemma subspan_opt: "subspan (seq_bytes s @ st # opt @ tag) 5 (length opt) = Some opt"
  using subspan_append [of "seq_bytes s @ [st]" opt tag] by simp

subsection \<open>The switch handler on a telegram\<close>

definition switch_action :: "u8 \<Rightarrow> ButtonAction" where
  "switch_action st = (if bit st 0 then Press else Release)"

definition switch_buttons :: "u8 \<Rightarrow> u8" where
  "switch_buttons st = drop_bit 1 st AND 0x0F"

lemma and_1_bit0: "((x :: u8) AND 1 \<noteq> 0) = bit x 0"
  by (simp add: and_one_eq bit_0 odd_iff_mod_2_eq_one)

lemma handle_switch_telegram:
  assumes ok: "device_ok dev" and tag: "length tag = k_tag_len"
  shows "handle_switch crypto cbs dev (telegram s (st # opt) tag) = Some (
     if \<not> s > seq_num dev then
       (False, dev, [Logged (LOGGER_WARNING ''EnoceanDriver: replay detected (switch)'' [])])
     else if length opt > 4 \<or> st AND k_status_reserved_mask \<noteq> 0 then (False, dev, [])
     else if \<not> authentic crypto dev s (st # opt) tag then
       (False, dev, map Logged (backend_log crypto dev s (st # opt) tag) @
         [Logged (LOGGER_WARNING ''EnoceanDriver: switch auth failed'' [])])
     else if length opt = 3 then
       (False, dev\<lparr>seq_num := s\<rparr>, map Logged (backend_log crypto dev s (st # opt) tag))
     else (True, dev\<lparr>seq_num := s\<rparr>, map Logged (backend_log crypto dev s (st # opt) tag) @ call_if (button_cb cbs)
       (\<lambda>f. CallButton f (dev\<lparr>seq_num := s\<rparr>) (switch_action st) (switch_buttons st)
              (if opt = [] then None else Some opt))))"
proof -
  let ?p = "telegram s (st # opt) tag"
  have t: "length tag = 4" using tag by (simp add: size_constants)
  have addr: "length (ba_addr (ble_addr dev)) = k_addr_len" using ok by (simp add: device_ok_def)
  have st: "rd ?p k_switch_state_offset = Some st"
    by (simp add: telegram_def payload_constants rd_seq_bytes_append)
  have off: "length ?p - k_tag_len = 4 + length (st # opt)" by (simp add: t size_constants)
  have sp: "subspan ?p (4 + length (st # opt)) k_tag_len = Some tag"
    "subspan ?p 0 (4 + length (st # opt)) = Some (seq_bytes s @ st # opt)"
    "subspan ?p (k_switch_state_offset + 1) (length opt) = Some opt"
    using subspan_back [OF t, of s "st # opt"] subspan_front [of s "st # opt" tag]
      subspan_opt [of s st opt tag]
    by (simp_all add: telegram_def size_constants payload_constants)
  have cp: "copy_front tag (replicate k_tag_len 0) = tag" by (simp add: tag)
  have len: "(0 < length opt \<and> length opt \<noteq> 1 \<and> length opt \<noteq> 2 \<and> length opt \<noteq> 4) =
      (length opt = 3)" if "length opt \<le> 4"
    using that by arith
  have opt_len: "(if 0 < length opt then length opt else 0) = length opt" by simp
  have k: "(4 + length (st # opt) > k_switch_state_offset + 1) = (0 < length opt)"
    "4 + length (st # opt) - (k_switch_state_offset + 1) = length opt"
    "(length ?p > k_switch_payload_max) = (length opt > 4)"
    "(length ?p < k_data_payload_min) = False"
    by (simp_all add: payload_constants t)
  show ?thesis
    unfolding handle_switch_def Let_def read_seq_telegram bind.bind_lunit off sp build_nonce_eq [OF addr]
      st cp check_sequence_def authentic_def [symmetric] backend_log_def [symmetric] append.assoc k
      opt_len sp option.map switch_action_def switch_buttons_def and_1_bit0
    using len by (auto simp: sp)
qed

subsection \<open>The sensor handler on a telegram\<close>

lemma addr_args_eq:
  assumes "length addr = k_addr_len"
  shows "addr_args addr = Some (map (\<lambda>a. ArgInt (uint a)) (rev addr))"
proof -
  obtain a0 a1 a2 a3 a4 a5 where "addr = [a0, a1, a2, a3, a4, a5]"
    using assms by (auto simp: k_addr_len_def eval_nat_numeral length_Suc_conv)
  then show ?thesis by (simp add: addr_args_def rd_def)
qed

definition sensor_packet_log :: "EnoceanDevice \<Rightarrow> nat \<Rightarrow> u32 \<Rightarrow> driver_event" where
  "sensor_packet_log dev n s =
     Logged (LOGGER_NOTICE
       (''EnoceanDriver: sensor pkt %02hhX:%02hhX:%02hhX:%02hhX:%02hhX:%02hhX '' @
        ''payload[%zu] seq=%lu'')
       (map (\<lambda>a. ArgInt (uint a)) (rev (ba_addr (ble_addr dev))) @
        [ArgInt (int n), ArgInt (uint s)]))"

text \<open>The report of a body: the TLV loop always ends with one.\<close>

definition sensor_report :: "u8 list \<Rightarrow> SensorData" where
  "sensor_report body = the (parse_tlv_from body 0 empty_sensor_data)"

lemma sensor_report: "parse_tlv_from body 0 empty_sensor_data = Some (sensor_report body)"
  using parse_tlv_from_total [of body 0 empty_sensor_data] by (auto simp: sensor_report_def)

lemma handle_sensor_telegram:
  assumes ok: "device_ok dev" and tag: "length tag = k_tag_len" and body: "body \<noteq> []"
  shows "handle_sensor crypto cbs dev (telegram s body tag) = Some (
     if \<not> s > seq_num dev then
       (False, dev, [sensor_packet_log dev (length (telegram s body tag)) s,
         Logged (LOGGER_WARNING ''EnoceanDriver: replay detected (sensor)'' [])])
     else if \<not> authentic crypto dev s body tag then
       (False, dev, sensor_packet_log dev (length (telegram s body tag)) s #
         map Logged (backend_log crypto dev s body tag) @
         [Logged (LOGGER_WARNING ''EnoceanDriver: sensor auth failed'' [])])
     else (True, dev\<lparr>seq_num := s\<rparr>,
       sensor_packet_log dev (length (telegram s body tag)) s #
       map Logged (backend_log crypto dev s body tag) @ call_if (sensor_cb cbs) (\<lambda>f. CallSensor f (dev\<lparr>seq_num := s\<rparr>) (sensor_report body) None)))"
proof -
  let ?p = "telegram s body tag"
  have t: "length tag = 4" using tag by (simp add: size_constants)
  have addr: "length (ba_addr (ble_addr dev)) = k_addr_len" using ok by (simp add: device_ok_def)
  have off: "length ?p - k_tag_len = 4 + length body" by (simp add: t size_constants)
  have sp: "subspan ?p (4 + length body) k_tag_len = Some tag"
    "subspan ?p 0 (4 + length body) = Some (seq_bytes s @ body)"
    "subspan ?p k_sensor_data_offset (4 + length body - k_sensor_data_offset) = Some body"
    using subspan_back [OF t, of s body] subspan_front [of s body tag] subspan_body [of s body tag]
    by (simp_all add: telegram_def size_constants payload_constants)
  have cp: "copy_front tag (replicate k_tag_len 0) = tag" by (simp add: tag)
  have k: "(length ?p < k_data_payload_min) = False" "(length ?p > k_sensor_data_offset) = True"
    using body by (auto simp: payload_constants t Suc_le_eq simp flip: length_greater_0_conv)
  show ?thesis
    unfolding handle_sensor_def Let_def read_seq_telegram bind.bind_lunit off sp build_nonce_eq [OF addr]
      cp check_sequence_def authentic_def [symmetric] backend_log_def [symmetric] append.assoc k addr_args_eq [OF addr]
      sensor_packet_log_def [symmetric] if_True if_False sensor_report
    by simp
qed

subsection \<open>The contract of a telegram handler\<close>

fun event_device :: "driver_event \<Rightarrow> EnoceanDevice option" where
  "event_device (Logged l) = None"
| "event_device (CallButton f dev action buttons opt) = Some dev"
| "event_device (CallSensor f dev report opt) = Some dev"
| "event_device (CallCommissioned f dev) = Some dev"

definition accepts :: "crypto_impl \<Rightarrow> EnoceanDevice \<Rightarrow> u32 \<Rightarrow> u8 list \<Rightarrow> u8 list \<Rightarrow> bool" where
  "accepts crypto dev s body tag \<longleftrightarrow> s > seq_num dev \<and> authentic crypto dev s body tag"

text \<open>
  What the driver relies on in a handler, whichever kind of device it decodes: it never fails on
  a device of the table, a telegram it does not accept leaves the device as it was and reports
  nothing, one it accepts changes at most the sequence number, to the telegram's, and is reported
  at most once, with the device as it is then.
\<close>

locale data_handler =
  fixes handler :: telegram_handler
  assumes short: "length p < k_data_payload_min \<Longrightarrow> handler crypto cbs dev p = Some (False, dev, [])"
    and total: "device_ok dev \<Longrightarrow> length tag = k_tag_len \<Longrightarrow> body \<noteq> [] \<Longrightarrow>
      handler crypto cbs dev (telegram s body tag) \<noteq> None"
    and refused: "device_ok dev \<Longrightarrow> length tag = k_tag_len \<Longrightarrow> body \<noteq> [] \<Longrightarrow>
      \<not> accepts crypto dev s body tag \<Longrightarrow>
      handler crypto cbs dev (telegram s body tag) = Some (ok, dev', evs) \<Longrightarrow>
      \<not> ok \<and> dev' = dev \<and> filter is_data_event evs = []"
    and device_update: "device_ok dev \<Longrightarrow> length tag = k_tag_len \<Longrightarrow> body \<noteq> [] \<Longrightarrow>
      handler crypto cbs dev (telegram s body tag) = Some (ok, dev', evs) \<Longrightarrow>
      dev' = dev \<or> dev' = dev\<lparr>seq_num := s\<rparr>"
    and reported_once: "device_ok dev \<Longrightarrow> length tag = k_tag_len \<Longrightarrow> body \<noteq> [] \<Longrightarrow>
      handler crypto cbs dev (telegram s body tag) = Some (ok, dev', evs) \<Longrightarrow>
      filter is_data_event evs = [] \<or>
      (\<exists>e. filter is_data_event evs = [e] \<and> event_device e = Some dev' \<and> dev' = dev\<lparr>seq_num := s\<rparr>)"
    and no_commissioning: "device_ok dev \<Longrightarrow> length tag = k_tag_len \<Longrightarrow> body \<noteq> [] \<Longrightarrow>
      handler crypto cbs dev (telegram s body tag) = Some (ok, dev', evs) \<Longrightarrow>
      filter is_commissioned_event evs = []"
begin

lemma returns:
  assumes "device_ok dev"
  shows "\<exists>ok dev' evs. handler crypto cbs dev p = Some (ok, dev', evs)"
proof (cases "length p < k_data_payload_min")
  case True
  then show ?thesis by (intro exI [of _ False]) (simp add: short)
next
  case False
  then obtain s body tag where "p = telegram s body tag" "length tag = k_tag_len" "body \<noteq> []"
    using telegram_exists by (meson not_less)
  with total [OF assms] show ?thesis by auto
qed

text \<open>Every call is a refusal or an acceptance of a telegram that authenticates.\<close>

lemma outcome:
  assumes ok: "device_ok dev" and h: "handler crypto cbs dev p = Some (r, dev', evs)"
  obtains (refusal) "dev' = dev" "filter is_data_event evs = []" "filter is_commissioned_event evs = []"
  | (acceptance) s body tag where "p = telegram s body tag" "length tag = k_tag_len"
      "accepts crypto dev s body tag" "dev' = dev\<lparr>seq_num := s\<rparr>"
      "filter is_commissioned_event evs = []"
      "filter is_data_event evs = [] \<or>
       (\<exists>e. filter is_data_event evs = [e] \<and> event_device e = Some dev')"
proof (cases "length p < k_data_payload_min")
  case True
  then show ?thesis using h refusal by (simp add: short)
next
  case False
  then obtain s body tag where p: "p = telegram s body tag" "length tag = k_tag_len" "body \<noteq> []"
    using telegram_exists by (meson not_less)
  note h' = h [unfolded p(1)] and side = ok p(2,3)
  show ?thesis
  proof (cases "accepts crypto dev s body tag")
    case False
    then show ?thesis
      using refused [OF side _ h'] no_commissioning [OF side h'] refusal by blast
  next
    case True
    show ?thesis
      using device_update [OF side h'] reported_once [OF side h'] no_commissioning [OF side h']
        acceptance [OF p(1,2) True] refusal by metis
  qed
qed

lemma keeps_device_ok:
  assumes "device_ok dev" and "handler crypto cbs dev p = Some (r, dev', evs)"
  shows "device_ok dev' \<and> active dev' = active dev \<and> ble_addr dev' = ble_addr dev
    \<and> dev_key dev' = dev_key dev \<and> dev_type dev' = dev_type dev \<and> dev_rssi dev' = dev_rssi dev
    \<and> seq_num dev \<le> seq_num dev'"
  using assms by (rule outcome) (auto simp: assms(1) accepts_def)

end

interpretation sw: data_handler handle_switch
proof (unfold_locales, goal_cases)
  case (1 p crypto cbs dev)
  then show ?case by (simp add: handle_switch_def)
next
  case (2 dev tag body crypto cbs s)
  then show ?case by (cases body) (simp_all add: handle_switch_telegram)
next
  case (3 dev tag body crypto s cbs ok dev' evs)
  then show ?case by (cases body) (auto simp: handle_switch_telegram accepts_def split: if_splits)
next
  case (4 dev tag body crypto cbs s ok dev' evs)
  then show ?case by (cases body) (auto simp: handle_switch_telegram split: if_splits)
next
  case (5 dev tag body crypto cbs s ok dev' evs)
  then show ?case
    by (cases body) (auto simp: handle_switch_telegram call_if_def split: if_splits option.splits)
next
  case (6 dev tag body crypto cbs s ok dev' evs)
  then show ?case
    by (cases body) (auto simp: handle_switch_telegram call_if_def split: if_splits option.splits)
qed

lemma sensor_packet_log_filters [simp]:
  "\<not> is_data_event (sensor_packet_log dev n s)" "\<not> is_commissioned_event (sensor_packet_log dev n s)"
  by (simp_all add: sensor_packet_log_def)

interpretation se: data_handler handle_sensor
proof (unfold_locales, goal_cases)
  case (1 p crypto cbs dev)
  then show ?case by (simp add: handle_sensor_def)
qed (auto simp: handle_sensor_telegram accepts_def call_if_def split: if_splits option.splits)

subsection \<open>Properties of the handlers\<close>

text \<open>
  C19: Which switch telegrams are accepted, exactly: the sequence number is above the stored one,
  the three reserved status bits are clear, the optional data has 0, 1, 2 or 4 bytes, and the
  crypto interface confirms the tag over everything before it under the device's key and the nonce
  of its address and this sequence number. Then, and only then, the handler returns true; it
  stores the sequence number and calls the button callback once with the action, the button bits
  and the optional data of the telegram. Otherwise it returns false and calls no callback.
\<close>

theorem switch_accepts_iff:
  assumes "device_ok dev" and "length tag = k_tag_len"
  shows "if s > seq_num dev \<and> st AND 0xE0 = 0 \<and> length opt \<in> {0, 1, 2, 4} \<and>
        authentic crypto dev s (st # opt) tag
    then handle_switch crypto cbs dev (telegram s (st # opt) tag) =
      Some (True, dev\<lparr>seq_num := s\<rparr>, map Logged (backend_log crypto dev s (st # opt) tag) @
        call_if (button_cb cbs) (\<lambda>f. CallButton f (dev\<lparr>seq_num := s\<rparr>)
        (if bit st 0 then Press else Release) (drop_bit 1 st AND 0x0F)
        (if opt = [] then None else Some opt)))
    else \<exists>dev' log. handle_switch crypto cbs dev (telegram s (st # opt) tag) =
      Some (False, dev', map Logged log)"
proof -
  have "length opt \<le> 4 \<and> length opt \<noteq> 3 \<longleftrightarrow> length opt \<in> {0, 1, 2, 4}"
    unfolding insert_iff empty_iff by arith
  then show ?thesis
    unfolding handle_switch_telegram [OF assms] k_status_reserved_mask_def switch_action_def
      switch_buttons_def
    using logged_append by (auto simp: not_less intro: exI [of _ "[]"] exI [of _ "[_]"])
qed

text \<open>A backend that accepts one tag, for the examples.\<close>

definition tag_backend :: "u8 list \<Rightarrow> crypto_impl" where
  "tag_backend good key nonce aad ct tag out = (tag = good, out, [])"

definition example_switch :: EnoceanDevice where
  "example_switch = default_device\<lparr>ble_addr := \<lparr>ba_addr = [1, 2, 3, 4, 0xDA, 0x03], ba_type = 1\<rparr>,
     dev_key := replicate k_key_len 7, seq_num := 41, dev_type := Switch, active := True\<rparr>"

lemma example_switch_ok: "device_ok example_switch"
  by (simp add: example_switch_def device_ok_def size_constants)

theorem switch_accepts_iff_witness:
  "handle_switch (tag_backend [9, 9, 9, 9]) (no_callbacks\<lparr>button_cb := Some ''on_button''\<rparr>)
      example_switch [42, 0, 0, 0, 0x09, 9, 9, 9, 9] =
    Some (True, example_switch\<lparr>seq_num := 42\<rparr>,
      [CallButton ''on_button'' (example_switch\<lparr>seq_num := 42\<rparr>) Press k_switch_ob None])"
proof -
  have "telegram 42 [0x09] [9, 9, 9, 9] = [42, 0, 0, 0, 0x09, 9, 9, 9, 9]" by code_simp
  moreover have "authentic (tag_backend [9, 9, 9, 9]) example_switch 42 [0x09] [9, 9, 9, 9]"
    "backend_log (tag_backend [9, 9, 9, 9]) example_switch 42 [0x09] [9, 9, 9, 9] = []"
    by code_simp+
  moreover have "seq_num example_switch < 42" "(0x09 :: u8) AND 0xE0 = 0" "bit (0x09 :: u8) 0"
    by code_simp+
  ultimately show ?thesis
    using switch_accepts_iff [OF example_switch_ok, of "[9, 9, 9, 9]" 42 "0x09" "[]"
        "tag_backend [9, 9, 9, 9]" "no_callbacks\<lparr>button_cb := Some ''on_button''\<rparr>"]
    by (simp add: size_constants call_if_def k_switch_ob_def)
qed

text \<open>
  An authentic switch telegram with three bytes of optional data is not reported, yet its
  sequence number is spent: the length is checked after the sequence number is stored.
\<close>

theorem switch_three_optional_bytes:
  assumes "device_ok dev" and "length tag = k_tag_len" and "s > seq_num dev" and "st AND 0xE0 = 0"
    and "authentic crypto dev s [st, o1, o2, o3] tag"
  shows "handle_switch crypto cbs dev (telegram s [st, o1, o2, o3] tag) =
    Some (False, dev\<lparr>seq_num := s\<rparr>, map Logged (backend_log crypto dev s [st, o1, o2, o3] tag))"
  using handle_switch_telegram [OF assms(1,2), of crypto cbs s st "[o1, o2, o3]"] assms(3-)
  by (simp add: k_status_reserved_mask_def)

theorem switch_three_optional_bytes_witness:
  "handle_switch (tag_backend [9, 9, 9, 9]) no_callbacks example_switch
     (telegram 42 [0x03, 1, 2, 3] [9, 9, 9, 9]) = Some (False, example_switch\<lparr>seq_num := 42\<rparr>, [])"
proof -
  have "backend_log (tag_backend [9, 9, 9, 9]) example_switch 42 [0x03, 1, 2, 3] [9, 9, 9, 9] = []"
    "length [9 :: u8, 9, 9, 9] = k_tag_len" "42 > seq_num example_switch" "(0x03 :: u8) AND 0xE0 = 0"
    "authentic (tag_backend [9, 9, 9, 9]) example_switch 42 [0x03, 1, 2, 3] [9, 9, 9, 9]"
    by code_simp+
  then show ?thesis using switch_three_optional_bytes [OF example_switch_ok] by simp
qed

lemma sensor_report_measured: "sensor_report body = measured (tlv_values body)"
  using sensor_report [of body] parse_tlv_reference [of body 0 empty_sensor_data]
  by (simp add: read_report_measured)

text \<open>
  C20: A sensor telegram with any body is accepted exactly when its sequence number is above the
  stored one and the tag verifies. The callback then receives the measurements the value fields of
  the body carry, in the units of \<open>SensorData\<close> and as plain arithmetic on the numbers sent
  (\<open>measured\<close>), and no others, with a null pointer for the optional data. A telegram that is refused
  leaves the device as it was and is only logged.
\<close>

theorem sensor_report_delivered:
  assumes "device_ok dev" and "length tag = k_tag_len" and "body \<noteq> []"
  shows "if s > seq_num dev \<and> authentic crypto dev s body tag
    then handle_sensor crypto cbs dev (telegram s body tag) =
      Some (True, dev\<lparr>seq_num := s\<rparr>,
        sensor_packet_log dev (8 + length body) s # map Logged (backend_log crypto dev s body tag) @
        call_if (sensor_cb cbs) (\<lambda>f. CallSensor f (dev\<lparr>seq_num := s\<rparr>) (measured (tlv_values body)) None))
    else \<exists>log. handle_sensor crypto cbs dev (telegram s body tag) =
      Some (False, dev, map Logged log)"
proof -
  have "length (telegram s body tag) = 8 + length body" using assms(2) by (simp add: size_constants)
  then show ?thesis
    unfolding handle_sensor_telegram [OF assms] sensor_report_measured
    using logged_append(2,3) by (auto simp: sensor_packet_log_def)
qed

definition example_sensor :: EnoceanDevice where
  "example_sensor = default_device\<lparr>ble_addr := \<lparr>ba_addr = [1, 2, 3, 4, 5, 0xE5], ba_type = 1\<rparr>,
     dev_key := replicate k_key_len 5, seq_num := 6, dev_type := Sensor, active := True\<rparr>"

lemma example_sensor_ok: "device_ok example_sensor"
  by (simp add: example_sensor_def device_ok_def size_constants)

theorem sensor_report_delivered_witness:
  "handle_sensor (tag_backend [9, 9, 9, 9]) (no_callbacks\<lparr>sensor_cb := Some ''on_sensor''\<rparr>)
     example_sensor [7, 0, 0, 0, 0x06, 0x64, 9, 9, 9, 9] =
   Some (True, example_sensor\<lparr>seq_num := 7\<rparr>,
     [sensor_packet_log example_sensor 10 7,
      CallSensor ''on_sensor'' (example_sensor\<lparr>seq_num := 7\<rparr>) (empty_sensor_data\<lparr>humidity := Some 50\<rparr>)
        None])"
proof -
  have "telegram 7 [0x06, 0x64] [9, 9, 9, 9] = [7, 0, 0, 0, 0x06, 0x64, 9, 9, 9, 9]" by code_simp
  moreover have "authentic (tag_backend [9, 9, 9, 9]) example_sensor 7 [0x06, 0x64] [9, 9, 9, 9]"
    "backend_log (tag_backend [9, 9, 9, 9]) example_sensor 7 [0x06, 0x64] [9, 9, 9, 9] = []"
    by code_simp+
  moreover have "seq_num example_sensor < 7" by code_simp
  moreover have "tlv_values [0x06, 0x64] = [(0x06, [0x64])]" by code_simp
  then have "measured (tlv_values [0x06, 0x64]) = empty_sensor_data\<lparr>humidity := Some 50\<rparr>"
    by (simp add: measured_def last_value_def last_acceleration_def empty_sensor_data_def)
  moreover have "length [9 :: u8, 9, 9, 9] = k_tag_len" by (simp add: size_constants)
  ultimately show ?thesis
    using sensor_report_delivered [OF example_sensor_ok, of "[9, 9, 9, 9]" "[0x06, 0x64]" 7
        "tag_backend [9, 9, 9, 9]" "no_callbacks\<lparr>sensor_cb := Some ''on_sensor''\<rparr>"]
    by (simp add: call_if_def)
qed

end
