(* ===== verification/Crypto_Posix.thy ===== *)
theory Crypto_Posix
  imports Enocean_Handlers
begin

text \<open>
  The OpenSSL backend (src/platform/posix_core/crypto/Crypto.cpp). OpenSSL's EVP interface is not
  part of the repository: it is the parameter \<open>evp\<close>, a record of the calls the code makes, each
  on a context of an abstract type, with the int it returns. The RAII guard of the context
  (\<open>EvpCtxGuard\<close>) frees it on every path and has no other effect.
\<close>

record 'c evp_api =
  evp_ctx_new :: "'c option"
  evp_init_cipher :: "'c \<Rightarrow> int \<times> 'c"
  evp_set_ivlen :: "int \<Rightarrow> 'c \<Rightarrow> int \<times> 'c"
  evp_set_tag :: "int \<Rightarrow> u8 list \<Rightarrow> 'c \<Rightarrow> int \<times> 'c"
  evp_init_key_iv :: "u8 list \<Rightarrow> u8 list \<Rightarrow> 'c \<Rightarrow> int \<times> 'c"
  evp_update_length :: "int \<Rightarrow> 'c \<Rightarrow> int \<times> 'c"
  evp_update_aad :: "u8 list \<Rightarrow> 'c \<Rightarrow> int \<times> 'c"
  evp_update_data :: "u8 list \<Rightarrow> 'c \<Rightarrow> int \<times> u8 list"

text \<open>
  \<open>evp_update_data\<close> is the call of \<open>EVP_DecryptUpdate\<close> with an output pointer; it returns what
  is written there. Without ciphertext the pointer is a local dummy, so nothing reaches the
  caller's buffer.
\<close>

definition posix_ccm_decrypt ::
    "'c evp_api \<Rightarrow> u8 list \<Rightarrow> u8 list \<Rightarrow> u8 list \<Rightarrow> u8 list \<Rightarrow> u8 list \<Rightarrow> u8 list \<Rightarrow>
      bool \<times> u8 list \<times> log_call list" where
  "posix_ccm_decrypt evp key nonce aad ciphertext tag plaintext =
     (case evp_ctx_new evp of
        None \<Rightarrow> (False, plaintext, [LOGGER_ERROR ''AesCcm: EVP_CIPHER_CTX_new failed'' []])
      | Some ctx \<Rightarrow>
          let (r1, ctx) = evp_init_cipher evp ctx in
          if r1 \<noteq> 1 then (False, plaintext, [])
          else let (r2, ctx) = evp_set_ivlen evp (int (length nonce)) ctx in
          if r2 \<noteq> 1 then (False, plaintext, [])
          else let (r3, ctx) = evp_set_tag evp (int k_tag_len) tag ctx in
          if r3 \<noteq> 1 then (False, plaintext, [])
          else let (r4, ctx) = evp_init_key_iv evp key nonce ctx in
          if r4 \<noteq> 1 then (False, plaintext, [])
          else let (r5, ctx) = evp_update_length evp (int (length ciphertext)) ctx in
          if r5 \<noteq> 1 then (False, plaintext, [])
          else let (r6, ctx) = (if aad \<noteq> [] then evp_update_aad evp aad ctx else (1, ctx)) in
          if r6 \<noteq> 1 then (False, plaintext, [])
          else if ciphertext \<noteq> [] \<and> length plaintext < length ciphertext then
            (False, plaintext, [LOGGER_ERROR ''AesCcm: plaintext buffer too small'' []])
          else let (ret, out) = evp_update_data evp ciphertext ctx in
            (ret \<ge> 0, if ciphertext = [] then plaintext else copy_front out plaintext, []))"

text \<open>The backend as the driver sees it, with what it logs.\<close>

definition posix_backend :: "'c evp_api \<Rightarrow> crypto_impl" where
  "posix_backend evp = posix_ccm_decrypt evp"

subsection \<open>What the calls before the last one do\<close>

text \<open>The context when the last call is made, if every call before it returns 1.\<close>

definition posix_setup ::
    "'c evp_api \<Rightarrow> u8 list \<Rightarrow> u8 list \<Rightarrow> u8 list \<Rightarrow> nat \<Rightarrow> u8 list \<Rightarrow> 'c option" where
  "posix_setup evp key nonce aad n tag =
     do {
       c0 \<leftarrow> evp_ctx_new evp;
       let one = (\<lambda>(r, c). if r = (1 :: int) then Some c else None);
       c1 \<leftarrow> one (evp_init_cipher evp c0);
       c2 \<leftarrow> one (evp_set_ivlen evp (int (length nonce)) c1);
       c3 \<leftarrow> one (evp_set_tag evp (int k_tag_len) tag c2);
       c4 \<leftarrow> one (evp_init_key_iv evp key nonce c3);
       c5 \<leftarrow> one (evp_update_length evp (int n) c4);
       (if aad \<noteq> [] then one (evp_update_aad evp aad c5) else Some c5)
     }"

lemma posix_verdict:
  "fst (posix_ccm_decrypt evp key nonce aad ct tag out) \<longleftrightarrow>
     (\<exists>ctx. posix_setup evp key nonce aad (length ct) tag = Some ctx \<and>
        (ct = [] \<or> length ct \<le> length out) \<and> 0 \<le> fst (evp_update_data evp ct ctx))"
  by (auto simp: posix_ccm_decrypt_def posix_setup_def Let_def not_less
      split: option.splits prod.splits if_splits)

lemma posix_auth_only: "fst (snd (posix_ccm_decrypt evp key nonce aad [] tag out)) = out"
  by (simp add: posix_ccm_decrypt_def Let_def split: option.splits prod.splits)

interpretation px: aead_backend "posix_backend evp"
  by unfold_locales (simp add: posix_backend_def posix_auth_only)

text \<open>What it logs about a tag: nothing, unless OpenSSL has no memory for a context.\<close>

lemma posix_log:
  "snd (snd (posix_backend evp key nonce aad [] tag out)) =
     (if evp_ctx_new evp = None then [LOGGER_ERROR ''AesCcm: EVP_CIPHER_CTX_new failed'' []] else [])"
  by (auto simp: posix_backend_def posix_ccm_decrypt_def Let_def split: option.splits prod.splits)

lemma posix_accepts_quietly:
  "fst (posix_backend evp key nonce aad [] tag out) \<Longrightarrow> snd (snd (posix_backend evp key nonce aad [] tag out)) = []"
  by (cases "evp_ctx_new evp") (simp_all add: posix_log, simp add: posix_backend_def posix_ccm_decrypt_def)

subsection \<open>Properties\<close>

text \<open>
  What the OpenSSL backend authenticates: it accepts exactly when every call that sets up the
  cipher, the nonce length, the tag, key and nonce, the data length and the associated data
  returns 1, the output buffer holds the plaintext, and the last call of \<open>EVP_DecryptUpdate\<close>
  returns a value that is not negative; a call without ciphertext writes nothing.
\<close>

theorem posix_accepts_iff:
  "(fst (posix_backend evp key nonce aad ct tag out) \<longleftrightarrow>
     (\<exists>ctx. posix_setup evp key nonce aad (length ct) tag = Some ctx \<and>
        (ct = [] \<or> length ct \<le> length out) \<and> 0 \<le> fst (evp_update_data evp ct ctx))) \<and>
   fst (snd (posix_backend evp key nonce aad [] tag out)) = out"
  using posix_verdict [of evp key nonce aad ct tag out] posix_auth_only [of evp key nonce aad tag out]
  by (simp add: posix_backend_def)

text \<open>
  The check of the last return value accepts forgeries. OpenSSL's manual documents 1 for
  success and 0 for failure of \<open>EVP_DecryptUpdate\<close>, and never a negative value. For such a
  library, and a device whose key and nonce it can set up, the switch handler reports every
  telegram with a larger sequence number, whatever its four tag bytes are and whatever the library
  said about them.
\<close>

theorem posix_forgery_reported:
  assumes "device_ok dev" and "length tag = 4" and "s > seq_num dev" and "st AND 0xE0 = 0"
    and "posix_setup evp (dev_key dev) (ba_addr (ble_addr dev) @ seq_bytes s @ [0, 0, 0])
      (seq_bytes s @ [st]) 0 tag = Some ctx"
    and "fst (evp_update_data evp [] ctx) \<in> {0, 1}"
  shows "handle_switch (posix_backend evp) cbs dev (telegram s [st] tag) =
    Some (True, dev\<lparr>seq_num := s\<rparr>, call_if (button_cb cbs) (\<lambda>f. CallButton f (dev\<lparr>seq_num := s\<rparr>)
      (if bit st 0 then Press else Release) (drop_bit 1 st AND 0x0F) None))"
proof -
  have "fst (posix_backend evp (dev_key dev) (ba_addr (ble_addr dev) @ seq_bytes s @ [0, 0, 0])
      (seq_bytes s @ [st]) [] tag [])"
    using posix_verdict [of evp "dev_key dev" "ba_addr (ble_addr dev) @ seq_bytes s @ [0, 0, 0]"
        "seq_bytes s @ [st]" "[]" tag "[]"] assms(5,6)
    by (auto simp: posix_backend_def)
  then have "authentic (posix_backend evp) dev s [st] tag" "backend_log (posix_backend evp) dev s [st] tag = []"
    using assms(1) posix_accepts_quietly
    by (simp_all add: authentic_def backend_log_def aes_ccm_decrypt_dispatch device_ok_def size_constants)
  then show ?thesis
    using handle_switch_telegram [OF assms(1), of tag "posix_backend evp" cbs s st "[]"] assms(2-4)
    by (simp add: size_constants k_status_reserved_mask_def switch_action_def switch_buttons_def)
qed

text \<open>A library that sets up everything and then reports, as documented, that the tag is wrong.\<close>

definition rejecting_evp :: "unit evp_api" where
  "rejecting_evp = \<lparr>evp_ctx_new = Some (), evp_init_cipher = (\<lambda>c. (1, c)),
     evp_set_ivlen = (\<lambda>n c. (1, c)), evp_set_tag = (\<lambda>n t c. (1, c)),
     evp_init_key_iv = (\<lambda>k n c. (1, c)), evp_update_length = (\<lambda>n c. (1, c)),
     evp_update_aad = (\<lambda>a c. (1, c)), evp_update_data = (\<lambda>ct c. (0, []))\<rparr>"

theorem posix_forgery_reported_witness:
  "handle_switch (posix_backend rejecting_evp) (no_callbacks\<lparr>button_cb := Some ''on_button''\<rparr>)
     example_switch (telegram 42 [0x03] [0xDE, 0xAD, 0xBE, 0xEF]) =
   Some (True, example_switch\<lparr>seq_num := 42\<rparr>,
     [CallButton ''on_button'' (example_switch\<lparr>seq_num := 42\<rparr>) Press 1 None])"
proof -
  have "posix_setup rejecting_evp (dev_key example_switch)
      (ba_addr (ble_addr example_switch) @ seq_bytes 42 @ [0, 0, 0]) (seq_bytes 42 @ [0x03]) 0
      [0xDE, 0xAD, 0xBE, 0xEF] = Some ()"
    by (simp add: posix_setup_def rejecting_evp_def)
  moreover have "fst (evp_update_data rejecting_evp [] ()) \<in> {0, 1}" by (simp add: rejecting_evp_def)
  moreover have "seq_num example_switch < 42" "(0x03 :: u8) AND 0xE0 = 0"
    "length [0xDE :: u8, 0xAD, 0xBE, 0xEF] = 4"
    by code_simp+
  moreover have "bit (0x03 :: u8) 0" "drop_bit 1 (0x03 :: u8) AND 0x0F = 1" by code_simp+
  ultimately show ?thesis
    using posix_forgery_reported [OF example_switch_ok, of "[0xDE, 0xAD, 0xBE, 0xEF]" 42 "0x03"
        rejecting_evp "()" "no_callbacks\<lparr>button_cb := Some ''on_button''\<rparr>"]
    by (simp add: call_if_def del: insert_iff)
qed

end
