(* ===== verification/Enocean_Table.thy ===== *)
theory Enocean_Table
  imports Enocean_Handlers
begin

text \<open>
  The device table of the driver (\<open>devices_\<close> in src/enocean/EnoceanDriver.hpp): when it is
  well-formed, what \<open>find_device\<close> and \<open>allocate_device\<close> return on it, and the contract
  \<open>device_store\<close> of a bounded table with one entry per address, interpreted on it.
\<close>

subsection \<open>Well-formed tables\<close>

text \<open>
  Eight slots with arrays of the declared sizes, and no address twice among the active ones.
\<close>

definition table_ok :: "EnoceanDevice list \<Rightarrow> bool" where
  "table_ok devs \<longleftrightarrow> length devs = k_max_devices \<and> (\<forall>d \<in> set devs. device_ok d) \<and>
     (\<forall>i < length devs. \<forall>j < length devs. active (devs ! i) \<and> active (devs ! j) \<and>
        ba_addr (ble_addr (devs ! i)) = ba_addr (ble_addr (devs ! j)) \<longrightarrow> i = j)"

definition lookup :: "EnoceanDevice list \<Rightarrow> u8 list \<Rightarrow> EnoceanDevice option" where
  "lookup devs addr = map_option (\<lambda>i. devs ! i) (find_device devs addr)"

abbreviation dev_addr :: "EnoceanDevice \<Rightarrow> u8 list" where
  "dev_addr d \<equiv> ba_addr (ble_addr d)"

text \<open>The slot a device is written to: its own, or else the first free one.\<close>

definition slot_for :: "EnoceanDevice list \<Rightarrow> u8 list \<Rightarrow> nat option" where
  "slot_for devs addr =
     (case find_device devs addr of Some i \<Rightarrow> Some i | None \<Rightarrow> allocate_device devs)"

definition store_device :: "EnoceanDevice list \<Rightarrow> EnoceanDevice \<Rightarrow> EnoceanDevice list option" where
  "store_device devs d = map_option (\<lambda>i. devs[i := d]) (slot_for devs (dev_addr d))"

lemma table_okD:
  assumes "table_ok devs"
  shows "length devs = k_max_devices" and "d \<in> set devs \<Longrightarrow> device_ok d"
    and "i < length devs \<Longrightarrow> j < length devs \<Longrightarrow> active (devs ! i) \<Longrightarrow> active (devs ! j) \<Longrightarrow>
      dev_addr (devs ! i) = dev_addr (devs ! j) \<Longrightarrow> i = j"
  using assms by (auto simp: table_ok_def)

lemma dev_addr_length: "table_ok devs \<Longrightarrow> i < length devs \<Longrightarrow> length (dev_addr (devs ! i)) = k_addr_len"
  using table_okD(2) nth_mem by (fastforce simp: device_ok_def)

lemma find_device_SomeD:
  assumes "table_ok devs" and "length addr = k_addr_len" and "find_device devs addr = Some i"
  shows "i < length devs" and "active (devs ! i)" and "dev_addr (devs ! i) = addr"
  using find_index_SomeD(1,2) [OF assms(3) [unfolded find_device_def]]
    dev_addr_length [OF assms(1), of i] assms(2)
  by auto

lemma find_device_eqI:
  assumes ok: "table_ok devs" and i: "i < length devs" "active (devs ! i)" "dev_addr (devs ! i) = addr"
  shows "find_device devs addr = Some i"
proof -
  let ?p = "\<lambda>dev. active dev \<and> take (length addr) (dev_addr dev) = addr"
  have len: "length addr = k_addr_len" using dev_addr_length [OF ok i(1)] i(3) by simp
  have pi: "?p (devs ! i)" using i(2,3) by simp
  have uniq: "k = i" if k: "k < length devs" "?p (devs ! k)" for k
  proof -
    have "dev_addr (devs ! k) = addr" using k(2) dev_addr_length [OF ok k(1)] len by simp
    then show ?thesis using table_okD(3) [OF ok k(1) i(1)] k(2) i(2,3) by simp
  qed
  show ?thesis
    unfolding find_device_def by (rule find_index_unique [where p = ?p, OF i(1) pi uniq])
qed

lemma lookup_SomeD:
  assumes "table_ok devs" and "length addr = k_addr_len" and "lookup devs addr = Some d"
  shows "active d" and "dev_addr d = addr" and "d \<in> set devs" and "device_ok d"
proof -
  obtain i where i: "find_device devs addr = Some i" "d = devs ! i"
    using assms(3) by (auto simp: lookup_def)
  note F = find_device_SomeD [OF assms(1,2) i(1)]
  show "active d" "dev_addr d = addr" "d \<in> set devs" using F i(2) by simp_all
  then show "device_ok d" using table_okD(2) [OF assms(1)] by blast
qed

lemma lookup_nth:
  "table_ok devs \<Longrightarrow> i < length devs \<Longrightarrow> active (devs ! i) \<Longrightarrow>
     lookup devs (dev_addr (devs ! i)) = Some (devs ! i)"
  by (simp add: lookup_def find_device_eqI)

lemma lookup_mem: "table_ok devs \<Longrightarrow> d \<in> set devs \<Longrightarrow> active d \<Longrightarrow> lookup devs (dev_addr d) = Some d"
  by (auto simp: in_set_conv_nth lookup_nth)

lemma lookup_iff:
  assumes "table_ok devs" and "length addr = k_addr_len"
  shows "lookup devs addr = Some d \<longleftrightarrow> d \<in> set devs \<and> active d \<and> dev_addr d = addr"
  using lookup_SomeD [OF assms, of d] lookup_mem [OF assms(1), of d] by blast

lemma lookup_None_iff:
  assumes "table_ok devs" and "length addr = k_addr_len"
  shows "lookup devs addr = None \<longleftrightarrow> (\<forall>d \<in> set devs. active d \<longrightarrow> dev_addr d \<noteq> addr)"
  using lookup_iff [OF assms] by (metis not_None_eq)

subsection \<open>Writing a slot\<close>

lemma slot_for_SomeD:
  assumes "table_ok devs" and "length addr = k_addr_len" and "slot_for devs addr = Some i"
  shows "i < length devs" and "active (devs ! i) \<longleftrightarrow> lookup devs addr \<noteq> None"
    and "active (devs ! i) \<Longrightarrow> dev_addr (devs ! i) = addr"
proof -
  show "i < length devs" "active (devs ! i) \<longleftrightarrow> lookup devs addr \<noteq> None"
    "active (devs ! i) \<Longrightarrow> dev_addr (devs ! i) = addr"
    using assms(3) find_device_SomeD [OF assms(1,2)]
      find_index_SomeD [of "\<lambda>d. \<not> active d" devs i]
    by (auto simp: slot_for_def allocate_device_def lookup_def split: option.splits)
qed

lemma store_SomeD:
  assumes ok: "table_ok devs" "device_ok d" "active d" and s: "store_device devs d = Some devs'"
  obtains i where "slot_for devs (dev_addr d) = Some i" "devs' = devs[i := d]" "i < length devs"
    "\<And>j. j < length devs \<Longrightarrow> j \<noteq> i \<Longrightarrow> active (devs ! j) \<Longrightarrow> dev_addr (devs ! j) \<noteq> dev_addr d"
proof -
  obtain i where i: "slot_for devs (dev_addr d) = Some i" "devs' = devs[i := d]"
    using s by (auto simp: store_device_def)
  have len: "length (dev_addr d) = k_addr_len" using ok(2) by (simp add: device_ok_def)
  note S = slot_for_SomeD [OF ok(1) len i(1)]
  have "dev_addr (devs ! j) \<noteq> dev_addr d" if j: "j < length devs" "j \<noteq> i" "active (devs ! j)" for j
  proof
    assume a: "dev_addr (devs ! j) = dev_addr d"
    then have "lookup devs (dev_addr d) = Some (devs ! j)"
      using lookup_nth [OF ok(1) j(1,3)] by simp
    then have "active (devs ! i)" "dev_addr (devs ! i) = dev_addr d" using S by auto
    then show False using table_okD(3) [OF ok(1) S(1) j(1)] j(2,3) a by auto
  qed
  then show ?thesis using that i S(1) by blast
qed

lemma store_ok:
  assumes ok: "table_ok devs" "device_ok d" "active d" and s: "store_device devs d = Some devs'"
  shows "table_ok devs'"
proof -
  obtain i where i: "devs' = devs[i := d]" "i < length devs"
    "\<And>j. j < length devs \<Longrightarrow> j \<noteq> i \<Longrightarrow> active (devs ! j) \<Longrightarrow> dev_addr (devs ! j) \<noteq> dev_addr d"
    using store_SomeD [OF ok s] by metis
  have "set devs' \<subseteq> insert d (set devs)" using i(1) set_update_subset_insert by simp
  then have "\<forall>x \<in> set devs'. device_ok x" using ok(2) table_okD(2) [OF ok(1)] by auto
  moreover have "k = j" if "k < length devs'" "j < length devs'"
    "active (devs' ! k)" "active (devs' ! j)" "dev_addr (devs' ! k) = dev_addr (devs' ! j)" for k j
    using that i(2) i(3) [of k] i(3) [of j] table_okD(3) [OF ok(1), of k j]
    by (auto simp: i(1) nth_list_update split: if_splits)
  ultimately show ?thesis
    using table_okD(1) [OF ok(1)] by (auto simp: table_ok_def i(1))
qed

lemma store_lookup:
  assumes ok: "table_ok devs" "device_ok d" "active d" and s: "store_device devs d = Some devs'"
    and len: "length addr = k_addr_len"
  shows "lookup devs' addr = (if addr = dev_addr d then Some d else lookup devs addr)"
proof -
  obtain i where i: "slot_for devs (dev_addr d) = Some i" "devs' = devs[i := d]" "i < length devs"
    "\<And>j. j < length devs \<Longrightarrow> j \<noteq> i \<Longrightarrow> active (devs ! j) \<Longrightarrow> dev_addr (devs ! j) \<noteq> dev_addr d"
    using store_SomeD [OF ok s] by metis
  have ok': "table_ok devs'" using store_ok [OF ok s] .
  have d: "d \<in> set devs'" using i(2,3) by (simp add: set_update_memI)
  have lend: "length (dev_addr d) = k_addr_len" using ok(2) by (simp add: device_ok_def)
  have old: "x \<in> set devs' \<longleftrightarrow> x \<in> set devs" if x: "active x" "dev_addr x \<noteq> dev_addr d" for x
  proof -
    have "x \<noteq> devs ! i"
      using x slot_for_SomeD(3) [OF ok(1) lend i(1)] by metis
    then show ?thesis
      using x i(2,3) by (auto simp: in_set_conv_nth nth_list_update)
  qed
  show ?thesis
  proof (cases "addr = dev_addr d")
    case True
    then show ?thesis using lookup_mem [OF ok' d ok(3)] by simp
  next
    case False
    then have "lookup devs' addr = Some x \<longleftrightarrow> lookup devs addr = Some x" for x
      using lookup_iff [OF ok' len] lookup_iff [OF ok(1) len] old by auto
    then show ?thesis using False by (metis option.exhaust)
  qed
qed

lemma store_None_iff:
  assumes "table_ok devs" and "device_ok d"
  shows "store_device devs d = None \<longleftrightarrow>
    lookup devs (dev_addr d) = None \<and> (\<forall>x \<in> set devs. active x)"
  by (auto simp: store_device_def slot_for_def lookup_def allocate_device_def find_index_None_iff
      split: option.splits)

subsection \<open>The store contract\<close>

text \<open>
  A table of bounded capacity with one entry per key: what a client may use after a write, and
  when a write is refused.
\<close>

locale device_store =
  fixes inv :: "'t \<Rightarrow> bool" and item_ok :: "'v \<Rightarrow> bool" and key_ok :: "'k \<Rightarrow> bool"
    and key_of :: "'v \<Rightarrow> 'k" and get :: "'t \<Rightarrow> 'k \<Rightarrow> 'v option" and put :: "'t \<Rightarrow> 'v \<Rightarrow> 't option"
    and full :: "'t \<Rightarrow> bool"
  assumes put_inv: "inv t \<Longrightarrow> item_ok v \<Longrightarrow> put t v = Some t' \<Longrightarrow> inv t'"
    and get_put: "inv t \<Longrightarrow> item_ok v \<Longrightarrow> put t v = Some t' \<Longrightarrow> key_ok k \<Longrightarrow>
      get t' k = (if k = key_of v then Some v else get t k)"
    and put_None: "inv t \<Longrightarrow> item_ok v \<Longrightarrow> put t v = None \<longleftrightarrow> get t (key_of v) = None \<and> full t"
    and get_key: "inv t \<Longrightarrow> key_ok k \<Longrightarrow> get t k = Some v \<Longrightarrow> key_of v = k \<and> item_ok v"
begin

lemma put_existing:
  assumes "inv t" and "item_ok v" and "get t (key_of v) \<noteq> None"
  shows "\<exists>t'. put t v = Some t'"
  using put_None [OF assms(1,2)] assms(3) by (cases "put t v") auto

lemma put_frame:
  "inv t \<Longrightarrow> item_ok v \<Longrightarrow> put t v = Some t' \<Longrightarrow> key_ok k \<Longrightarrow> k \<noteq> key_of v \<Longrightarrow> get t' k = get t k"
  by (simp add: get_put)

lemma put_map:
  assumes "inv t" and "item_ok v" and "put t v = Some t'" and "key_ok (key_of v)"
  shows "(\<lambda>k. if key_ok k then get t' k else None) =
    (\<lambda>k. if key_ok k then get t k else None)(key_of v \<mapsto> v)"
  using assms(4) by (auto simp: fun_eq_iff get_put [OF assms(1-3)])

end

interpretation tab: device_store table_ok "\<lambda>d. device_ok d \<and> active d"
    "\<lambda>addr. length addr = k_addr_len" dev_addr lookup store_device "\<lambda>devs. \<forall>x \<in> set devs. active x"
  by unfold_locales (auto simp: store_lookup store_None_iff intro: store_ok dest: lookup_SomeD)

subsection \<open>Counting\<close>

lemma fold_count: "fold (\<lambda>d n. if p d then n + 1 else n) xs k = k + length (filter p xs)"
  by (induction xs arbitrary: k) simp_all

lemma device_count_eq: "device_count drv = length (filter active (drv_devices drv))"
  using fold_count [of active "drv_devices drv" 0] by (simp add: device_count_def)

lemma empty_table_ok: "table_ok (replicate k_max_devices default_device)"
  by (auto simp: table_ok_def)

lemma empty_lookup: "lookup (replicate n default_device) addr = None"
  by (auto simp: lookup_def find_device_def find_index_None_iff)

lemma count_as_indices: "length (filter active devs) = card {i. i < length devs \<and> active (devs ! i)}"
  by (rule length_filter_conv_card)

text \<open>The table as a map from the addresses of its active devices.\<close>

definition table_map :: "EnoceanDevice list \<Rightarrow> u8 list \<rightharpoonup> EnoceanDevice" where
  "table_map devs = (\<lambda>addr. if length addr = k_addr_len then lookup devs addr else None)"

lemma table_map_SomeD:
  assumes "table_ok devs" and "table_map devs addr = Some d"
  shows "active d" and "dev_addr d = addr" and "device_ok d" and "length addr = k_addr_len"
    and "lookup devs addr = Some d"
  using assms lookup_SomeD [OF assms(1), of addr d] by (auto simp: table_map_def split: if_splits)

lemma table_map_store:
  assumes "table_ok devs" and "device_ok d" and "active d" and "store_device devs d = Some devs'"
  shows "table_map devs' = (table_map devs)(dev_addr d \<mapsto> d)"
  using tab.put_map [of devs d devs'] assms by (simp add: table_map_def device_ok_def)

lemma dom_table_map:
  assumes ok: "table_ok devs"
  shows "dom (table_map devs) = (\<lambda>i. dev_addr (devs ! i)) ` {i. i < length devs \<and> active (devs ! i)}"
proof (intro set_eqI iffI)
  fix addr
  assume "addr \<in> dom (table_map devs)"
  then obtain d where "table_map devs addr = Some d" by blast
  from table_map_SomeD [OF ok this] lookup_SomeD(3) [OF ok]
  have "d \<in> set devs" "active d" "dev_addr d = addr" by auto
  then show "addr \<in> (\<lambda>i. dev_addr (devs ! i)) ` {i. i < length devs \<and> active (devs ! i)}"
    by (auto simp: in_set_conv_nth)
next
  fix addr
  assume "addr \<in> (\<lambda>i. dev_addr (devs ! i)) ` {i. i < length devs \<and> active (devs ! i)}"
  then show "addr \<in> dom (table_map devs)"
    using lookup_nth [OF ok] dev_addr_length [OF ok] by (auto simp: table_map_def)
qed

lemma card_table_map:
  assumes ok: "table_ok devs"
  shows "card (dom (table_map devs)) = length (filter active devs)"
  unfolding dom_table_map [OF ok] count_as_indices
  by (rule card_image) (auto intro!: inj_onI table_okD(3) [OF ok])

lemma full_iff_count:
  assumes "table_ok devs"
  shows "(\<forall>d \<in> set devs. active d) \<longleftrightarrow> length (filter active devs) = k_max_devices"
proof -
  have "length (filter active devs) = length devs \<longleftrightarrow> (\<forall>d \<in> set devs. active d)"
    by (metis filter_True length_filter_less nat_less_le)
  then show ?thesis using table_okD(1) [OF assms] by simp
qed

lemma count_bound: "table_ok devs \<Longrightarrow> length (filter active devs) \<le> k_max_devices"
  using table_okD(1) length_filter_le by metis

lemma table_map_empty [simp]: "table_map (replicate n default_device) = Map.empty"
  by (simp add: table_map_def empty_lookup fun_eq_iff)

end
