(* ===== verification/Enocean_Machine.thy ===== *)
theory Enocean_Machine
  imports Enocean_Table
begin

text \<open>
  The driver as a state machine: what an advertisement does in terms of the device table, runs of
  public calls, the abstract driver (the contract without tables, bytes and logs), and the
  simulation between the two. The properties are in Enocean_Safety.
\<close>

subsection \<open>The outcomes of an advertisement\<close>

text \<open>What a commissioning payload holds: the sequence number and the key, or nothing usable.\<close>

definition commission_fields :: "u8 list \<Rightarrow> u8 list \<Rightarrow> (u32 \<times> u8 list) option" where
  "commission_fields addr p =
     (let stm = (length p = 27 \<and> p ! 4 = 0x3E); off = (if stm then 5 else 4)
      in if (detect_device_type addr = Sensor \<and> \<not> stm) \<or> off + k_key_len > length p then None
         else map_option (\<lambda>s. (s, take k_key_len (drop off p))) (read_seq p))"

definition new_device :: "u8 list \<Rightarrow> u8 \<Rightarrow> i8 \<Rightarrow> u32 \<Rightarrow> u8 list \<Rightarrow> EnoceanDevice" where
  "new_device addr addr_type rssi s key =
     \<lparr>ble_addr = \<lparr>ba_addr = addr, ba_type = addr_type\<rparr>, dev_key = key, seq_num = s, dev_rssi = rssi,
      dev_type = detect_device_type addr, active = True\<rparr>"

lemma new_device_simps [simp]:
  "dev_addr (new_device addr aty rssi s key) = addr" "active (new_device addr aty rssi s key)"
  "seq_num (new_device addr aty rssi s key) = s" "dev_key (new_device addr aty rssi s key) = key"
  by (simp_all add: new_device_def)

lemma commission_fields_SomeD:
  "commission_fields addr p = Some (s, key) \<Longrightarrow> length key = k_key_len \<and> read_seq p = Some s"
  by (auto simp: commission_fields_def Let_def split: if_splits)

definition full_log :: driver_event where
  "full_log = Logged (LOGGER_ERROR ''EnoceanDriver: device table full, cannot commission'' [])"

definition commissioned_log :: "u8 list \<Rightarrow> driver_event" where
  "commissioned_log addr = Logged (LOGGER_NOTICE (''EnoceanDriver: device commissioned '' @
     ''%02hhX:%02hhX:%02hhX:%02hhX:%02hhX:%02hhX'') (map (\<lambda>a. ArgInt (uint a)) (rev addr)))"

lemma overwrite_device:
  "(d :: EnoceanDevice)\<lparr>active := a, seq_num := s, dev_rssi := r, dev_type := ty, ble_addr := b,
     dev_key := k\<rparr> =
   \<lparr>ble_addr = b, dev_key = k, seq_num = s, dev_rssi = r, dev_type = ty, active = a\<rparr>"
  by (cases d) simp

lemma handle_commissioning_unknown:
  assumes ok: "table_ok (drv_devices drv)" and len: "length addr = k_addr_len"
    and new: "lookup (drv_devices drv) addr = None" and p: "k_commissioning_payload_min \<le> length p"
  shows "handle_commissioning drv addr aty rssi p = Some (
     case commission_fields addr p of
       None \<Rightarrow> (False, drv, [])
     | Some (s, key) \<Rightarrow>
         (case store_device (drv_devices drv) (new_device addr aty rssi s key) of
            None \<Rightarrow> (False, drv, [full_log])
          | Some devs \<Rightarrow> (True, drv\<lparr>drv_devices := devs\<rparr>, commissioned_log addr #
              call_if (commissioned_cb (drv_callbacks drv))
                (\<lambda>f. CallCommissioned f (new_device addr aty rssi s key)))))"
proof -
  have n: "find_device (drv_devices drv) addr = None" using new by (simp add: lookup_def)
  have l: "22 \<le> length p" using p by (simp add: payload_constants)
  obtain s where s: "read_seq p = Some s" using read_seq_total [of p] l by auto
  have m: "rd p 4 = Some (p ! 4)" using l by (simp add: rd_def)
  have slot: "slot_for (drv_devices drv) addr = allocate_device (drv_devices drv)"
    by (simp add: slot_for_def n)
  have dev: "rd (drv_devices drv) i = Some (drv_devices drv ! i)"
      "length (dev_addr (drv_devices drv ! i)) = k_addr_len"
      "length (dev_key (drv_devices drv ! i)) = k_key_len"
    if "allocate_device (drv_devices drv) = Some i" for i
  proof -
    have "i < length (drv_devices drv)"
      using find_index_SomeD(1) [OF that [unfolded allocate_device_def]] .
    then show "rd (drv_devices drv) i = Some (drv_devices drv ! i)"
      "length (dev_addr (drv_devices drv ! i)) = k_addr_len"
      "length (dev_key (drv_devices drv ! i)) = k_key_len"
      using table_okD(2) [OF ok nth_mem] by (auto simp: span_simps device_ok_def)
  qed
  have sub: "subspan p off k_key_len = Some (take k_key_len (drop off p))"
    if "\<not> off + k_key_len > length p" for off
    using that by (simp add: subspan_def)
  have lk: "length (take k_key_len (drop off p)) = k_key_len" if "\<not> off + k_key_len > length p" for off
    using that by simp
  show ?thesis
    using p
    by (auto simp: handle_commissioning_def s m n dev sub lk len slot addr_args_eq [OF len] Let_def
        commission_fields_def store_device_def new_device_def overwrite_device full_log_def commissioned_log_def
        k_key_offset_def k_stm_commissioning_payload_len_def k_stm_commissioning_marker_def
        split: option.split)
qed

definition handler_of :: "EnoceanDevice \<Rightarrow> telegram_handler" where
  "handler_of d = (if dev_type d = Switch then handle_switch else handle_sensor)"

text \<open>An advertisement the driver looks at at all, with its payload.\<close>

definition relevant :: "EnoceanDriver \<Rightarrow> u8 list \<Rightarrow> u8 \<Rightarrow> u8 \<Rightarrow> u8 list \<Rightarrow> u8 list \<Rightarrow> bool" where
  "relevant drv addr aty adv data p \<longleftrightarrow>
     drv_initialised drv \<and> length addr = k_addr_len \<and> adv = k_adv_nonconn_ind \<and> aty = k_addr_random \<and>
     extract_manufacturer_data data = Some p \<and> k_data_payload_min \<le> length p"

lemma process_irrelevant:
  assumes "\<nexists>p. relevant drv addr aty adv data p"
    and "process_advertisement crypto drv addr aty adv rssi data = Some (drv', evs)"
  shows "drv' = drv \<and> evs = []"
  using assms unfolding process_advertisement_def
  by (auto simp: relevant_def split: if_splits bind_splits)

lemma process_relevant:
  assumes "relevant drv addr aty adv data p"
  shows "process_advertisement crypto drv addr aty adv rssi data =
    (case find_device (drv_devices drv) addr of
       Some i \<Rightarrow> do {
         d \<leftarrow> rd (drv_devices drv) i;
         call_handler (handler_of d) crypto
           (drv\<lparr>drv_devices := (drv_devices drv)[i := d\<lparr>dev_rssi := rssi\<rparr>]\<rparr>) i p
       }
     | None \<Rightarrow>
         if k_commissioning_payload_min \<le> length p \<and> drv_commissioning drv
         then map_option snd (handle_commissioning drv addr aty rssi p)
         else Some (drv, []))"
proof -
  have "p \<noteq> []" using assms by (auto simp: relevant_def payload_constants)
  then show ?thesis
    using assms
    unfolding process_advertisement_def relevant_def
    by (cases "find_device (drv_devices drv) addr"; cases "rd (drv_devices drv)
          (the (find_device (drv_devices drv) addr))";
        cases "handle_commissioning drv addr aty rssi p")
      (auto simp: Let_def handler_of_def)
qed

lemma process_known:
  assumes ok: "table_ok (drv_devices drv)" and r: "relevant drv addr aty adv data p"
    and d: "lookup (drv_devices drv) addr = Some d"
    and h: "handler_of d crypto (drv_callbacks drv) (d\<lparr>dev_rssi := rssi\<rparr>) p = Some (ret, d', evs)"
    and d': "dev_addr d' = addr"
  shows "\<exists>devs. store_device (drv_devices drv) d' = Some devs \<and>
     process_advertisement crypto drv addr aty adv rssi data = Some (drv\<lparr>drv_devices := devs\<rparr>, evs)"
proof -
  obtain i where i: "find_device (drv_devices drv) addr = Some i" "d = drv_devices drv ! i"
    using d by (auto simp: lookup_def)
  have len: "length addr = k_addr_len" using r by (simp add: relevant_def)
  have lt: "i < length (drv_devices drv)" using find_device_SomeD(1) [OF ok len i(1)] .
  have "store_device (drv_devices drv) d' = Some ((drv_devices drv)[i := d'])"
    by (simp add: store_device_def slot_for_def d' i(1))
  moreover have "process_advertisement crypto drv addr aty adv rssi data =
      Some (drv\<lparr>drv_devices := (drv_devices drv)[i := d']\<rparr>, evs)"
    using h lt by (simp add: process_relevant [OF r] i call_handler_def rd_def)
  ultimately show ?thesis by simp
qed

lemma handler_outcome:
  assumes "device_ok d" and "handler_of d0 crypto cbs d p = Some (r, d', evs)"
  obtains (refusal) "d' = d" "filter is_data_event evs = []" "filter is_commissioned_event evs = []"
  | (acceptance) s body tag where "p = telegram s body tag" "length tag = k_tag_len"
      "accepts crypto d s body tag" "d' = d\<lparr>seq_num := s\<rparr>" "filter is_commissioned_event evs = []"
      "filter is_data_event evs = [] \<or>
       (\<exists>e. filter is_data_event evs = [e] \<and> event_device e = Some d')"
proof (cases "dev_type d0 = Switch")
  case True
  then have "handle_switch crypto cbs d p = Some (r, d', evs)"
    using assms(2) by (simp add: handler_of_def)
  then show ?thesis by (rule sw.outcome [OF assms(1)]) (fact refusal, fact acceptance)
next
  case False
  then have "handle_sensor crypto cbs d p = Some (r, d', evs)"
    using assms(2) by (simp add: handler_of_def)
  then show ?thesis by (rule se.outcome [OF assms(1)]) (fact refusal, fact acceptance)
qed

lemma handler_returns:
  "device_ok d \<Longrightarrow> \<exists>r d' evs. handler_of d0 crypto cbs d p = Some (r, d', evs)"
  using sw.returns se.returns by (simp add: handler_of_def)

text \<open>
  The events of a handler: log lines of its own and of the backend, and at most a report of the
  kind of the device.
\<close>

definition from_driver :: "log_call \<Rightarrow> bool" where
  "from_driver l = (case l of LogCall sev fmt args \<Rightarrow> take 15 fmt = ''EnoceanDriver: '')"

definition driver_line :: "log_call \<Rightarrow> bool" where
  "driver_line l \<longleftrightarrow>
     l \<in> {LOGGER_WARNING ''EnoceanDriver: replay detected (switch)'' [],
           LOGGER_WARNING ''EnoceanDriver: switch auth failed'' [],
           LOGGER_WARNING ''EnoceanDriver: replay detected (sensor)'' [],
           LOGGER_WARNING ''EnoceanDriver: sensor auth failed'' []} \<or>
     (\<exists>d n s. device_ok d \<and> sensor_packet_log d n s = Logged l)"

lemma driver_line_warnings [simp]:
  "driver_line (LOGGER_WARNING ''EnoceanDriver: replay detected (switch)'' [])"
  "driver_line (LOGGER_WARNING ''EnoceanDriver: switch auth failed'' [])"
  "driver_line (LOGGER_WARNING ''EnoceanDriver: replay detected (sensor)'' [])"
  "driver_line (LOGGER_WARNING ''EnoceanDriver: sensor auth failed'' [])"
  by (simp_all add: driver_line_def)

lemma sensor_packet_line:
  "device_ok d \<Longrightarrow> \<exists>l. sensor_packet_log d n s = Logged l \<and> driver_line l"
  by (auto simp: sensor_packet_log_def driver_line_def)

lemma driver_line_from: "driver_line l \<Longrightarrow> from_driver l"
  by (auto simp: driver_line_def sensor_packet_log_def from_driver_def logger_defs)

lemma handler_events:
  assumes "device_ok d" and "handler_of d0 crypto cbs d p = Some (r, d', evs)" and "e \<in> set evs"
  obtains (log) l where "e = Logged l" "driver_line l"
  | (backend) l s body tag where "e = Logged l" "length tag = k_tag_len"
      "l \<in> set (backend_log crypto d s body tag)"
  | (button) f st opt where "dev_type d0 = Switch" "button_cb cbs = Some f"
      "e = CallButton f d' (switch_action st) (switch_buttons st) opt"
      "\<forall>bs. opt = Some bs \<longrightarrow> length bs \<in> {1, 2, 4}"
  | (sensor) f body where "dev_type d0 \<noteq> Switch" "sensor_cb cbs = Some f"
      "e = CallSensor f d' (sensor_report body) None"
proof (cases "length p < k_data_payload_min")
  case True
  then show ?thesis using assms(2,3) by (simp add: handler_of_def sw.short se.short split: if_splits)
next
  case False
  then obtain s body tag where p: "p = telegram s body tag" "length tag = k_tag_len" "body \<noteq> []"
    using telegram_exists by (meson not_less)
  show ?thesis
  proof (cases "dev_type d0 = Switch")
    case True
    obtain st opt where b: "body = st # opt" using p(3) by (cases body) auto
    have "length opt \<in> {1, 2, 4}" if "opt \<noteq> []" "\<not> length opt > 4" "length opt \<noteq> 3"
    proof -
      have "length opt = 1 \<or> length opt = 2 \<or> length opt = 4"
        using that length_greater_0_conv [of opt] by arith
      then show ?thesis by blast
    qed
    then show ?thesis
      using assms(2,3) True handle_switch_telegram [OF assms(1) p(2), of crypto cbs s st opt]
        log [of "LOGGER_WARNING ''EnoceanDriver: replay detected (switch)'' []"]
        log [of "LOGGER_WARNING ''EnoceanDriver: switch auth failed'' []"]
        button [OF True, of _ st "if opt = [] then None else Some opt"] backend [OF _ p(2), of _ s body]
      by (fastforce simp: handler_of_def p(1) b call_if_def split: if_splits option.splits)
  next
    case False
    then show ?thesis
      using assms(2,3) handle_sensor_telegram [OF assms(1) p(2,3), of crypto cbs s]
        log [of "LOGGER_WARNING ''EnoceanDriver: replay detected (sensor)'' []"]
        log [of "LOGGER_WARNING ''EnoceanDriver: sensor auth failed'' []"]
        sensor_packet_line [OF assms(1), of "length (telegram s body tag)" s] log
        sensor [OF False, of _ body] backend [OF _ p(2), of _ s body]
      by (fastforce simp: handler_of_def p(1) call_if_def split: if_splits option.splits)
  qed
qed

text \<open>Everything an advertisement can do.\<close>

lemma process_cases:
  assumes ok: "table_ok (drv_devices drv)"
    and x: "process_advertisement crypto drv addr aty adv rssi data = Some (drv', evs)"
  obtains (ignored) "drv' = drv" "evs = []"
  | (handled) p d ret d' devs where "relevant drv addr aty adv data p"
      "lookup (drv_devices drv) addr = Some d" "device_ok (d\<lparr>dev_rssi := rssi\<rparr>)" "active d" "dev_addr d = addr"
      "handler_of d crypto (drv_callbacks drv) (d\<lparr>dev_rssi := rssi\<rparr>) p = Some (ret, d', evs)"
      "dev_addr d' = addr" "device_ok d'" "active d'" "dev_type d' = dev_type d"
      "store_device (drv_devices drv) d' = Some devs" "drv' = drv\<lparr>drv_devices := devs\<rparr>"
  | (full) "drv' = drv" "evs = [full_log]"
  | (commissioned) p s key devs where "relevant drv addr aty adv data p"
      "lookup (drv_devices drv) addr = None" "drv_commissioning drv" "commission_fields addr p = Some (s, key)"
      "device_ok (new_device addr aty rssi s key)"
      "store_device (drv_devices drv) (new_device addr aty rssi s key) = Some devs"
      "drv' = drv\<lparr>drv_devices := devs\<rparr>"
      "evs = commissioned_log addr # call_if (commissioned_cb (drv_callbacks drv))
         (\<lambda>f. CallCommissioned f (new_device addr aty rssi s key))"
proof (cases "\<exists>p. relevant drv addr aty adv data p")
  case False
  then show ?thesis using process_irrelevant x ignored by blast
next
  case True
  then obtain p where r: "relevant drv addr aty adv data p" by blast
  have len: "length addr = k_addr_len" using r by (simp add: relevant_def)
  show ?thesis
  proof (cases "lookup (drv_devices drv) addr")
    case None
    then have n: "find_device (drv_devices drv) addr = None" by (simp add: lookup_def)
    have okd: "device_ok (new_device addr aty rssi s key)" if "commission_fields addr p = Some (s, key)" for s key
      using commission_fields_SomeD [OF that] len by (simp add: device_ok_def)
    note X = x [unfolded process_relevant [OF r] n option.case]
    show ?thesis
    proof (cases "k_commissioning_payload_min \<le> length p \<and> drv_commissioning drv")
      case False
      then show ?thesis using X ignored by (simp split: if_splits)
    next
      case c: True
      note X' = X [unfolded if_P [OF c] handle_commissioning_unknown [OF ok len None conjunct1 [OF c]]]
      show ?thesis
      proof (cases "commission_fields addr p")
        case None
        then show ?thesis using X' ignored by simp
      next
        case f: (Some sk)
        obtain s key where sk: "sk = (s, key)" by (cases sk)
        show ?thesis
        proof (cases "store_device (drv_devices drv) (new_device addr aty rssi s key)")
          case None
          then show ?thesis using X' f sk full by simp
        next
          case (Some devs)
          then show ?thesis
            using X' f sk
            by (intro commissioned [OF r \<open>lookup (drv_devices drv) addr = None\<close> conjunct2 [OF c]
                  f [unfolded sk] okd [OF f [unfolded sk]] Some]) simp_all
        qed
      qed
    qed
  next
    case (Some d)
    note D = lookup_SomeD [OF ok len Some]
    have okd: "device_ok (d\<lparr>dev_rssi := rssi\<rparr>)" using D(4) by simp
    obtain ret d' evs0 where h: "handler_of d crypto (drv_callbacks drv) (d\<lparr>dev_rssi := rssi\<rparr>) p
        = Some (ret, d', evs0)"
      using handler_returns [OF okd] by blast
    from okd h have d': "dev_addr d' = addr" "device_ok d'" "active d'" "dev_type d' = dev_type d"
      using D okd by (cases rule: handler_outcome; simp)+
    from process_known [OF ok r Some h d'(1)] x
    obtain devs where s: "store_device (drv_devices drv) d' = Some devs"
      "drv' = drv\<lparr>drv_devices := devs\<rparr>" and evs: "evs = evs0"
      by auto
    show ?thesis by (rule handled [OF r Some okd D(1,2) h [folded evs] d' s])
  qed
qed

subsection \<open>Operations and runs\<close>

text \<open>
  What the world does to a driver: the calls of its public member functions. An advertisement
  comes with the crypto backend's answers at that moment.
\<close>

datatype driver_op =
    OpInit
  | OpEnable
  | OpDisable
  | OpAdvertise crypto_impl "u8 list" u8 u8 i8 "u8 list"

fun exec_op :: "driver_op \<Rightarrow> EnoceanDriver \<Rightarrow> (EnoceanDriver \<times> driver_event list) option" where
  "exec_op OpInit drv = (case driver_init drv of (drv', evs, r) \<Rightarrow> Some (drv', evs))"
| "exec_op OpEnable drv = Some (enable_commissioning drv)"
| "exec_op OpDisable drv = Some (disable_commissioning drv)"
| "exec_op (OpAdvertise crypto addr aty adv rssi data) drv =
     process_advertisement crypto drv addr aty adv rssi data"

fun run :: "driver_op list \<Rightarrow> EnoceanDriver \<Rightarrow> (EnoceanDriver \<times> driver_event list) option" where
  "run [] drv = Some (drv, [])"
| "run (x # xs) drv =
     do {
       (drv', evs) \<leftarrow> exec_op x drv;
       (drv'', evs') \<leftarrow> run xs drv';
       Some (drv'', evs @ evs')
     }"

inductive reachable :: "EnoceanCallbacks \<Rightarrow> EnoceanDriver \<Rightarrow> bool" for cbs where
  reachable_new: "reachable cbs (new_driver cbs)"
| reachable_step: "reachable cbs drv \<Longrightarrow> exec_op x drv = Some (drv', evs) \<Longrightarrow> reachable cbs drv'"

subsection \<open>The abstract driver\<close>

text \<open>
  The contract of the driver, without tables, bytes and logs: a map from the addresses of the
  commissioned devices to what is known of them. A step is labelled with the operation and with
  the callbacks it makes. An abstract driver holds at most eight devices.
\<close>

record driver_spec =
  known :: "u8 list \<rightharpoonup> EnoceanDevice"
  opened :: bool
  ready :: bool

definition abs_driver :: "EnoceanDriver \<Rightarrow> driver_spec" where
  "abs_driver drv = \<lparr>known = table_map (drv_devices drv), opened = drv_commissioning drv,
     ready = drv_initialised drv\<rparr>"

definition visible :: "driver_event list \<Rightarrow> driver_event list" where
  "visible evs = filter (\<lambda>e. is_data_event e \<or> is_commissioned_event e) evs"

inductive spec_step :: "driver_spec \<Rightarrow> driver_op \<Rightarrow> driver_event list \<Rightarrow> driver_spec \<Rightarrow> bool" where
  spec_init: "spec_step \<sigma> OpInit [] \<lparr>known = Map.empty, opened = False, ready = True\<rparr>"
| spec_enable: "spec_step \<sigma> OpEnable [] (\<sigma>\<lparr>opened := True\<rparr>)"
| spec_disable: "spec_step \<sigma> OpDisable [] (\<sigma>\<lparr>opened := False\<rparr>)"
| spec_ignore: "spec_step \<sigma> (OpAdvertise crypto addr aty adv rssi data) [] \<sigma>"
| spec_refuse:
    "ready \<sigma> \<Longrightarrow> known \<sigma> addr = Some d \<Longrightarrow>
     spec_step \<sigma> (OpAdvertise crypto addr aty adv rssi data) []
       (\<sigma>\<lparr>known := (known \<sigma>)(addr \<mapsto> d\<lparr>dev_rssi := rssi\<rparr>)\<rparr>)"
| spec_accept:
    "ready \<sigma> \<Longrightarrow> known \<sigma> addr = Some d \<Longrightarrow>
     extract_manufacturer_data data = Some (telegram s body tag) \<Longrightarrow> length tag = k_tag_len \<Longrightarrow>
     accepts crypto d s body tag \<Longrightarrow> d' = d\<lparr>dev_rssi := rssi, seq_num := s\<rparr> \<Longrightarrow>
     vis = [] \<or> (\<exists>e. vis = [e] \<and> is_data_event e \<and> event_device e = Some d') \<Longrightarrow>
     spec_step \<sigma> (OpAdvertise crypto addr aty adv rssi data) vis
       (\<sigma>\<lparr>known := (known \<sigma>)(addr \<mapsto> d')\<rparr>)"
| spec_commission:
    "ready \<sigma> \<Longrightarrow> opened \<sigma> \<Longrightarrow> known \<sigma> addr = None \<Longrightarrow> length addr = k_addr_len \<Longrightarrow>
     card (dom (known \<sigma>)) < k_max_devices \<Longrightarrow>
     extract_manufacturer_data data = Some p \<Longrightarrow> commission_fields addr p = Some (s, key) \<Longrightarrow>
     d' = new_device addr aty rssi s key \<Longrightarrow>
     vis = [] \<or> (\<exists>f. vis = [CallCommissioned f d']) \<Longrightarrow>
     spec_step \<sigma> (OpAdvertise crypto addr aty adv rssi data) vis
       (\<sigma>\<lparr>known := (known \<sigma>)(addr \<mapsto> d')\<rparr>)"

inductive_simps spec_init_simp: "spec_step \<sigma> OpInit vis \<sigma>'"
inductive_simps spec_enable_simp: "spec_step \<sigma> OpEnable vis \<sigma>'"
inductive_simps spec_disable_simp: "spec_step \<sigma> OpDisable vis \<sigma>'"
inductive_cases spec_advertise_E:
  "spec_step \<sigma> (OpAdvertise crypto addr aty adv rssi data) vis \<sigma>'"

lemmas spec_simps = spec_init_simp spec_enable_simp spec_disable_simp

subsection \<open>Every step keeps the table well-formed and refines a step of the abstract driver\<close>

lemma visible_simps [simp]:
  "visible [] = []"
  "visible (Logged l # evs) = visible evs"
  "visible (evs @ evs') = visible evs @ visible evs'"
  by (simp_all add: visible_def)

lemma visible_data:
  assumes "filter is_commissioned_event evs = []"
  shows "visible evs = filter is_data_event evs"
  using assms unfolding visible_def by (metis (no_types, lifting) filter_cong filter_empty_conv)

lemma visible_call_if:
  "visible (call_if fn (\<lambda>f. CallCommissioned f d)) = call_if fn (\<lambda>f. CallCommissioned f d)"
  by (cases fn) (simp_all add: call_if_def visible_def)

lemma visible_logs [simp]: "visible [full_log] = []" "visible (commissioned_log a # evs) = visible evs"
  by (simp_all add: full_log_def commissioned_log_def)

lemma process_known_refines:
  assumes ok: "table_ok (drv_devices drv)" and r: "relevant drv addr aty adv data p"
    and d: "lookup (drv_devices drv) addr = Some d"
    and x: "process_advertisement crypto drv addr aty adv rssi data = Some (drv', evs)"
  shows "table_ok (drv_devices drv') \<and>
    spec_step (abs_driver drv) (OpAdvertise crypto addr aty adv rssi data) (visible evs) (abs_driver drv')"
proof -
  have len: "length addr = k_addr_len" and rdy: "ready (abs_driver drv)"
    and ext: "extract_manufacturer_data data = Some p"
    using r by (auto simp: relevant_def abs_driver_def)
  note D = lookup_SomeD [OF ok len d]
  have kn: "known (abs_driver drv) addr = Some d" using d len by (simp add: abs_driver_def table_map_def)
  let ?d = "d\<lparr>dev_rssi := rssi\<rparr>"
  have okd: "device_ok ?d" using D(4) by simp
  obtain ret d' evs0 where h: "handler_of d crypto (drv_callbacks drv) ?d p = Some (ret, d', evs0)"
    using handler_returns [OF okd] by blast
  have step: "table_ok (drv_devices drv') \<and> evs = evs0 \<and>
      abs_driver drv' = (abs_driver drv)\<lparr>known := (known (abs_driver drv))(addr \<mapsto> d')\<rparr>"
    if d': "dev_addr d' = addr" "device_ok d'" "active d'"
  proof -
    obtain devs where s: "store_device (drv_devices drv) d' = Some devs"
      "process_advertisement crypto drv addr aty adv rssi data = Some (drv\<lparr>drv_devices := devs\<rparr>, evs0)"
      using process_known [OF ok r d h d'(1)] by blast
    then show ?thesis
      using x store_ok [OF ok d'(2,3) s(1)] table_map_store [OF ok d'(2,3) s(1)] d'(1)
      by (simp add: abs_driver_def)
  qed
  from okd h show ?thesis
  proof (cases rule: handler_outcome)
    case refusal
    then show ?thesis
      using step D spec_refuse [OF rdy kn, of crypto aty adv rssi data] by (simp add: visible_data)
  next
    case (acceptance s body tag)
    have acc: "accepts crypto d s body tag" using acceptance(3) by (simp add: accepts_def)
    have "d' = d\<lparr>dev_rssi := rssi, seq_num := s\<rparr>" using acceptance(4) by simp
    moreover have "visible evs0 = [] \<or>
        (\<exists>e. visible evs0 = [e] \<and> is_data_event e \<and> event_device e = Some d')"
      using acceptance(5,6) visible_data [OF acceptance(5)]
      by (metis (mono_tags) filter_eq_ConsD in_set_conv_decomp)
    ultimately show ?thesis
      using step D acceptance(4) ext acceptance(1)
        spec_accept [OF rdy kn _ acceptance(2) acc, of data d' rssi "visible evs0" aty adv]
      by simp
  qed
qed

lemma process_unknown_refines:
  assumes ok: "table_ok (drv_devices drv)" and r: "relevant drv addr aty adv data p"
    and new: "lookup (drv_devices drv) addr = None"
    and x: "process_advertisement crypto drv addr aty adv rssi data = Some (drv', evs)"
  shows "table_ok (drv_devices drv') \<and>
    spec_step (abs_driver drv) (OpAdvertise crypto addr aty adv rssi data) (visible evs) (abs_driver drv')"
proof -
  have len: "length addr = k_addr_len" and rdy: "ready (abs_driver drv)"
    and ext: "extract_manufacturer_data data = Some p"
    using r by (auto simp: relevant_def abs_driver_def)
  have f: "find_device (drv_devices drv) addr = None" using new by (simp add: lookup_def)
  show ?thesis
  proof (cases "\<exists>s key devs. k_commissioning_payload_min \<le> length p \<and> drv_commissioning drv \<and>
      commission_fields addr p = Some (s, key) \<and>
      store_device (drv_devices drv) (new_device addr aty rssi s key) = Some devs")
    case False
    have "drv' = drv \<and> visible evs = []"
      using x False
      by (auto simp: process_relevant [OF r] f handle_commissioning_unknown [OF ok len new]
          split: if_splits option.splits)
    then show ?thesis using ok spec_ignore by simp
  next
    case True
    then obtain s key devs where c: "k_commissioning_payload_min \<le> length p" "drv_commissioning drv"
      "commission_fields addr p = Some (s, key)"
      "store_device (drv_devices drv) (new_device addr aty rssi s key) = Some devs"
      by blast
    let ?d = "new_device addr aty rssi s key"
    have okd: "device_ok ?d"
      using commission_fields_SomeD [OF c(3)] len by (simp add: device_ok_def)
    have act: "active ?d" by simp
    have out: "drv' = drv\<lparr>drv_devices := devs\<rparr>"
        "visible evs = call_if (commissioned_cb (drv_callbacks drv)) (\<lambda>f. CallCommissioned f ?d)"
      using x c
      by (auto simp: process_relevant [OF r] f handle_commissioning_unknown [OF ok len new]
          visible_call_if)
    have nf: "\<not> (\<forall>x \<in> set (drv_devices drv). active x)"
      using c(4) store_None_iff [OF ok okd] new by simp
    then have "card (dom (known (abs_driver drv))) < k_max_devices"
      using full_iff_count [OF ok] count_bound [OF ok]
      by (simp add: abs_driver_def card_table_map [OF ok])
    then have "spec_step (abs_driver drv) (OpAdvertise crypto addr aty adv rssi data) (visible evs)
        ((abs_driver drv)\<lparr>known := (known (abs_driver drv))(addr \<mapsto> ?d)\<rparr>)"
      using c(2) new ext c(3) len rdy
      by (intro spec_commission)
        (auto simp: abs_driver_def table_map_def out(2) call_if_def split: option.splits)
    then show ?thesis
      using store_ok [OF ok okd act c(4)] table_map_store [OF ok okd act c(4)]
      by (simp add: out(1) abs_driver_def)
  qed
qed

lemma exec_refines:
  assumes ok: "table_ok (drv_devices drv)" and x: "exec_op op drv = Some (drv', evs)"
  shows "table_ok (drv_devices drv') \<and> spec_step (abs_driver drv) op (visible evs) (abs_driver drv')"
proof (cases op)
  case OpInit
  have "map (\<lambda>dev. default_device) (drv_devices drv) = replicate k_max_devices default_device"
    using table_okD(1) [OF ok] by (simp add: map_replicate_const)
  then show ?thesis
    using x by (auto simp: OpInit driver_init_def empty_table_ok abs_driver_def spec_simps)
next
  case OpEnable
  then show ?thesis using x ok by (auto simp: enable_commissioning_def abs_driver_def spec_simps)
next
  case OpDisable
  then show ?thesis using x ok by (auto simp: disable_commissioning_def abs_driver_def spec_simps)
next
  case (OpAdvertise crypto addr aty adv rssi data)
  with x have p: "process_advertisement crypto drv addr aty adv rssi data = Some (drv', evs)" by simp
  show ?thesis
  proof (cases "\<exists>p. relevant drv addr aty adv data p")
    case False
    then have "drv' = drv" "evs = []" using process_irrelevant p by blast+
    then show ?thesis using ok spec_ignore by (simp add: OpAdvertise)
  next
    case True
    then obtain q where r: "relevant drv addr aty adv data q" by blast
    show ?thesis
      using process_known_refines [OF ok r _ p] process_unknown_refines [OF ok r _ p] OpAdvertise
      by (cases "lookup (drv_devices drv) addr") simp_all
  qed
qed

lemma reachable_table_ok: "reachable cbs drv \<Longrightarrow> table_ok (drv_devices drv)"
  by (induction rule: reachable.induct) (simp_all add: new_driver_def empty_table_ok exec_refines)

lemma run_table_ok:
  assumes "table_ok (drv_devices drv)" and "run ops drv = Some (drv', evs)"
  shows "table_ok (drv_devices drv')"
  using assms
proof (induction ops arbitrary: drv evs)
  case (Cons x xs)
  then obtain drv1 evs1 evs2 where "exec_op x drv = Some (drv1, evs1)" "run xs drv1 = Some (drv', evs2)"
    by (auto split: bind_splits)
  with Cons exec_refines show ?case by blast
qed simp

subsection \<open>What a step of the abstract driver keeps\<close>

definition keys_ok :: "driver_spec \<Rightarrow> bool" where
  "keys_ok \<sigma> \<longleftrightarrow> (\<forall>a d. known \<sigma> a = Some d \<longrightarrow> dev_addr d = a)"

lemma abs_keys_ok: "table_ok (drv_devices drv) \<Longrightarrow> keys_ok (abs_driver drv)"
  by (simp add: keys_ok_def abs_driver_def) (metis table_map_SomeD(2))

text \<open>Unless it resets the table, a step never forgets a device, and never changes its key.\<close>

lemma spec_step_known:
  assumes "spec_step \<sigma> op vis \<sigma>'" and "op \<noteq> OpInit" and "known \<sigma> a = Some d"
  shows "\<exists>d'. known \<sigma>' a = Some d' \<and> seq_num d \<le> seq_num d' \<and> dev_key d' = dev_key d
    \<and> dev_type d' = dev_type d \<and> ble_addr d' = ble_addr d"
  using assms by (cases rule: spec_step.cases) (auto simp: accepts_def)

lemma spec_step_event:
  assumes "spec_step \<sigma> op vis \<sigma>'" and "keys_ok \<sigma>" and "e \<in> set vis" and "is_data_event e"
  shows "\<exists>d d'. event_device e = Some d' \<and> filter is_data_event vis = [e] \<and>
    known \<sigma>' (dev_addr d') = Some d' \<and> known \<sigma> (dev_addr d') = Some d \<and> seq_num d < seq_num d'"
  using assms(1)
proof (cases rule: spec_step.cases)
  case (spec_accept addr d data s body tag crypto d' rssi aty adv)
  then have "dev_addr d' = addr" using assms(2) by (simp add: keys_ok_def)
  with spec_accept assms(3,4) show ?thesis
    by (intro exI [of _ d] exI [of _ d']) (auto simp: accepts_def)
qed (use assms(3,4) in auto)

lemma data_of_visible [simp]: "filter is_data_event (visible evs) = filter is_data_event evs"
  by (simp add: visible_def) (rule filter_cong; auto)

lemma data_event_visible: "e \<in> set evs \<Longrightarrow> is_data_event e \<Longrightarrow> e \<in> set (visible evs)"
  by (simp add: visible_def)

lemma event_device_data: "is_data_event e \<Longrightarrow> \<exists>d. event_device e = Some d"
  by (cases e) simp_all

subsection \<open>Runs\<close>

definition later_report :: "driver_event \<Rightarrow> driver_event \<Rightarrow> bool" where
  "later_report e e' \<longleftrightarrow> (\<forall>d d'. event_device e = Some d \<and> event_device e' = Some d' \<and>
     dev_addr d = dev_addr d' \<longrightarrow> seq_num d < seq_num d')"

lemma run_known:
  assumes "table_ok (drv_devices drv)" and "OpInit \<notin> set ops" and "run ops drv = Some (drv', evs)"
    and "known (abs_driver drv) a = Some d"
  shows "\<exists>d'. known (abs_driver drv') a = Some d' \<and> seq_num d \<le> seq_num d' \<and>
    dev_key d' = dev_key d \<and> dev_type d' = dev_type d \<and> ble_addr d' = ble_addr d"
  using assms
proof (induction ops arbitrary: drv evs d)
  case Nil
  then show ?case by simp
next
  case (Cons x xs)
  obtain drv1 evs1 evs2 where r: "exec_op x drv = Some (drv1, evs1)" "run xs drv1 = Some (drv', evs2)"
    using Cons.prems(3) by (auto split: bind_splits)
  note R = exec_refines [OF Cons.prems(1) r(1)]
  obtain d1 where d1: "known (abs_driver drv1) a = Some d1" "seq_num d \<le> seq_num d1"
    "dev_key d1 = dev_key d" "dev_type d1 = dev_type d" "ble_addr d1 = ble_addr d"
    using spec_step_known [OF conjunct2 [OF R] _ Cons.prems(4)] Cons.prems(2) by auto
  have "OpInit \<notin> set xs" using Cons.prems(2) by simp
  from Cons.IH [OF conjunct1 [OF R] this r(2) d1(1)] show ?case using d1 by force
qed

lemma run_reports:
  assumes "table_ok (drv_devices drv)" and "OpInit \<notin> set ops" and "run ops drv = Some (drv', evs)"
  shows "(\<forall>e \<in> set (filter is_data_event evs). \<forall>d d0. event_device e = Some d \<and>
      known (abs_driver drv) (dev_addr d) = Some d0 \<longrightarrow> seq_num d0 < seq_num d)
    \<and> sorted_wrt later_report (filter is_data_event evs)"
  using assms
proof (induction ops arbitrary: drv evs)
  case Nil
  then show ?case by simp
next
  case (Cons x xs)
  obtain drv1 evs1 evs2 where r: "exec_op x drv = Some (drv1, evs1)" "run xs drv1 = Some (drv', evs2)"
    "evs = evs1 @ evs2"
    using Cons.prems(3) by (auto split: bind_splits)
  have ok1: "table_ok (drv_devices drv1)"
    and step: "spec_step (abs_driver drv) x (visible evs1) (abs_driver drv1)"
    using exec_refines [OF Cons.prems(1) r(1)] by auto
  have ni: "x \<noteq> OpInit" "OpInit \<notin> set xs" using Cons.prems(2) by auto
  note ih = Cons.IH [OF ok1 ni(2) r(2)]
  have first: "\<exists>d d'. event_device e = Some d' \<and> filter is_data_event evs1 = [e] \<and>
      known (abs_driver drv1) (dev_addr d') = Some d' \<and>
      known (abs_driver drv) (dev_addr d') = Some d \<and> seq_num d < seq_num d'"
    if "e \<in> set evs1" "is_data_event e" for e
    using spec_step_event [OF step abs_keys_ok [OF Cons.prems(1)]] that data_event_visible by simp
  have rest: "seq_num d0 < seq_num d"
    if e: "e \<in> set evs2" "is_data_event e" "event_device e = Some d"
      "known (abs_driver drv) (dev_addr d) = Some d0" for e d d0
  proof -
    obtain d1 where d1: "known (abs_driver drv1) (dev_addr d) = Some d1" "seq_num d0 \<le> seq_num d1"
      using spec_step_known [OF step ni(1) e(4)] by blast
    then have "seq_num d1 < seq_num d" using ih e by auto
    with d1(2) show ?thesis by simp
  qed
  have "\<forall>e \<in> set (filter is_data_event evs). \<forall>d d0. event_device e = Some d \<and>
      known (abs_driver drv) (dev_addr d) = Some d0 \<longrightarrow> seq_num d0 < seq_num d"
    using first rest by (fastforce simp: r(3))
  moreover have "later_report e e'"
    if e: "e \<in> set evs1" "is_data_event e" "e' \<in> set evs2" "is_data_event e'" for e e'
    using first [OF e(1,2)] ih e(3,4) unfolding later_report_def by auto
  moreover have "sorted_wrt later_report (filter is_data_event evs1)"
  proof (cases "filter is_data_event evs1")
    case (Cons e es)
    then have "e \<in> set (filter is_data_event evs1)" by simp
    then have "e \<in> set evs1" "is_data_event e" by simp_all
    from first [OF this] show ?thesis by auto
  qed simp
  ultimately show ?case using ih by (auto simp: r(3) sorted_wrt_append)
qed

subsection \<open>Memory safety\<close>

text \<open>The only access outside an object that the driver ever makes is the over-read of the AD walk.\<close>

lemma process_defined:
  assumes ok: "table_ok (drv_devices drv)" and x: "extract_manufacturer_data data \<noteq> None"
  shows "process_advertisement crypto drv addr aty adv rssi data \<noteq> None"
proof (cases "\<exists>p. relevant drv addr aty adv data p")
  case False
  then show ?thesis
    using x unfolding process_advertisement_def by (auto simp: relevant_def not_less)
next
  case True
  then obtain p where r: "relevant drv addr aty adv data p" by blast
  have len: "length addr = k_addr_len" using r by (simp add: relevant_def)
  show ?thesis
  proof (cases "lookup (drv_devices drv) addr")
    case None
    then have "find_device (drv_devices drv) addr = None" by (simp add: lookup_def)
    then show ?thesis
      using handle_commissioning_unknown [OF ok len None] by (simp add: process_relevant [OF r])
  next
    case (Some d)
    note D = lookup_SomeD [OF ok len Some]
    have okd: "device_ok (d\<lparr>dev_rssi := rssi\<rparr>)" using D(4) by simp
    obtain ret d' evs where h: "handler_of d crypto (drv_callbacks drv) (d\<lparr>dev_rssi := rssi\<rparr>) p
        = Some (ret, d', evs)"
      using handler_returns [OF okd] by blast
    from okd h have "dev_addr d' = addr" by (cases rule: handler_outcome) (auto simp: D)
    from process_known [OF ok r Some h this] show ?thesis by auto
  qed
qed

end
