(* ===== verification/Enocean_Safety.thy ===== *)
theory Enocean_Safety
  imports Enocean_Machine
begin

text \<open>
  What holds of the driver in every state it can be in: replay protection, authenticity of
  reports, the table invariant, commissioning rules, isolation of devices, memory safety and the
  refinement of its contract (src/enocean/EnoceanDriver.ipp as a whole).
\<close>

subsection \<open>Properties of the driver\<close>

text \<open>A driver with one commissioned switch, reached by a run, for the examples.\<close>

definition example_callbacks :: EnoceanCallbacks where
  "example_callbacks = no_callbacks\<lparr>button_cb := Some ''on_button'', sensor_cb := Some ''on_sensor'',
     commissioned_cb := Some ''on_commissioned''\<rparr>"

definition example_backend :: crypto_impl where
  "example_backend = tag_backend [9, 9, 9, 9]"

definition example_driver :: EnoceanDriver where
  "example_driver = \<lparr>drv_callbacks = example_callbacks, drv_initialised = True,
     drv_commissioning = True, drv_devices = example_switch # replicate 7 default_device\<rparr>"

definition adv_of :: "u8 list \<Rightarrow> u8 list" where
  "adv_of payload = encode_ad (0xFF, 0xDA # 0x03 # payload)"

definition example_commission :: "u32 \<Rightarrow> u8 list \<Rightarrow> driver_op" where
  "example_commission s addr = OpAdvertise example_backend addr 0x01 0x03 0
     (adv_of (seq_bytes s @ replicate 16 7 @ [0, 0]))"

definition example_press :: "u32 \<Rightarrow> u8 list \<Rightarrow> driver_op" where
  "example_press s tag = OpAdvertise example_backend [1, 2, 3, 4, 0xDA, 0x03] 0x01 0x03 (-60)
     (adv_of (telegram s [0x03] tag))"

definition example_addr :: "u8 \<Rightarrow> u8 list" where
  "example_addr n = [n, 2, 3, 4, 0xDA, 0x03]"

lemma reachable_run: "reachable cbs drv \<Longrightarrow> run ops drv = Some (drv', evs) \<Longrightarrow> reachable cbs drv'"
proof (induction ops arbitrary: drv evs)
  case (Cons x xs)
  then obtain drv1 evs1 evs2 where "exec_op x drv = Some (drv1, evs1)" "run xs drv1 = Some (drv', evs2)"
    by (auto split: bind_splits)
  with Cons reachable_step show ?case by blast
qed simp

lemma example_reachable: "reachable example_callbacks example_driver"
proof (rule reachable_run [OF reachable_new])
  show "run [OpInit, OpEnable, example_commission 41 [1, 2, 3, 4, 0xDA, 0x03]]
      (new_driver example_callbacks) = Some (example_driver, [
        Logged (LOGGER_NOTICE ''EnoceanDriver initialised (max %zu devices)'' [ArgInt 8]),
        Logged (LOGGER_NOTICE ''EnOcean commissioning enabled'' []),
        commissioned_log [1, 2, 3, 4, 0xDA, 0x03],
        CallCommissioned ''on_commissioned'' example_switch])"
    by code_simp
qed

text \<open>
  C1: No replay. In every run of the driver that does not reset it, from any state it can be in,
  the reports it makes to the application about one device carry strictly increasing sequence
  numbers: no telegram is reported twice, and none that is older than one already reported,
  whatever advertisements arrive, in whatever order, and whatever the crypto backend answers.
\<close>

theorem no_replay:
  assumes "reachable cbs drv" and "OpInit \<notin> set ops" and "run ops drv = Some (drv', evs)"
  shows "sorted_wrt (\<lambda>e e'. \<forall>d d'. event_device e = Some d \<and> event_device e' = Some d' \<and>
     dev_addr d = dev_addr d' \<longrightarrow> seq_num d < seq_num d') (filter is_data_event evs)"
  using run_reports [OF reachable_table_ok [OF assms(1)] assms(2,3)]
  by (simp add: later_report_def [abs_def])

theorem no_replay_witness:
  "\<exists>drv' evs. run [example_press 42 [9, 9, 9, 9], example_press 42 [9, 9, 9, 9],
       example_press 43 [9, 9, 9, 9]] example_driver = Some (drv', evs) \<and>
     length (filter is_data_event evs) = 2 \<and>
     sorted_wrt (\<lambda>e e'. \<forall>d d'. event_device e = Some d \<and> event_device e' = Some d' \<and>
       dev_addr d = dev_addr d' \<longrightarrow> seq_num d < seq_num d') (filter is_data_event evs)"
proof -
  let ?ops = "[example_press 42 [9, 9, 9, 9], example_press 42 [9, 9, 9, 9],
    example_press 43 [9, 9, 9, 9]]"
  let ?r = "run ?ops example_driver"
  have "?r \<noteq> None" by code_simp
  then obtain drv' evs where r: "?r = Some (drv', evs)" by auto
  have "length (filter is_data_event (snd (the ?r))) = 2" by code_simp
  then have "length (filter is_data_event evs) = 2" unfolding r by simp
  moreover have "OpInit \<notin> set ?ops" by (simp add: example_press_def)
  ultimately show ?thesis using r no_replay [OF example_reachable _ r] by blast
qed

text \<open>
  C2: Authenticity. Every report to the application is caused by an advertisement with a telegram
  from a device that is in the table, with a sequence number above the stored one, for which the
  crypto backend confirmed the four-byte tag over the telegram under the device's key and the
  nonce of its address and this sequence number; the report carries that device, updated.
\<close>

theorem reports_authentic:
  assumes "reachable cbs drv" and "exec_op op drv = Some (drv', evs)"
    and "e \<in> set evs" and "is_data_event e"
  shows "\<exists>crypto addr aty adv rssi data d s body tag.
     op = OpAdvertise crypto addr aty adv rssi data \<and> lookup (drv_devices drv) addr = Some d \<and>
     extract_manufacturer_data data = Some (seq_bytes s @ body @ tag) \<and> length tag = 4 \<and>
     seq_num d < s \<and>
     fst (crypto (dev_key d) (addr @ seq_bytes s @ [0, 0, 0]) (seq_bytes s @ body) [] tag []) \<and>
     event_device e = Some (d\<lparr>dev_rssi := rssi, seq_num := s\<rparr>)"
proof -
  have ok: "table_ok (drv_devices drv)" using reachable_table_ok [OF assms(1)] .
  have step: "spec_step (abs_driver drv) op (visible evs) (abs_driver drv')"
    using exec_refines [OF ok assms(2)] by simp
  have e: "e \<in> set (visible evs)" using assms(3,4) by (rule data_event_visible)
  from step show ?thesis
  proof (cases rule: spec_step.cases)
    case (spec_accept addr d data s body tag crypto d' rssi aty adv)
    have k: "table_map (drv_devices drv) addr = Some d" using \<open>known (abs_driver drv) addr = Some d\<close>
      by (simp add: abs_driver_def)
    note D = table_map_SomeD [OF ok k]
    have "length (addr @ seq_bytes s @ [0, 0, 0]) = k_nonce_len" "length (dev_key d) = k_key_len"
      using D(3,4) by (simp_all add: device_ok_def size_constants)
    then have "fst (crypto (dev_key d) (addr @ seq_bytes s @ [0, 0, 0]) (seq_bytes s @ body) [] tag [])"
      using \<open>accepts crypto d s body tag\<close> D(2) by (simp add: accepts_def authentic_def aes_ccm_decrypt_dispatch)
    moreover have "event_device e = Some (d\<lparr>dev_rssi := rssi, seq_num := s\<rparr>)"
      using \<open>visible evs = [] \<or> (\<exists>e. visible evs = [e] \<and> is_data_event e \<and> event_device e = Some d')\<close>
        \<open>d' = d\<lparr>dev_rssi := rssi, seq_num := s\<rparr>\<close> e
      by auto
    moreover have "seq_num d < s" using \<open>accepts crypto d s body tag\<close> by (simp add: accepts_def)
    ultimately show ?thesis
      using spec_accept(1) D(5) \<open>length tag = k_tag_len\<close>
        \<open>extract_manufacturer_data data = Some (telegram s body tag)\<close>
      by (intro exI [of _ crypto] exI [of _ addr] exI [of _ aty] exI [of _ adv] exI [of _ rssi]
          exI [of _ data] exI [of _ d] exI [of _ s] exI [of _ body] exI [of _ tag])
        (simp add: telegram_def size_constants)
  qed (use e assms(4) in auto)
qed

theorem reports_authentic_witness:
  "\<exists>d s. lookup (drv_devices example_driver) [1, 2, 3, 4, 0xDA, 0x03] = Some d \<and> seq_num d < s"
proof -
  let ?e = "CallButton ''on_button'' (example_switch\<lparr>dev_rssi := -60, seq_num := 42\<rparr>) Press 1 None"
  let ?r = "exec_op (example_press 42 [9, 9, 9, 9]) example_driver"
  have "?r \<noteq> None" by code_simp
  then obtain drv' evs where r: "?r = Some (drv', evs)" by auto
  have "snd (the ?r) = [?e]" by code_simp
  then have "?e \<in> set evs" unfolding r by simp
  from reports_authentic [OF example_reachable r this] show ?thesis
    by (auto simp: example_press_def)
qed

text \<open>
  C6: The device table stays well-formed for the life of the driver: eight slots, each with a
  six-byte address and a 16-byte key, no address in two active slots; \<open>device_count\<close> is the
  number of addresses the driver knows, at most eight.
\<close>

theorem device_table_invariant:
  assumes "reachable cbs drv"
  shows "length (drv_devices drv) = 8 \<and>
    (\<forall>d \<in> set (drv_devices drv). length (dev_addr d) = 6 \<and> length (dev_key d) = 16) \<and>
    (\<forall>i < 8. \<forall>j < 8. i \<noteq> j \<and> active (drv_devices drv ! i) \<and> active (drv_devices drv ! j) \<longrightarrow>
       dev_addr (drv_devices drv ! i) \<noteq> dev_addr (drv_devices drv ! j)) \<and>
    device_count drv = card {a. length a = 6 \<and> lookup (drv_devices drv) a \<noteq> None} \<and>
    device_count drv \<le> 8"
proof -
  have ok: "table_ok (drv_devices drv)" using reachable_table_ok [OF assms] .
  have len: "length (drv_devices drv) = 8"
    using table_okD(1) [OF ok] by (simp add: size_constants)
  have uniq: "\<forall>i < 8. \<forall>j < 8. i \<noteq> j \<and> active (drv_devices drv ! i) \<and> active (drv_devices drv ! j) \<longrightarrow>
      dev_addr (drv_devices drv ! i) \<noteq> dev_addr (drv_devices drv ! j)"
    using table_okD(3) [OF ok] len by auto
  have sizes: "\<forall>d \<in> set (drv_devices drv). length (dev_addr d) = 6 \<and> length (dev_key d) = 16"
    using table_okD(2) [OF ok] by (simp add: device_ok_def size_constants)
  have "dom (table_map (drv_devices drv)) = {a. length a = 6 \<and> lookup (drv_devices drv) a \<noteq> None}"
    by (auto simp: table_map_def size_constants dom_def)
  then show ?thesis
    using len uniq sizes card_table_map [OF ok] count_bound [OF ok]
    by (simp add: device_count_eq size_constants)
qed

theorem device_table_invariant_witness: "device_count example_driver \<le> 8"
  using device_table_invariant [OF example_reachable] by blast

text \<open>
  C7: While commissioning is closed the driver learns no device: after any operation but a reset
  it knows the same addresses as before, with the same keys, and announces no new device.
\<close>

theorem no_commissioning_when_closed:
  assumes "reachable cbs drv" and "\<not> commissioning_enabled drv" and "op \<noteq> OpInit"
    and "exec_op op drv = Some (drv', evs)"
  shows "(\<forall>addr. length addr = 6 \<longrightarrow>
       map_option dev_key (lookup (drv_devices drv') addr) =
       map_option dev_key (lookup (drv_devices drv) addr)) \<and>
    filter is_commissioned_event evs = []"
proof -
  have ok: "table_ok (drv_devices drv)" using reachable_table_ok [OF assms(1)] .
  have step: "spec_step (abs_driver drv) op (visible evs) (abs_driver drv')"
    using exec_refines [OF ok assms(4)] by simp
  have closed: "\<not> opened (abs_driver drv)"
    using assms(2) by (simp add: abs_driver_def commissioning_enabled_def)
  have keys: "map_option dev_key (known (abs_driver drv') addr) = map_option dev_key (known (abs_driver drv) addr)"
    for addr
    using step closed assms(3) by (cases rule: spec_step.cases) (auto simp: accepts_def)
  have "map_option dev_key (lookup (drv_devices drv') addr) =
      map_option dev_key (lookup (drv_devices drv) addr)" if "length addr = 6" for addr
    using keys [of addr] that by (simp add: abs_driver_def table_map_def size_constants)
  moreover have "filter is_commissioned_event (visible evs) = []"
    using step closed assms(3)
  proof (cases rule: spec_step.cases)
    case (spec_accept addr d data s body tag crypto d' rssi aty adv)
    then show ?thesis by (auto elim: is_data_event.elims)
  qed auto
  then have "filter is_commissioned_event evs = []"
    by (auto simp: visible_def filter_empty_conv)
  ultimately show ?thesis by blast
qed

theorem no_commissioning_when_closed_witness:
  "\<exists>drv' evs. exec_op (example_commission 1 [1, 1, 1, 1, 0xDA, 0x03])
       (example_driver\<lparr>drv_commissioning := False\<rparr>) = Some (drv', evs) \<and>
     lookup (drv_devices drv') [1, 1, 1, 1, 0xDA, 0x03] = None \<and>
     filter is_commissioned_event evs = []"
proof -
  let ?closed = "example_driver\<lparr>drv_commissioning := False\<rparr>"
  let ?op = "example_commission 1 [1, 1, 1, 1, 0xDA, 0x03]"
  have r: "reachable example_callbacks ?closed"
    by (rule reachable_step [OF example_reachable, of OpDisable])
      (simp add: disable_commissioning_def)
  have "exec_op ?op ?closed \<noteq> None" by code_simp
  then obtain drv' evs where x: "exec_op ?op ?closed = Some (drv', evs)" by auto
  have "\<not> commissioning_enabled ?closed" "?op \<noteq> OpInit"
    by (simp_all add: commissioning_enabled_def example_commission_def)
  note n = no_commissioning_when_closed [OF r this x]
  have "lookup (drv_devices ?closed) [1, 1, 1, 1, 0xDA, 0x03] = None" by code_simp
  then have "lookup (drv_devices drv') [1, 1, 1, 1, 0xDA, 0x03] = None"
    using conjunct1 [OF n, rule_format, of "[1, 1, 1, 1, 0xDA, 0x03]"] by simp
  then show ?thesis using n x by blast
qed

text \<open>
  A commissioned device is never lost, re-keyed or re-typed, and its sequence number never
  falls, by any operations short of a reset: a commissioning telegram from a device that is in
  the table cannot refresh its key or restart its sequence counter, although
  \<open>handle_commissioning\<close> has a branch for it.
\<close>

theorem known_device_kept:
  assumes "reachable cbs drv" and "OpInit \<notin> set ops" and "run ops drv = Some (drv', evs)"
    and "length addr = 6" and "lookup (drv_devices drv) addr = Some d"
  shows "\<exists>d'. lookup (drv_devices drv') addr = Some d' \<and> dev_key d' = dev_key d \<and>
    dev_type d' = dev_type d \<and> ble_addr d' = ble_addr d \<and> seq_num d \<le> seq_num d'"
proof -
  have "known (abs_driver drv) addr = Some d"
    using assms(4,5) by (simp add: abs_driver_def table_map_def size_constants)
  from run_known [OF reachable_table_ok [OF assms(1)] assms(2,3) this] show ?thesis
    using assms(4) by (auto simp: abs_driver_def table_map_def size_constants)
qed

theorem known_device_kept_witness:
  "\<exists>drv' evs d'. run [OpEnable, example_commission 7 [1, 2, 3, 4, 0xDA, 0x03]] example_driver =
       Some (drv', evs) \<and> lookup (drv_devices drv') [1, 2, 3, 4, 0xDA, 0x03] = Some d' \<and>
     41 \<le> seq_num d'"
proof -
  let ?ops = "[OpEnable, example_commission 7 [1, 2, 3, 4, 0xDA, 0x03]]"
  have "run ?ops example_driver \<noteq> None" by code_simp
  then obtain drv' evs where r: "run ?ops example_driver = Some (drv', evs)" by auto
  have l: "lookup (drv_devices example_driver) [1, 2, 3, 4, 0xDA, 0x03] = Some example_switch"
    by code_simp
  have "OpInit \<notin> set ?ops" by (simp add: example_commission_def)
  from known_device_kept [OF example_reachable this r _ l]
  show ?thesis using r by (auto simp: example_switch_def)
qed

text \<open>
  A full table turns new devices away: with eight devices commissioned, an advertisement from
  an unknown address changes nothing and calls no callback, whatever it holds.
\<close>

theorem full_table_rejects:
  assumes "reachable cbs drv" and "device_count drv = 8" and "length addr = 6"
    and "lookup (drv_devices drv) addr = None"
    and "process_advertisement crypto drv addr aty adv rssi data = Some (drv', evs)"
  shows "drv' = drv \<and> filter (\<lambda>e. is_data_event e \<or> is_commissioned_event e) evs = []"
proof -
  have ok: "table_ok (drv_devices drv)" using reachable_table_ok [OF assms(1)] .
  have full: "\<forall>d \<in> set (drv_devices drv). active d"
    using full_iff_count [OF ok] assms(2) by (simp add: device_count_eq size_constants)
  have len: "length addr = k_addr_len" using assms(3) by (simp add: size_constants)
  show ?thesis
  proof (cases "\<exists>p. relevant drv addr aty adv data p")
    case False
    then show ?thesis using process_irrelevant assms(5) by fastforce
  next
    case True
    then obtain p where r: "relevant drv addr aty adv data p" by blast
    have f: "find_device (drv_devices drv) addr = None" using assms(4) by (simp add: lookup_def)
    have "store_device (drv_devices drv) (new_device addr aty rssi s key) = None" for s key
      using full f
      by (simp add: store_device_def slot_for_def allocate_device_def find_index_None_iff)
    then show ?thesis
      using assms(5)
      by (auto simp: process_relevant [OF r] f handle_commissioning_unknown [OF ok len assms(4)]
          full_log_def split: if_splits option.splits)
  qed
qed

definition example_full :: EnoceanDriver where
  "example_full = fst (the (run (OpInit # OpEnable # map (\<lambda>n. example_commission 1 (example_addr n))
     [0, 1, 2, 3, 4, 5, 6, 7]) (new_driver example_callbacks)))"

theorem full_table_rejects_witness:
  "\<exists>evs. exec_op (example_commission 1 (example_addr 8)) example_full = Some (example_full, evs) \<and>
     evs = [full_log]"
proof -
  let ?ops = "OpInit # OpEnable # map (\<lambda>n. example_commission 1 (example_addr n)) [0, 1, 2, 3, 4, 5, 6, 7]"
  have "run ?ops (new_driver example_callbacks) \<noteq> None" by code_simp
  then obtain evs0 where "run ?ops (new_driver example_callbacks) = Some (example_full, evs0)"
    by (auto simp: example_full_def)
  then have r: "reachable example_callbacks example_full" by (rule reachable_run [OF reachable_new])
  have facts: "device_count example_full = 8" "lookup (drv_devices example_full) (example_addr 8) = None"
    "length (example_addr 8) = 6"
    "map_option snd (exec_op (example_commission 1 (example_addr 8)) example_full) = Some [full_log]"
    by code_simp+
  from facts(4) obtain drv' where x: "exec_op (example_commission 1 (example_addr 8)) example_full =
      Some (drv', [full_log])"
    by auto
  have "drv' = example_full"
    using full_table_rejects [OF r facts(1,3,2) x [unfolded example_commission_def exec_op.simps]]
    by blast
  then show ?thesis using x by blast
qed

text \<open>
  C4: The driver refines its contract. Every operation, from every state the driver can be in, is
  a step of the abstract driver with the same callbacks: a reset, opening or closing the
  commissioning mode, or for an advertisement exactly one of ignoring it, refusing a telegram
  (which at most updates the signal strength), accepting one, or commissioning one new device.
  A new driver is the abstract driver that knows nothing.
\<close>

theorem driver_refines_contract:
  assumes "reachable cbs drv" and "exec_op op drv = Some (drv', evs)"
  shows "spec_step (abs_driver drv) op (filter (\<lambda>e. is_data_event e \<or> is_commissioned_event e) evs)
      (abs_driver drv') \<and>
    abs_driver (new_driver cbs) = \<lparr>known = Map.empty, opened = False, ready = False\<rparr>"
  using exec_refines [OF reachable_table_ok [OF assms(1)] assms(2)]
  by (simp add: visible_def abs_driver_def new_driver_def)

theorem driver_refines_contract_witness:
  "spec_step (abs_driver example_driver) OpDisable []
     (abs_driver (example_driver\<lparr>drv_commissioning := False\<rparr>))"
  using driver_refines_contract [OF example_reachable, of OpDisable]
  by (simp add: disable_commissioning_def)

text \<open>
  Devices do not interfere: an advertisement from one address leaves every other entry of the
  table as it was, field by field.
\<close>

theorem devices_isolated:
  assumes "reachable cbs drv"
    and "process_advertisement crypto drv addr aty adv rssi data = Some (drv', evs)"
    and "length other = 6" and "other \<noteq> addr"
  shows "lookup (drv_devices drv') other = lookup (drv_devices drv) other"
proof -
  have "spec_step (abs_driver drv) (OpAdvertise crypto addr aty adv rssi data) (visible evs)
      (abs_driver drv')"
    using exec_refines [OF reachable_table_ok [OF assms(1)],
        of "OpAdvertise crypto addr aty adv rssi data"] assms(2)
    by simp
  then have "known (abs_driver drv') other = known (abs_driver drv) other"
    using assms(4) by (cases rule: spec_step.cases) auto
  then show ?thesis using assms(3) by (simp add: abs_driver_def table_map_def size_constants)
qed

theorem devices_isolated_witness:
  "\<exists>drv' evs. exec_op (example_commission 1 (example_addr 8)) example_driver = Some (drv', evs) \<and>
     lookup (drv_devices drv') [1, 2, 3, 4, 0xDA, 0x03] = Some example_switch"
proof -
  have "exec_op (example_commission 1 (example_addr 8)) example_driver \<noteq> None" by code_simp
  then obtain drv' evs where
    x: "exec_op (example_commission 1 (example_addr 8)) example_driver = Some (drv', evs)"
    by auto
  have "lookup (drv_devices example_driver) [1, 2, 3, 4, 0xDA, 0x03] = Some example_switch"
    by code_simp
  moreover have "[1, 2, 3, 4, 0xDA, 0x03] \<noteq> example_addr 8" by (simp add: example_addr_def)
  ultimately show ?thesis
    using devices_isolated [OF example_reachable x [unfolded example_commission_def exec_op.simps],
        of "[1, 2, 3, 4, 0xDA, 0x03]"] x
    by simp
qed

text \<open>
  A telegram that is not accepted costs the device nothing but its signal strength: when no
  split of the payload into sequence number, body and tag is both newer than the stored sequence
  number and confirmed by the crypto backend, the entry keeps its key, its type and its sequence
  number, and the application is not called. (The signal strength is stored before the tag is
  checked, so a forger can set it.)
\<close>

theorem refused_telegram:
  assumes "reachable cbs drv" and "length addr = 6" and "lookup (drv_devices drv) addr = Some d"
    and "process_advertisement crypto drv addr aty adv rssi data = Some (drv', evs)"
    and "\<And>s body tag. extract_manufacturer_data data = Some (seq_bytes s @ body @ tag) \<Longrightarrow>
      length tag = 4 \<Longrightarrow> seq_num d < s \<Longrightarrow>
      \<not> fst (crypto (dev_key d) (addr @ seq_bytes s @ [0, 0, 0]) (seq_bytes s @ body) [] tag [])"
  shows "(lookup (drv_devices drv') addr = Some d \<or>
      lookup (drv_devices drv') addr = Some (d\<lparr>dev_rssi := rssi\<rparr>)) \<and>
    filter is_data_event evs = []"
proof -
  have ok: "table_ok (drv_devices drv)" using reachable_table_ok [OF assms(1)] .
  have kn: "known (abs_driver drv) addr = Some d"
    using assms(2,3) by (simp add: abs_driver_def table_map_def size_constants)
  note D = table_map_SomeD [OF ok kn [unfolded abs_driver_def driver_spec.simps]]
  have na: "\<not> accepts crypto d s body tag"
    if "extract_manufacturer_data data = Some (telegram s body tag)" "length tag = k_tag_len" for s body tag
  proof -
    have "length (addr @ seq_bytes s @ [0, 0, 0]) = k_nonce_len" "length (dev_key d) = k_key_len"
      using D(3,4) by (simp_all add: device_ok_def size_constants)
    then show ?thesis
      using assms(5) [of s body tag] that D(2)
      by (auto simp: accepts_def authentic_def aes_ccm_decrypt_dispatch telegram_def size_constants)
  qed
  have step: "spec_step (abs_driver drv) (OpAdvertise crypto addr aty adv rssi data) (visible evs)
      (abs_driver drv')"
    using exec_refines [OF ok, of "OpAdvertise crypto addr aty adv rssi data"] assms(4) by simp
  then have "known (abs_driver drv') addr \<in> {Some d, Some (d\<lparr>dev_rssi := rssi\<rparr>)} \<and> visible evs = []"
    using kn na by (cases rule: spec_step.cases) auto
  then show ?thesis
    using data_of_visible [of evs] D(4) by (auto simp: abs_driver_def table_map_def)
qed

theorem refused_telegram_witness:
  "\<exists>drv' evs. exec_op (example_press 42 [0, 0, 0, 0]) example_driver = Some (drv', evs) \<and>
     filter is_data_event evs = []"
proof -
  have "exec_op (example_press 42 [0, 0, 0, 0]) example_driver \<noteq> None" by code_simp
  then obtain drv' evs where
    x: "exec_op (example_press 42 [0, 0, 0, 0]) example_driver = Some (drv', evs)"
    by auto
  have l: "lookup (drv_devices example_driver) [1, 2, 3, 4, 0xDA, 0x03] = Some example_switch"
    by code_simp
  have e: "extract_manufacturer_data (adv_of (telegram 42 [0x03] [0, 0, 0, 0])) =
      Some ([42, 0, 0, 0, 0x03] @ [0, 0, 0, 0])"
    by code_simp
  have "\<not> fst (example_backend k n a c tag out)"
    if "extract_manufacturer_data (adv_of (telegram 42 [0x03] [0, 0, 0, 0])) = Some (seq_bytes s @ body @ tag)"
      "length tag = 4" for k n a c out s body tag
  proof -
    have "[42, 0, 0, 0, 0x03] @ [0, 0, 0, 0] = (seq_bytes s @ body) @ tag" using that(1) e by simp
    then have "tag = [0, 0, 0, 0]" using that(2) by (subst (asm) append_eq_append_conv) auto
    then show ?thesis by (simp add: example_backend_def tag_backend_def)
  qed
  with refused_telegram [OF example_reachable _ l x [unfolded example_press_def exec_op.simps]]
  show ?thesis using x by fastforce
qed

text \<open>
  A device whose stored sequence number is the largest 32-bit value is never heard again:
  no later operation short of a reset reports anything from it or changes its sequence number.
  (There is no wrap-around: the check is a strict comparison.)
\<close>

theorem sequence_exhausted:
  assumes "reachable cbs drv" and "OpInit \<notin> set ops" and "run ops drv = Some (drv', evs)"
    and "length addr = 6" and "lookup (drv_devices drv) addr = Some d" and "seq_num d = 0xFFFFFFFF"
  shows "(\<forall>e \<in> set evs. is_data_event e \<longrightarrow> (\<forall>d'. event_device e = Some d' \<longrightarrow> dev_addr d' \<noteq> addr)) \<and>
    map_option seq_num (lookup (drv_devices drv') addr) = Some 0xFFFFFFFF"
proof -
  have ok: "table_ok (drv_devices drv)" using reachable_table_ok [OF assms(1)] .
  have kn: "known (abs_driver drv) addr = Some d"
    using assms(4,5) by (simp add: abs_driver_def table_map_def size_constants)
  have top: "(0xFFFFFFFF :: u32) = - 1" by simp
  have max: "\<not> s > (0xFFFFFFFF :: u32)" for s
    unfolding top by (simp add: not_less)
  obtain d' where d': "known (abs_driver drv') addr = Some d'" "seq_num d \<le> seq_num d'"
    using run_known [OF ok assms(2,3) kn] by blast
  have "seq_num d' = 0xFFFFFFFF"
    using d'(2) assms(6) max [of "seq_num d'"] by (simp add: order.order_iff_strict)
  moreover have "lookup (drv_devices drv') addr = Some d'"
    using d'(1) assms(4) by (simp add: abs_driver_def table_map_def size_constants)
  moreover have "dev_addr d2 \<noteq> addr"
    if "e \<in> set evs" "is_data_event e" "event_device e = Some d2" for e d2
  proof
    assume "dev_addr d2 = addr"
    then have "seq_num d < seq_num d2"
      using run_reports [OF ok assms(2,3)] kn that by auto
    then show False using assms(6) max by simp
  qed
  ultimately show ?thesis by auto
qed

theorem sequence_exhausted_witness:
  "\<exists>drv evs drv' evs'. run [OpInit, OpEnable, example_commission 0xFFFFFFFF [1, 2, 3, 4, 0xDA, 0x03]]
      (new_driver example_callbacks) = Some (drv, evs) \<and>
     run [example_press 0 [9, 9, 9, 9]] drv = Some (drv', evs') \<and>
     map_option seq_num (lookup (drv_devices drv') [1, 2, 3, 4, 0xDA, 0x03]) = Some 0xFFFFFFFF"
proof -
  let ?ops = "[OpInit, OpEnable, example_commission 0xFFFFFFFF [1, 2, 3, 4, 0xDA, 0x03]]"
  let ?r = "run ?ops (new_driver example_callbacks)"
  let ?drv = "example_driver\<lparr>drv_devices := (example_switch\<lparr>seq_num := 0xFFFFFFFF\<rparr>) #
    replicate 7 default_device\<rparr>"
  have "map_option fst ?r = Some ?drv" by code_simp
  then obtain evs where r: "?r = Some (?drv, evs)" by auto
  have "run [example_press 0 [9, 9, 9, 9]] ?drv \<noteq> None" by code_simp
  then obtain drv' evs' where x: "run [example_press 0 [9, 9, 9, 9]] ?drv = Some (drv', evs')" by auto
  have l: "lookup (drv_devices ?drv) [1, 2, 3, 4, 0xDA, 0x03] =
      Some (example_switch\<lparr>seq_num := 0xFFFFFFFF\<rparr>)"
    by code_simp
  have "OpInit \<notin> set [example_press 0 [9, 9, 9, 9]]" by (simp add: example_press_def)
  from sequence_exhausted [OF reachable_run [OF reachable_new r] this x _ l]
  have "map_option seq_num (lookup (drv_devices drv') [1, 2, 3, 4, 0xDA, 0x03]) = Some 0xFFFFFFFF"
    by simp
  with r x show ?thesis by blast
qed

text \<open>
  Memory safety of the driver: on an advertisement over which the AD walk stays inside the
  span, from any state the driver can be in, no access of the driver leaves its object, whatever
  the address, the types, the payload and the answers of the crypto backend are.
\<close>

theorem driver_memory_safe:
  assumes "reachable cbs drv" and "extract_manufacturer_data data \<noteq> None"
  shows "\<exists>drv' evs. process_advertisement crypto drv addr aty adv rssi data = Some (drv', evs)"
  using process_defined [OF reachable_table_ok [OF assms(1)] assms(2)] by auto

theorem driver_memory_safe_witness:
  "\<exists>drv' evs. process_advertisement example_backend example_driver [] 0 0 0 [] = Some (drv', evs)"
  by (rule driver_memory_safe [OF example_reachable]) code_simp

subsection \<open>Which callback is called\<close>

text \<open>A report goes to the callback registered for its kind, and its kind is that of the device.\<close>

definition routed :: "EnoceanCallbacks \<Rightarrow> driver_event \<Rightarrow> bool" where
  "routed cbs e \<longleftrightarrow> (case e of
     Logged l \<Rightarrow> True
   | CallButton f d a b opt \<Rightarrow> button_cb cbs = Some f \<and> dev_type d = Switch
   | CallSensor f d rep opt \<Rightarrow> sensor_cb cbs = Some f \<and> dev_type d \<noteq> Switch
   | CallCommissioned f d \<Rightarrow> commissioned_cb cbs = Some f)"

lemma process_routed:
  assumes ok: "table_ok (drv_devices drv)"
    and x: "process_advertisement crypto drv addr aty adv rssi data = Some (drv', evs)"
  shows "drv_callbacks drv' = drv_callbacks drv \<and> (\<forall>e \<in> set evs. routed (drv_callbacks drv) e)"
  using ok x
proof (cases rule: process_cases)
  case (handled p d ret d' devs)
  have "routed (drv_callbacks drv) e" if "e \<in> set evs" for e
    using handled(3,6) that by (rule handler_events) (simp_all add: routed_def handled)
  then show ?thesis by (simp add: handled)
qed (auto simp: routed_def full_log_def commissioned_log_def call_if_def split: option.splits)

lemma exec_routed:
  assumes "table_ok (drv_devices drv)" and "exec_op op drv = Some (drv', evs)"
  shows "drv_callbacks drv' = drv_callbacks drv \<and> (\<forall>e \<in> set evs. routed (drv_callbacks drv) e)"
proof (cases op)
  case (OpAdvertise crypto addr aty adv rssi data)
  then show ?thesis using assms process_routed by simp
qed (use assms(2) in \<open>auto simp: driver_init_def enable_commissioning_def disable_commissioning_def
       routed_def\<close>)

lemma reachable_callbacks: "reachable cbs drv \<Longrightarrow> drv_callbacks drv = cbs"
proof (induction rule: reachable.induct)
  case (reachable_step drv x drv' evs)
  then show ?case using exec_routed [OF reachable_table_ok] by metis
qed (simp add: new_driver_def)

subsection \<open>From commissioning to the first report\<close>

lemma extract_adv_of: "length p \<le> 252 \<Longrightarrow> extract_manufacturer_data (adv_of p) = Some p"
  using extract_ads [of "[(0xFF, 0xDA # 0x03 # p)]" "[]" "[]"]
  by (simp add: extract_manufacturer_data_def adv_of_def k_ad_type_manufacturer_def)

lemma commission_fields_switch:
  assumes "length key = 16" and "2 \<le> length rest" and "length rest \<noteq> 7" and "detect_device_type addr = Switch"
  shows "commission_fields addr (seq_bytes s @ key @ rest) = Some (s, key)"
  using assms by (simp add: commission_fields_def Let_def read_seq_of_bytes size_constants)

lemma process_commission:
  assumes ok: "table_ok (drv_devices drv)" and r: "relevant drv addr aty adv data p"
    and new: "lookup (drv_devices drv) addr = None" and op: "drv_commissioning drv"
    and p: "k_commissioning_payload_min \<le> length p" "commission_fields addr p = Some (s, key)"
    and room: "length (filter active (drv_devices drv)) < k_max_devices"
  shows "\<exists>devs. store_device (drv_devices drv) (new_device addr aty rssi s key) = Some devs \<and>
    process_advertisement crypto drv addr aty adv rssi data = Some (drv\<lparr>drv_devices := devs\<rparr>,
      commissioned_log addr # call_if (commissioned_cb (drv_callbacks drv))
        (\<lambda>f. CallCommissioned f (new_device addr aty rssi s key)))"
proof -
  have len: "length addr = k_addr_len" using r by (simp add: relevant_def)
  have f: "find_device (drv_devices drv) addr = None" using new by (simp add: lookup_def)
  have okd: "device_ok (new_device addr aty rssi s key)"
    using commission_fields_SomeD [OF p(2)] len by (simp add: device_ok_def)
  have "\<not> (\<forall>x \<in> set (drv_devices drv). active x)" using full_iff_count [OF ok] room by simp
  then obtain devs where "store_device (drv_devices drv) (new_device addr aty rssi s key) = Some devs"
    using store_None_iff [OF ok okd] by fastforce
  then show ?thesis
    using p op by (simp add: process_relevant [OF r] f handle_commissioning_unknown [OF ok len new])
qed

lemma commission_press_run:
  assumes "reachable cbs drv" and "drv_initialised drv" and "commissioning_enabled drv"
    and "device_count drv < 8" and "length addr = 6" and "lookup (drv_devices drv) addr = None"
    and "detect_device_type addr = Switch" and "length key = 16" and "length rest \<in> {2, 3, 4, 5, 6, 8}"
    and "s0 < s" and "st AND 0xE0 = 0" and "length tag = 4"
    and "fst (crypto key (addr @ seq_bytes s @ [0, 0, 0]) (seq_bytes s @ [st]) [] tag [])"
    and "commissioned_cb cbs = Some f" and "button_cb cbs = Some g"
  shows "\<exists>drv'. run
      [OpAdvertise crypto0 addr 0x01 0x03 r0 (adv_of (seq_bytes s0 @ key @ rest)),
       OpAdvertise crypto addr 0x01 0x03 r (adv_of (seq_bytes s @ [st] @ tag))] drv = Some (drv',
      [commissioned_log addr, CallCommissioned f (new_device addr 0x01 r0 s0 key)] @
      map Logged (snd (snd (crypto key (addr @ seq_bytes s @ [0, 0, 0]) (seq_bytes s @ [st]) [] tag []))) @
      [CallButton g ((new_device addr 0x01 r0 s0 key)\<lparr>dev_rssi := r, seq_num := s\<rparr>)
         (if bit st 0 then Press else Release) (drop_bit 1 st AND 0x0F) None])"
proof -
  have ok: "table_ok (drv_devices drv)" using reachable_table_ok [OF assms(1)] .
  have cbs: "drv_callbacks drv = cbs" using reachable_callbacks [OF assms(1)] .
  let ?p = "seq_bytes s0 @ key @ rest"
  have lr: "2 \<le> length rest" "length rest \<noteq> 7" "length rest \<le> 8" using assms(9) by auto
  have len: "length addr = k_addr_len" using assms(5) by (simp add: size_constants)
  have rel: "relevant drv addr 0x01 0x03 (adv_of ?p) ?p"
    using assms(2,5,8) lr
    by (simp add: relevant_def extract_adv_of size_constants payload_constants
        k_adv_nonconn_ind_def k_addr_random_def)
  have cf: "commission_fields addr ?p = Some (s0, key)"
    by (rule commission_fields_switch) (use assms(7,8) lr in auto)
  have room: "length (filter active (drv_devices drv)) < k_max_devices"
    using assms(4) by (simp add: device_count_eq size_constants)
  let ?d = "new_device addr 0x01 r0 s0 key"
  obtain devs where devs: "store_device (drv_devices drv) ?d = Some devs"
    "process_advertisement crypto0 drv addr 0x01 0x03 r0 (adv_of ?p) = Some (drv\<lparr>drv_devices := devs\<rparr>,
      [commissioned_log addr, CallCommissioned f ?d])"
    using process_commission [OF ok rel assms(6) _ _ cf room] assms(3,8,14) lr
    by (auto simp: commissioning_enabled_def payload_constants cbs call_if_def)
  have okd: "device_ok ?d" using assms(8) len by (simp add: device_ok_def new_device_def size_constants)
  have ok1: "table_ok devs" using store_ok [OF ok okd _ devs(1)] by simp
  have l1: "lookup devs addr = Some ?d" using store_lookup [OF ok okd _ devs(1) len] by simp
  let ?drv1 = "drv\<lparr>drv_devices := devs\<rparr>" and ?t = "telegram s [st] tag"
  have rel1: "relevant ?drv1 addr 0x01 0x03 (adv_of ?t) ?t"
    using assms(2,5,12)
    by (simp add: relevant_def extract_adv_of size_constants payload_constants
        k_adv_nonconn_ind_def k_addr_random_def)
  let ?d1 = "?d\<lparr>dev_rssi := r\<rparr>" and ?d2 = "?d\<lparr>dev_rssi := r, seq_num := s\<rparr>"
  have sw: "dev_type ?d = Switch" using assms(7) by (simp add: new_device_def)
  have tag: "length tag = k_tag_len" using assms(12) by (simp add: size_constants)
  let ?bl = "map Logged (snd (snd (crypto key (addr @ seq_bytes s @ [0, 0, 0]) (seq_bytes s @ [st]) [] tag [])))"
  have auth: "authentic crypto ?d1 s [st] tag" and bl: "map Logged (backend_log crypto ?d1 s [st] tag) = ?bl"
    using assms(5,8,13) by (simp_all add: authentic_def backend_log_def aes_ccm_decrypt_dispatch size_constants)
  have h: "handler_of ?d crypto (drv_callbacks ?drv1) ?d1 ?t = Some (True, ?d2,
      ?bl @ [CallButton g ?d2 (if bit st 0 then Press else Release) (drop_bit 1 st AND 0x0F) None])"
    using handle_switch_telegram [of ?d1 tag crypto cbs s st "[]"] okd tag auth bl assms(10,11,15) sw
    by (simp add: handler_of_def cbs k_status_reserved_mask_def call_if_def switch_action_def
        switch_buttons_def)
  obtain devs2 where "process_advertisement crypto ?drv1 addr 0x01 0x03 r (adv_of ?t) =
      Some (?drv1\<lparr>drv_devices := devs2\<rparr>,
        ?bl @ [CallButton g ?d2 (if bit st 0 then Press else Release) (drop_bit 1 st AND 0x0F) None])"
    using process_known [OF _ rel1 _ h] ok1 l1 by auto
  then show ?thesis
    using devs(2) by (simp add: telegram_def)
qed

text \<open>
  C5: From commissioning to the first report. With commissioning open and a free slot, the
  commissioning telegram of a new switch enters it into the table with the key and the sequence
  number the telegram carries, and the commissioned callback is called; the next telegram of the
  switch whose tag the backend confirms under that key, with a larger sequence number, reaches
  the button callback with the state of its buttons.
\<close>

theorem commission_then_press:
  assumes "reachable cbs drv" and "drv_initialised drv" and "commissioning_enabled drv"
    and "device_count drv < 8" and "length addr = 6" and "lookup (drv_devices drv) addr = None"
    and "detect_device_type addr = Switch" and "length key = 16" and "length rest \<in> {2, 3, 4, 5, 6, 8}"
    and "s0 < s" and "st AND 0xE0 = 0" and "length tag = 4"
    and "fst (crypto key (addr @ seq_bytes s @ [0, 0, 0]) (seq_bytes s @ [st]) [] tag [])"
    and "commissioned_cb cbs = Some f" and "button_cb cbs = Some g"
  shows "\<exists>drv' evs d. run
      [OpAdvertise crypto0 addr 0x01 0x03 r0 (adv_of (seq_bytes s0 @ key @ rest)),
       OpAdvertise crypto addr 0x01 0x03 r (adv_of (seq_bytes s @ [st] @ tag))] drv = Some (drv', evs) \<and>
    d = \<lparr>ble_addr = \<lparr>ba_addr = addr, ba_type = 0x01\<rparr>, dev_key = key, seq_num = s0, dev_rssi = r0,
         dev_type = Switch, active = True\<rparr> \<and>
    filter (\<lambda>e. is_data_event e \<or> is_commissioned_event e) evs =
      [CallCommissioned f d,
       CallButton g (d\<lparr>dev_rssi := r, seq_num := s\<rparr>) (if bit st 0 then Press else Release)
         (drop_bit 1 st AND 0x0F) None]"
  using commission_press_run [where crypto = crypto and key = key and addr = addr and s = s and st = st and
      tag = tag and rest = rest and ?crypto0.0 = crypto0 and ?r0.0 = r0 and r = r, OF assms] assms(7)
  by (auto simp: commissioned_log_def new_device_def simp del: run.simps)

theorem commission_then_press_witness:
  "\<exists>drv' evs d. run
      [OpAdvertise example_backend (example_addr 8) 0x01 0x03 0
         (adv_of (seq_bytes 1 @ replicate 16 7 @ [0, 0])),
       OpAdvertise example_backend (example_addr 8) 0x01 0x03 0
         (adv_of (seq_bytes 2 @ [0x03] @ [9, 9, 9, 9]))] example_driver = Some (drv', evs) \<and>
    filter (\<lambda>e. is_data_event e \<or> is_commissioned_event e) evs =
      [CallCommissioned ''on_commissioned'' d,
       CallButton ''on_button'' (d\<lparr>dev_rssi := 0, seq_num := 2\<rparr>) Press k_switch_oa None]"
proof -
  have facts: "drv_initialised example_driver" "commissioning_enabled example_driver"
    "device_count example_driver < 8" "length (example_addr 8) = 6"
    "lookup (drv_devices example_driver) (example_addr 8) = None"
    "detect_device_type (example_addr 8) = Switch" "length (replicate 16 (7 :: u8)) = 16"
    "(1 :: u32) < 2" "(0x03 :: u8) AND 0xE0 = 0" "length [9 :: u8, 9, 9, 9] = 4"
    "fst (example_backend (replicate 16 7) (example_addr 8 @ seq_bytes 2 @ [0, 0, 0])
       (seq_bytes 2 @ [0x03]) [] [9, 9, 9, 9] [])"
    "commissioned_cb example_callbacks = Some ''on_commissioned''"
    "button_cb example_callbacks = Some ''on_button''"
    by code_simp+
  have rest: "length [0 :: u8, 0] \<in> {2, 3, 4, 5, 6, 8}" by simp
  have b: "bit (0x03 :: u8) 0" "drop_bit 1 (0x03 :: u8) AND 0x0F = k_switch_oa" by code_simp+
  note ctp = commission_then_press [where crypto = example_backend and key = "replicate 16 7"
      and addr = "example_addr 8" and s = 2 and ?s0.0 = 1 and st = "0x03" and tag = "[9, 9, 9, 9]"
      and rest = "[0, 0]" and ?crypto0.0 = example_backend and ?r0.0 = 0 and r = 0]
  from ctp [OF example_reachable facts(1-7) rest facts(8-13)]
  show ?thesis unfolding b(2) using b(1) by auto
qed

text \<open>
  Reports reach the right callback: every call the driver makes goes to the function the
  application registered for it when the driver was made, button reports come only from devices
  whose address is that of a switch, and sensor reports only from the others.
\<close>

theorem events_routed:
  assumes "reachable cbs drv" and "exec_op op drv = Some (drv', evs)" and "e \<in> set evs"
  shows "case e of
     Logged l \<Rightarrow> True
   | CallButton f d action buttons opt \<Rightarrow> button_cb cbs = Some f \<and> dev_type d = Switch
   | CallSensor f d report opt \<Rightarrow> sensor_cb cbs = Some f \<and> dev_type d \<noteq> Switch
   | CallCommissioned f d \<Rightarrow> commissioned_cb cbs = Some f"
  using exec_routed [OF reachable_table_ok [OF assms(1)] assms(2)] assms(3)
    reachable_callbacks [OF assms(1)]
  by (simp add: routed_def)

theorem events_routed_witness:
  "\<exists>drv' evs. exec_op (example_press 42 [9, 9, 9, 9]) example_driver = Some (drv', evs) \<and> evs \<noteq> [] \<and>
     button_cb example_callbacks = Some ''on_button''"
proof -
  let ?d = "example_switch\<lparr>dev_rssi := -60, seq_num := 42\<rparr>"
  let ?r = "exec_op (example_press 42 [9, 9, 9, 9]) example_driver"
  have "map_option snd ?r = Some [CallButton ''on_button'' ?d Press 1 None]" by code_simp
  then obtain drv' where r: "?r = Some (drv', [CallButton ''on_button'' ?d Press 1 None])" by auto
  from events_routed [OF example_reachable r, of "CallButton ''on_button'' ?d Press 1 None"]
  show ?thesis using r by simp
qed

end
