(* ===== verification/App_Callbacks.thy ===== *)
theory App_Callbacks
  imports Enocean_Safety "HOL-Library.Signed_Division"
begin

text \<open>
  The application's callbacks (src/application/AppEntry.cpp, lines 13 to 92), which print what the
  driver reports. \<open>None\<close> is an access outside an array or to an empty \<open>std::optional\<close>.
\<close>

definition on_button :: "EnoceanDevice \<Rightarrow> ButtonAction \<Rightarrow> u8 \<Rightarrow> log_call list option" where
  "on_button device action changed =
     do {
       a \<leftarrow> addr_args (ba_addr (ble_addr device));
       Some [LOGGER_NOTICE
         (''EnOcean button %s | addr %02X:%02X:%02X:%02X:%02X:%02X'' @ '' | buttons 0x%02X'')
         (ArgStr (if action = Press then ''PRESS'' else ''RELEASE'') # a @ [ArgInt (uint changed)])]
     }"

text \<open>The degree sign is two bytes in the source's encoding; \<open>%c\<close> takes the character's code.\<close>

definition temperature_format :: string where
  "temperature_format = ''  Temp ('' @ [CHR 0xC2, CHR 0xB0] @ ''C)    : %c%d.%02d''"

definition temperature_args :: "i16 \<Rightarrow> log_arg list" where
  "temperature_args t =
     (let ta = (if sint t < 0 then - t else t)
      in [ArgInt (if sint t < 0 then 45 else 43), ArgInt (sint ta sdiv 100), ArgInt (sint ta smod 100)])"

text \<open>One line for each measurement that is present.\<close>

definition opt_line :: "'a option \<Rightarrow> ('a \<Rightarrow> log_call) \<Rightarrow> log_call list" where
  "opt_line x line = (case x of None \<Rightarrow> [] | Some v \<Rightarrow> [line v])"

definition on_sensor :: "EnoceanDevice \<Rightarrow> SensorData \<Rightarrow> log_call list option" where
  "on_sensor device data =
     do {
       a \<leftarrow> addr_args (ba_addr (ble_addr device));
       accel \<leftarrow>
         (case accel_status data of
            None \<Rightarrow> Some []
          | Some status \<Rightarrow>
              if status \<noteq> 3 then do {
                x \<leftarrow> accel_x_cg data;
                y \<leftarrow> accel_y_cg data;
                z \<leftarrow> accel_z_cg data;
                Some [LOGGER_NOTICE ''  Accel status : %u'' [ArgInt (uint status)],
                      LOGGER_NOTICE ''  Accel (0.01g): X=%d Y=%d Z=%d''
                        [ArgInt (sint x), ArgInt (sint y), ArgInt (sint z)]]
              }
              else Some [LOGGER_NOTICE ''  Accel status : %u'' [ArgInt (uint status)]]);
       Some ([LOGGER_NOTICE ''EnOcean sensor | addr %02X:%02X:%02X:%02X:%02X:%02X'' a] @
         opt_line (temperature_cdeg data) (\<lambda>t. LOGGER_NOTICE temperature_format (temperature_args t)) @
         opt_line (humidity data) (\<lambda>h. LOGGER_NOTICE ''  Humidity (%%) : %u'' [ArgInt (uint h)]) @
         opt_line (occupancy data)
           (\<lambda>b. LOGGER_NOTICE ''  Occupancy    : %s'' [ArgStr (if b then ''yes'' else ''no'')]) @
         opt_line (light_sensor data) (\<lambda>l. LOGGER_NOTICE ''  Light (lx)   : %u'' [ArgInt (uint l)]) @
         opt_line (light_solar_cell data) (\<lambda>l. LOGGER_NOTICE ''  Solar (lx)   : %u'' [ArgInt (uint l)]) @
         opt_line (energy_lvl data) (\<lambda>e. LOGGER_NOTICE ''  Energy (%%)   : %u'' [ArgInt (uint e)]) @
         opt_line (battery_voltage data) (\<lambda>v. LOGGER_NOTICE ''  Battery (mV) : %u'' [ArgInt (uint v)]) @
         opt_line (contact data)
           (\<lambda>b. LOGGER_NOTICE ''  Contact      : %s'' [ArgStr (if b then ''closed'' else ''open'')]) @
         accel)
     }"

definition on_commissioned :: "EnoceanDevice \<Rightarrow> log_call list option" where
  "on_commissioned device =
     do {
       a \<leftarrow> addr_args (ba_addr (ble_addr device));
       Some [LOGGER_NOTICE ''EnOcean device COMMISSIONED: %02X:%02X:%02X:%02X:%02X:%02X'' a]
     }"

definition on_decommissioned :: "EnoceanDevice \<Rightarrow> log_call list option" where
  "on_decommissioned device =
     do {
       a \<leftarrow> addr_args (ba_addr (ble_addr device));
       Some [LOGGER_NOTICE ''EnOcean device DECOMMISSIONED: %02X:%02X:%02X:%02X:%02X:%02X'' a]
     }"

definition on_loaded :: "EnoceanDevice \<Rightarrow> log_call list option" where
  "on_loaded device =
     do {
       a \<leftarrow> addr_args (ba_addr (ble_addr device));
       Some [LOGGER_NOTICE ''EnOcean device LOADED: %02X:%02X:%02X:%02X:%02X:%02X'' a]
     }"

definition app_callbacks :: EnoceanCallbacks where
  "app_callbacks = \<lparr>button_cb = Some ''on_button'', sensor_cb = Some ''on_sensor'',
     commissioned_cb = Some ''on_commissioned'', decommissioned_cb = Some ''on_decommissioned'',
     loaded_cb = Some ''on_loaded''\<rparr>"

text \<open>
  What an event of the driver prints, with the registered functions called by their names; a
  function of another name is not the application's.
\<close>

definition app_event :: "driver_event \<Rightarrow> log_call list option" where
  "app_event e =
     (case e of
        Logged c \<Rightarrow> Some [c]
      | CallButton f d action changed opt \<Rightarrow> if f = ''on_button'' then on_button d action changed else None
      | CallSensor f d data opt \<Rightarrow> if f = ''on_sensor'' then on_sensor d data else None
      | CallCommissioned f d \<Rightarrow> if f = ''on_commissioned'' then on_commissioned d else None)"

fun app_print :: "driver_event list \<Rightarrow> log_call list option" where
  "app_print [] = Some []"
| "app_print (e # es) = do { l \<leftarrow> app_event e; ls \<leftarrow> app_print es; Some (l @ ls) }"

lemma app_print_append:
  "app_print (xs @ ys) = do { l \<leftarrow> app_print xs; ls \<leftarrow> app_print ys; Some (l @ ls) }"
  by (induction xs) (auto split: bind_splits)

lemma app_print_total: "(\<And>e. e \<in> set es \<Longrightarrow> app_event e \<noteq> None) \<Longrightarrow> app_print es \<noteq> None"
proof (induction es)
  case (Cons e es)
  then have "app_event e \<noteq> None" "app_print es \<noteq> None" by simp_all
  then show ?case by auto
qed simp

lemma app_print_logs: "app_print (map Logged ls) = Some ls"
  by (induction ls) (auto simp: app_event_def)

subsection \<open>Temperatures\<close>

lemma temperature_args_abs:
  assumes t: "sint t \<noteq> - 32768"
  shows "temperature_args t =
      [ArgInt (if sint t < 0 then 45 else 43), ArgInt (\<bar>sint t\<bar> div 100), ArgInt (\<bar>sint t\<bar> mod 100)]"
proof -
  define ta where "ta = (if sint t < 0 then - t else t)"
  have range: "- 32768 \<le> sint t" "sint t < 32768"
    using sint_ge [of t] sint_lt [of t] by simp_all
  have ta: "sint ta = \<bar>sint t\<bar>"
  proof (cases "sint t < 0")
    case True
    have "sint (- t) = - sint t"
      using t range by (simp add: sint_word_ariths signed_take_bit_int_eq_self_iff)
    then show ?thesis using True by (simp add: ta_def)
  qed (simp add: ta_def)
  have div: "\<bar>sint t\<bar> sdiv 100 = \<bar>sint t\<bar> div 100" "\<bar>sint t\<bar> smod 100 = \<bar>sint t\<bar> mod 100"
    by (auto simp: signed_divide_int_def signed_modulo_int_def sgn_if)
  show ?thesis
    by (simp only: temperature_args_def Let_def ta_def [symmetric] ta div)
qed

lemma temperature_args_min:
  assumes "sint t = - 32768"
  shows "temperature_args t = [ArgInt 45, ArgInt (- 327), ArgInt (- 68)]"
proof -
  have "sint (word_of_int (- 32768) :: i16) = - 32768" by code_simp
  then have "t = word_of_int (- 32768)" using assms by (metis signed_word_eqI)
  moreover have "temperature_args (word_of_int (- 32768)) = [ArgInt 45, ArgInt (- 327), ArgInt (- 68)]"
    by code_simp
  ultimately show ?thesis by simp
qed

text \<open>
  A temperature is printed as its sign, its whole degrees and its hundredths: for every value
  but -32768 the two numbers are non-negative, the hundredths below 100, and together with the
  sign they are the value; -32768 has no positive counterpart in 16 bits and is printed with the
  negative numbers -327 and -68.
\<close>

theorem temperature_printed:
  "if sint t = - 32768
   then temperature_args t = [ArgInt 45, ArgInt (- 327), ArgInt (- 68)]
   else \<exists>whole hundredths. temperature_args t =
          [ArgInt (if sint t < 0 then 45 else 43), ArgInt whole, ArgInt hundredths] \<and>
        0 \<le> whole \<and> 0 \<le> hundredths \<and> hundredths < 100 \<and>
        sint t = (if sint t < 0 then - 1 else 1) * (100 * whole + hundredths)"
proof (cases "sint t = - 32768")
  case True
  then show ?thesis by (simp add: temperature_args_min)
next
  case False
  have parts: "0 \<le> n div 100 \<and> 0 \<le> n mod 100 \<and> n mod 100 < 100" if "0 \<le> n" for n :: int
    using that by (simp add: pos_imp_zdiv_nonneg_iff)
  have "0 \<le> \<bar>sint t\<bar> div 100" "0 \<le> \<bar>sint t\<bar> mod 100" "\<bar>sint t\<bar> mod 100 < 100"
    using parts [OF abs_ge_zero [of "sint t"]] by blast+
  moreover have "sint t = (if sint t < 0 then - 1 else 1) * (100 * (\<bar>sint t\<bar> div 100) + \<bar>sint t\<bar> mod 100)"
    unfolding mult_div_mod_eq by simp
  ultimately show ?thesis
    using False temperature_args_abs [OF False] by (simp only: if_False simp_thms) blast
qed

subsection \<open>Every report can be printed\<close>

text \<open>An acceleration status other than 3 comes with the three axes.\<close>

definition accel_complete :: "SensorData \<Rightarrow> bool" where
  "accel_complete d \<longleftrightarrow> accel_status d \<noteq> None \<longrightarrow>
     accel_x_cg d \<noteq> None \<and> accel_y_cg d \<noteq> None \<and> accel_z_cg d \<noteq> None"

lemma apply_tlv_complete: "accel_complete d \<Longrightarrow> accel_complete (apply_tlv ty n v d)"
  by (simp add: accel_complete_def apply_tlv_def)

lemma parse_tlv_complete:
  "accel_complete d \<Longrightarrow> parse_tlv_from bytes j d = Some d' \<Longrightarrow> accel_complete d'"
proof (induction bytes j d rule: parse_tlv_from.induct)
  case (1 bytes j d)
  show ?case
  proof (cases "j < length bytes")
    case False
    then show ?thesis using "1.prems" by (simp add: parse_tlv_from.simps)
  next
    case True
    have p: "parse_tlv_from bytes j d = Some d'" by (rule "1.prems"(2))
    show ?thesis
      using p True "1.IH" "1.prems"(1) apply_tlv_complete
      by (subst (asm) parse_tlv_from.simps) (auto simp: Let_def rd_def split: if_splits bind_splits)
  qed
qed

lemma sensor_report_complete: "accel_complete (sensor_report body)"
  using parse_tlv_complete [OF _ sensor_report [of body]]
  by (simp add: accel_complete_def empty_sensor_data_def)

definition printable :: "driver_event \<Rightarrow> bool" where
  "printable e \<longleftrightarrow> (case e of
     Logged l \<Rightarrow> True
   | CallButton f d a b opt \<Rightarrow> f = ''on_button'' \<and> device_ok d
   | CallSensor f d rep opt \<Rightarrow> f = ''on_sensor'' \<and> device_ok d \<and> accel_complete rep
   | CallCommissioned f d \<Rightarrow> f = ''on_commissioned'' \<and> device_ok d)"

lemma printable_event: "printable e \<Longrightarrow> app_event e \<noteq> None"
  by (auto simp: printable_def app_event_def device_ok_def on_button_def on_sensor_def
      on_commissioned_def addr_args_eq accel_complete_def split: driver_event.splits option.splits)

lemma process_printable:
  assumes ok: "table_ok (drv_devices drv)" and cbs: "drv_callbacks drv = app_callbacks"
    and x: "process_advertisement crypto drv addr aty adv rssi data = Some (drv', evs)" and e: "e \<in> set evs"
  shows "printable e"
  using ok x
proof (cases rule: process_cases)
  case (handled p d ret d' devs)
  from handled(3,6) e show ?thesis
    by (rule handler_events)
      (simp_all add: printable_def handled cbs app_callbacks_def sensor_report_complete)
qed (use e in \<open>auto simp: printable_def full_log_def commissioned_log_def call_if_def cbs
       app_callbacks_def\<close>)

end
