(* ===== verification/Ble_Core.thy ===== *)
theory Ble_Core
  imports Error_Codes
begin

text \<open>
  The scanner interface (src/platform/common/ible/IBle.hpp): the callback type and the CRTP class
  \<open>IBle\<close> over the derived class's operations. A call of the advertisement callback is an
  \<open>adv_report\<close>; the context pointer is a number, 0 for the null pointer.
\<close>

record adv_report =
  ar_addr :: "u8 list"
  ar_addr_type :: u8
  ar_adv_type :: u8
  ar_rssi :: i8
  ar_data :: "u8 list"

type_synonym adv_callback = "string option"

type_synonym ble_result = "(unit, BleError) error_handler logged"

text \<open>An operation of a scanner: its result, the scanner afterwards and the system calls it makes.\<close>

type_synonym ('s, 'c) ble_op = "'s \<Rightarrow> ble_result \<times> 's \<times> 'c list"

definition ble_init ::
    "(adv_callback \<Rightarrow> u64 \<Rightarrow> ('s, 'c) ble_op) \<Rightarrow> adv_callback \<Rightarrow> u64 \<Rightarrow> ('s, 'c) ble_op" where
  "ble_init init_impl cb ctx s =
     (if cb = None then
        (of_error BleError_name BleError_InvalidCallback ''Advertisement callback is null'' ''init'', s, [])
      else init_impl cb ctx s)"

definition ble_start_scan :: "('s, 'c) ble_op \<Rightarrow> ('s, 'c) ble_op" where
  "ble_start_scan start_scan_impl s = start_scan_impl s"

definition ble_stop_scan :: "('s, 'c) ble_op \<Rightarrow> ('s, 'c) ble_op" where
  "ble_stop_scan stop_scan_impl s = stop_scan_impl s"

subsection \<open>The contract of a scanner\<close>

text \<open>
  A platform's \<open>init_impl\<close> registers the callback and the context it is given, and the other
  operations keep them.
\<close>

locale scanner_platform =
  fixes init_impl :: "'e \<Rightarrow> adv_callback \<Rightarrow> u64 \<Rightarrow> ('s, 'c) ble_op"
    and start_impl :: "'e \<Rightarrow> ('s, 'c) ble_op" and stop_impl :: "'e \<Rightarrow> ('s, 'c) ble_op"
    and registered :: "'s \<Rightarrow> adv_callback \<times> u64"
  assumes init_registers: "init_impl env cb ctx s = (r, s', cs) \<Longrightarrow> registered s' = (cb, ctx)"
    and start_keeps: "start_impl env s = (r, s', cs) \<Longrightarrow> registered s' = registered s"
    and stop_keeps: "stop_impl env s = (r, s', cs) \<Longrightarrow> registered s' = registered s"
begin

lemma init_null: "ble_init (init_impl env) None ctx s = (r, s', cs) \<Longrightarrow> s' = s \<and> \<not> has_value (fst r) \<and> cs = []"
  by (auto simp: ble_init_def of_error_def)

lemma init_not_null:
  "ble_init (init_impl env) (Some f) ctx s = (r, s', cs) \<Longrightarrow> registered s' = (Some f, ctx)"
  by (simp add: ble_init_def init_registers)

end

end
