(* ===== verification/Thread_Core.thy ===== *)
theory Thread_Core
  imports Error_Codes
begin

text \<open>
  Threads, the part every platform shares (src/platform/common/ithread/IThread.hpp): the members
  of \<open>IThread\<close> as a record that the platforms extend, its operations over the derived class's
  \<open>os_create\<close> and \<open>os_destroy\<close>, and the contract these have to keep, as a locale.

  The error numbers of the operating systems are a datatype of the macros the code names; the
  result of a call that returns 0 or an error number is \<open>None\<close> for 0.
\<close>

datatype errno =
    EPERM | ESRCH | EINTR | EAGAIN | ENOMEM | EACCES | EBUSY | EEXIST | ENODEV | EINVAL | ENFILE
  | EMFILE | ENOSPC | EIO | EBADF | EDEADLK | EOVERFLOW | ENOTSUP | ENOMSG | ETIMEDOUT | EALREADY | EOTHER int

type_synonym os_result = "errno option"

abbreviation os_ok :: os_result where "os_ok \<equiv> None"

subsection \<open>Parameters and entry functions\<close>

datatype ThreadParamVariant =
    ThreadParam1 u64
  | ThreadParam2 u64 u64
  | ThreadParam3 u64 u64 u64
  | ThreadParamValue u64

text \<open>Entry functions by name, one constructor per signature.\<close>

datatype ThreadFunctionVariant =
    ThreadFunction1 string
  | ThreadFunction2 string
  | ThreadFunction3 string

record ThreadStackInfo =
  stack_size :: u64
  stack_pointer :: u64

record IThread =
  thread_active :: bool
  thread_name :: string
  stack_info :: ThreadStackInfo
  thread_priority :: int

definition thread_name_size :: nat where "thread_name_size = 32"

text \<open>\<open>std::copy_n\<close> into the zero-initialised array, and the terminator behind it.\<close>

definition thread_name_literal :: "string \<Rightarrow> string option" where
  "thread_name_literal name =
     (if length name + 1 \<le> thread_name_size
      then Some ((name @ replicate (thread_name_size - length name) (CHR 0x00))
                   [length name := CHR 0x00])
      else None)"

definition thread_name_runtime :: "string \<Rightarrow> string" where
  "thread_name_runtime name =
     (let copy_len = min (length name) (thread_name_size - 1)
      in (take copy_len name @ replicate (thread_name_size - copy_len) (CHR 0x00))
           [copy_len := CHR 0x00])"

definition new_thread :: "string \<Rightarrow> IThread" where
  "new_thread name = \<lparr>thread_active = False, thread_name = thread_name_runtime name,
     stack_info = \<lparr>stack_size = 0, stack_pointer = 0\<rparr>, thread_priority = 0\<rparr>"

text \<open>A C string: the characters before the first NUL.\<close>

definition c_str :: "string \<Rightarrow> string" where
  "c_str s = takeWhile (\<lambda>c. c \<noteq> CHR 0x00) s"

subsection \<open>Operations\<close>

type_synonym thread_result = "(unit, ThreadError) error_handler logged"

text \<open>
  An operation of the derived class: it may change the thread object and makes calls of the
  operating system, listed in order.
\<close>

type_synonym ('s, 'c) os_op = "'s \<Rightarrow> thread_result \<times> 's \<times> 'c list"

definition set_active :: "bool \<Rightarrow> 'a IThread_scheme \<Rightarrow> 'a IThread_scheme" where
  "set_active is_active th = th\<lparr>thread_active := is_active\<rparr>"

definition set_stack_info :: "ThreadStackInfo \<Rightarrow> 'a IThread_scheme \<Rightarrow> 'a IThread_scheme" where
  "set_stack_info info th = th\<lparr>stack_info := info\<rparr>"

definition set_thread_priority :: "int \<Rightarrow> 'a IThread_scheme \<Rightarrow> 'a IThread_scheme" where
  "set_thread_priority priority th = th\<lparr>thread_priority := priority\<rparr>"

definition set_thread_info :: "ThreadStackInfo \<Rightarrow> int \<Rightarrow> 'a IThread_scheme \<Rightarrow> 'a IThread_scheme" where
  "set_thread_info info priority th = set_thread_priority priority (set_stack_info info th)"

definition thread_create ::
    "('a IThread_scheme, 'c) os_op \<Rightarrow> ThreadStackInfo \<Rightarrow> int \<Rightarrow> ('a IThread_scheme, 'c) os_op" where
  "thread_create os_create info priority th =
     (if thread_active th then
        (of_error ThreadError_name ThreadError_AlreadyCreated ''Thread already created'' ''create'',
         th, [])
      else
        let th = set_thread_info info priority th;
            (result, th, calls) = os_create th
        in (result, if has_value (fst result) then th\<lparr>thread_active := True\<rparr> else th, calls))"

text \<open>\<open>None\<close>: the operating system never returns from waiting for the thread.\<close>

definition thread_destroy ::
    "('a IThread_scheme \<Rightarrow> (thread_result \<times> 'a IThread_scheme \<times> 'c list) option) \<Rightarrow>
      'a IThread_scheme \<Rightarrow> (thread_result \<times> 'a IThread_scheme \<times> 'c list) option" where
  "thread_destroy os_destroy th =
     (if \<not> thread_active th then Some (of_value (), th, [])
      else do {
        (result, th, calls) \<leftarrow> os_destroy th;
        Some (result, if has_value (fst result) then th\<lparr>thread_active := False\<rparr> else th, calls)
      })"

definition is_active :: "'a IThread_scheme \<Rightarrow> bool" where
  "is_active th = thread_active th"

text \<open>The destructor of the derived classes.\<close>

definition thread_dtor ::
    "('a IThread_scheme \<Rightarrow> (thread_result \<times> 'a IThread_scheme \<times> 'c list) option) \<Rightarrow>
      'a IThread_scheme \<Rightarrow> ('a IThread_scheme \<times> 'c list) option" where
  "thread_dtor os_destroy th =
     (if is_active th then
        do { (result, th, calls) \<leftarrow> thread_destroy os_destroy th; Some (th, calls) }
      else Some (th, []))"

subsection \<open>The contract of a platform and the life of a thread\<close>

datatype 'e thread_op = ThreadCreate 'e ThreadStackInfo int | ThreadDestroy 'e

type_synonym ('a, 'c) os_destroy_op =
  "'a IThread_scheme \<Rightarrow> (thread_result \<times> 'a IThread_scheme \<times> 'c list) option"

text \<open>A sequence of operations on one object, with the calls of the system they make.\<close>

fun thread_life ::
    "('e \<Rightarrow> ('a IThread_scheme, 'c) os_op) \<Rightarrow> ('e \<Rightarrow> ('a, 'c) os_destroy_op) \<Rightarrow> 'e thread_op list \<Rightarrow>
      'a IThread_scheme \<Rightarrow> ('a IThread_scheme \<times> 'c list) option" where
  "thread_life os_create os_destroy [] th = Some (th, [])"
| "thread_life os_create os_destroy (ThreadCreate env info priority # ops) th =
     (let (r, th', cs) = thread_create (os_create env) info priority th in
      map_option (\<lambda>(th'', ds). (th'', cs @ ds)) (thread_life os_create os_destroy ops th'))"
| "thread_life os_create os_destroy (ThreadDestroy env # ops) th =
     do {
       (r, th', cs) \<leftarrow> thread_destroy (os_destroy env) th;
       (th'', ds) \<leftarrow> thread_life os_create os_destroy ops th';
       Some (th'', cs @ ds)
     }"

text \<open>
  A platform starts at most one thread per successful \<open>os_create\<close> and none on failure, and joins
  one on a successful \<open>os_destroy\<close>; \<open>started\<close> and \<open>joined\<close> count these in the calls. \<open>env\<close> is
  what the platform's operations depend on: the arguments and the answers of the system.
\<close>

locale thread_platform =
  fixes os_create :: "'e \<Rightarrow> ('a IThread_scheme, 'c) os_op"
    and os_destroy :: "'e \<Rightarrow> ('a, 'c) os_destroy_op"
    and started :: "'c list \<Rightarrow> nat" and joined :: "'c list \<Rightarrow> nat"
  assumes counts_append: "started (cs @ ds) = started cs + started ds"
      "joined (cs @ ds) = joined cs + joined ds"
    and counts_nil: "started [] = 0" "joined [] = 0"
    and create_starts: "os_create env th = (r, th', cs) \<Longrightarrow>
      started cs = (if has_value (fst r) then 1 else 0) \<and> joined cs = 0 \<and>
      (\<not> has_value (fst r) \<longrightarrow> thread_active th' = thread_active th)"
    and destroy_joins: "os_destroy env th = Some (r, th', cs) \<Longrightarrow>
      joined cs = (if has_value (fst r) then 1 else 0) \<and> started cs = 0 \<and>
      (\<not> has_value (fst r) \<longrightarrow> thread_active th' = thread_active th)"
begin

lemma create_balance:
  assumes "thread_create (os_create env) info priority th = (r, th', cs)"
  shows "started cs + (if thread_active th then 1 else 0) = (if thread_active th' then 1 else 0)
    \<and> joined cs = 0"
  using assms create_starts [of env "set_thread_info info priority th"] counts_nil
  by (auto simp: thread_create_def of_error_def set_thread_info_def set_stack_info_def
      set_thread_priority_def Let_def split: if_splits prod.splits)

lemma destroy_balance:
  assumes "thread_destroy (os_destroy env) th = Some (r, th', cs)"
  shows "joined cs + (if thread_active th' then 1 else 0) = (if thread_active th then 1 else 0)
    \<and> started cs = 0"
  using assms destroy_joins [of env th] counts_nil
  by (auto simp: thread_destroy_def of_value_def split: if_splits bind_splits)

text \<open>
  Over any sequence of operations the object is active exactly when it has started one thread
  more than it has joined: none is started twice, none joined twice, none forgotten.
\<close>

lemma life_balance:
  "thread_life os_create os_destroy ops th = Some (th', cs) \<Longrightarrow>
     started cs + (if thread_active th then 1 else 0) = joined cs + (if thread_active th' then 1 else 0)"
proof (induction ops arbitrary: th cs)
  case Nil
  then show ?case by (simp add: counts_nil)
next
  case (Cons x ops)
  show ?case
  proof (cases x)
    case (ThreadCreate env info priority)
    obtain r th1 cs1 where c: "thread_create (os_create env) info priority th = (r, th1, cs1)"
      by (metis prod_cases3)
    with Cons.prems ThreadCreate obtain ds where d: "thread_life os_create os_destroy ops th1 = Some (th', ds)" "cs = cs1 @ ds"
      by auto
    show ?thesis using create_balance [OF c] Cons.IH [OF d(1)] by (simp add: d(2) counts_append)
  next
    case (ThreadDestroy env)
    with Cons.prems obtain r th1 cs1 ds where
      c: "thread_destroy (os_destroy env) th = Some (r, th1, cs1)" and
      d: "thread_life os_create os_destroy ops th1 = Some (th', ds)" "cs = cs1 @ ds"
      by (auto split: bind_splits)
    show ?thesis using destroy_balance [OF c] Cons.IH [OF d(1)] by (simp add: d(2) counts_append)
  qed
qed

end

subsection \<open>Names\<close>

lemma length_thread_name_runtime [simp]: "length (thread_name_runtime name) = thread_name_size"
  by (simp add: thread_name_runtime_def Let_def thread_name_size_def)

lemma takeWhile_no_nul: "CHR 0x00 \<notin> set s \<Longrightarrow> c_str (s @ CHR 0x00 # rest) = s"
  unfolding c_str_def by (subst takeWhile_append2) auto

text \<open>
  A runtime name is copied into the 32-byte array without overflow and always terminated; it
  is read back whole when it has at most 31 characters, and cut to its first 31 otherwise. A
  literal that the constructor admits gives the same array.
\<close>

theorem thread_name_terminated:
  "length (thread_name_runtime name) = 32 \<and> CHR 0x00 \<in> set (thread_name_runtime name) \<and>
   (CHR 0x00 \<notin> set name \<longrightarrow> c_str (thread_name_runtime name) = take 31 name) \<and>
   (thread_name_literal name = None \<longleftrightarrow> length name \<ge> 32) \<and>
   (length name \<le> 31 \<longrightarrow> thread_name_literal name = Some (thread_name_runtime name))"
proof -
  let ?n = "min (length name) 31"
  have r: "thread_name_runtime name = take 31 name @ CHR 0x00 # replicate (31 - ?n) (CHR 0x00)"
  proof -
    have "(take ?n name @ replicate (32 - ?n) (CHR 0x00)) [?n := CHR 0x00] =
        take ?n name @ CHR 0x00 # replicate (31 - ?n) (CHR 0x00)"
    proof -
      have "32 - ?n = Suc (31 - ?n)" by simp
      then show ?thesis by (simp add: list_update_append del: replicate.simps) (simp add: replicate_Suc)
    qed
    moreover have "take ?n name = take 31 name" by (simp add: min_def)
    ultimately show ?thesis by (simp add: thread_name_runtime_def Let_def thread_name_size_def)
  qed
  have "CHR 0x00 \<notin> set name \<Longrightarrow> c_str (thread_name_runtime name) = take 31 name"
    unfolding r by (rule takeWhile_no_nul) (meson in_set_takeD)
  moreover have "thread_name_literal name = Some (thread_name_runtime name)" if "length name \<le> 31"
    using that by (simp add: thread_name_literal_def thread_name_runtime_def thread_name_size_def Let_def min_def)
  ultimately show ?thesis
    using length_thread_name_runtime [of name]
    by (auto simp: r thread_name_literal_def thread_name_size_def)
qed

theorem thread_name_terminated_witness:
  "c_str (thread_name_runtime ''BleScanner'') = ''BleScanner''"
  using thread_name_terminated [of "''BleScanner''"] by simp

end
