(* ===== verification/Thread_Posix.thy ===== *)
theory Thread_Posix
  imports Thread_Core
begin

text \<open>
  POSIX threads (src/platform/posix_core/thread/Thread.cpp). The pthread and sched functions are
  parameters: \<open>api\<close> holds the answers of the system to each call, \<open>pa_create\<close> as a function of
  the attributes the thread is created with, and \<open>pa_join\<close> as the sequence of answers of
  \<open>pthread_join\<close>. \<open>min_stack\<close> is \<open>PTHREAD_STACK_MIN\<close>. The state of the attribute object and the
  calls that create and destroy things are modelled here.
\<close>

datatype sched_policy = SCHED_OTHER | SCHED_FIFO

record pthread_attr =
  at_stacksize :: u64
  at_inherit :: bool
  at_policy :: sched_policy
  at_priority :: int

record pthread_api =
  pa_stack_min :: u64
  pa_attr_init :: os_result
  pa_setstacksize :: "u64 \<Rightarrow> os_result"
  pa_setinheritsched :: "bool \<Rightarrow> os_result"
  pa_setschedpolicy :: "sched_policy \<Rightarrow> os_result"
  pa_setschedparam :: "int \<Rightarrow> os_result"
  pa_priority_min :: "int option"
  pa_priority_max :: "int option"
  pa_create :: "pthread_attr \<Rightarrow> string \<Rightarrow> u64 \<Rightarrow> os_result"
  pa_join :: "os_result list"

text \<open>\<open>None\<close> for the two limits: \<open>sched_get_priority_min\<close> or \<open>_max\<close> returns -1.\<close>

datatype pthread_call =
    AttrInit
  | AttrDestroy
  | PthreadCreate pthread_attr string u64 os_result
  | PthreadJoin os_result

definition errno_to_thread_error :: "errno \<Rightarrow> ThreadError" where
  "errno_to_thread_error error_code =
     (case error_code of
        EINVAL \<Rightarrow> ThreadError_InvalidParameter
      | ENOMEM \<Rightarrow> ThreadError_InsufficientMemory
      | EAGAIN \<Rightarrow> ThreadError_ResourceLimitExceeded
      | EPERM \<Rightarrow> ThreadError_PermissionDenied
      | ESRCH \<Rightarrow> ThreadError_ThreadNotFound
      | EDEADLK \<Rightarrow> ThreadError_Deadlock
      | EALREADY \<Rightarrow> ThreadError_AlreadyCreated
      | _ \<Rightarrow> ThreadError_Unknown)"

subsection \<open>Attributes\<close>

text \<open>The attributes after \<open>pthread_attr_init\<close>: the scheduling is inherited.\<close>

definition default_attr :: pthread_attr where
  "default_attr = \<lparr>at_stacksize = 0, at_inherit = True, at_policy = SCHED_OTHER, at_priority = 0\<rparr>"

text \<open>A setter changes the attributes when it succeeds.\<close>

definition pthread_attr_setinheritsched :: "pthread_api \<Rightarrow> bool \<Rightarrow> pthread_attr \<Rightarrow> os_result \<times> pthread_attr" where
  "pthread_attr_setinheritsched api inherit attr =
     (case pa_setinheritsched api inherit of
        None \<Rightarrow> (os_ok, attr\<lparr>at_inherit := inherit\<rparr>) | Some e \<Rightarrow> (Some e, attr))"

definition pthread_attr_setschedpolicy ::
    "pthread_api \<Rightarrow> sched_policy \<Rightarrow> pthread_attr \<Rightarrow> os_result \<times> pthread_attr" where
  "pthread_attr_setschedpolicy api policy attr =
     (case pa_setschedpolicy api policy of
        None \<Rightarrow> (os_ok, attr\<lparr>at_policy := policy\<rparr>) | Some e \<Rightarrow> (Some e, attr))"

definition pthread_attr_setschedparam :: "pthread_api \<Rightarrow> int \<Rightarrow> pthread_attr \<Rightarrow> os_result \<times> pthread_attr" where
  "pthread_attr_setschedparam api priority attr =
     (case pa_setschedparam api priority of
        None \<Rightarrow> (os_ok, attr\<lparr>at_priority := priority\<rparr>) | Some e \<Rightarrow> (Some e, attr))"

definition pthread_attr_setstacksize :: "pthread_api \<Rightarrow> u64 \<Rightarrow> pthread_attr \<Rightarrow> os_result \<times> pthread_attr" where
  "pthread_attr_setstacksize api n attr =
     (case pa_setstacksize api n of
        None \<Rightarrow> (os_ok, attr\<lparr>at_stacksize := n\<rparr>) | Some e \<Rightarrow> (Some e, attr))"

lemmas attr_setters =
  pthread_attr_setinheritsched_def pthread_attr_setschedpolicy_def pthread_attr_setschedparam_def
  pthread_attr_setstacksize_def

text \<open>\<open>std::clamp\<close>.\<close>

definition clamp :: "int \<Rightarrow> int \<Rightarrow> int \<Rightarrow> int" where
  "clamp v lo hi = (if v < lo then lo else if hi < v then hi else v)"

text \<open>The result 0 is \<open>None\<close>; -EINVAL and -EPERM are \<open>Some EINVAL\<close> and \<open>Some EPERM\<close>.\<close>

definition configure_priority :: "pthread_api \<Rightarrow> pthread_attr \<Rightarrow> int \<Rightarrow> os_result \<times> pthread_attr" where
  "configure_priority api attr priority =
     (if priority < 0 then (os_ok, snd (pthread_attr_setinheritsched api True attr))
      else case (pa_priority_min api, pa_priority_max api) of
        (Some min_priority, Some max_priority) \<Rightarrow>
          let clamped = clamp priority min_priority max_priority;
              (r1, attr) = pthread_attr_setschedpolicy api SCHED_FIFO attr;
              policy_ok = (r1 = os_ok);
              (r2, attr) = (if policy_ok then pthread_attr_setschedparam api clamped attr
                            else (r1, attr));
              param_ok = (policy_ok \<and> r2 = os_ok);
              (r3, attr) = (if param_ok then pthread_attr_setinheritsched api False attr
                            else (r2, attr));
              explicit_ok = (param_ok \<and> r3 = os_ok)
          in if policy_ok \<and> param_ok \<and> explicit_ok then (os_ok, attr)
             else
               let attr = snd (pthread_attr_setschedpolicy api SCHED_OTHER attr);
                   attr = snd (pthread_attr_setinheritsched api True attr)
               in (Some EPERM, attr)
      | _ \<Rightarrow> (Some EINVAL, snd (pthread_attr_setinheritsched api True attr)))"

subsection \<open>Stack size\<close>

definition minimum_stack_size :: "pthread_api \<Rightarrow> u64" where
  "minimum_stack_size api = (if pa_stack_min api = 0 then 16384 else pa_stack_min api)"

text \<open>Pointers have 8 bytes.\<close>

definition sanitize_stack_size :: "pthread_api \<Rightarrow> u64 \<Rightarrow> u64" where
  "sanitize_stack_size api requested =
     (let min_stack = minimum_stack_size api in
      if requested = 0 then min_stack
      else
        let word_align = 8 - 1;
            aligned = (requested + word_align) AND NOT word_align
        in max aligned min_stack)"

subsection \<open>Creation\<close>

record PosixThread = IThread +
  pt_param :: u64

definition attempt_create ::
    "pthread_api \<Rightarrow> ThreadFunctionVariant \<Rightarrow> u64 \<Rightarrow> int \<Rightarrow> u64 \<Rightarrow> bool \<Rightarrow> os_result \<times> pthread_call list" where
  "attempt_create api threadFunction stack_size' priority param force_inherit =
     (case pa_attr_init api of
        Some init_err \<Rightarrow> (Some init_err, [])
      | None \<Rightarrow>
          let (stack_err, attr) = pthread_attr_setstacksize api stack_size' default_attr in
          if stack_err \<noteq> os_ok then (stack_err, [AttrInit, AttrDestroy])
          else
            let attr =
              (if force_inherit then
                 snd (pthread_attr_setinheritsched api True
                   (snd (pthread_attr_setschedpolicy api SCHED_OTHER attr)))
               else snd (configure_priority api attr priority)) in
            (case threadFunction of
               ThreadFunction1 threadFun \<Rightarrow>
                 let err = pa_create api attr threadFun param
                 in (err, [AttrInit, PthreadCreate attr threadFun param err, AttrDestroy])
             | _ \<Rightarrow> (Some EINVAL, [AttrInit, AttrDestroy])))"

text \<open>What both overloads do once the parameter is known.\<close>

definition posix_create_with ::
    "pthread_api \<Rightarrow> ThreadFunctionVariant \<Rightarrow> u64 \<Rightarrow> int \<Rightarrow> ('a PosixThread_scheme, pthread_call) os_op" where
  "posix_create_with api threadFunction stack_size' priority th =
     (let (err, calls) = attempt_create api threadFunction stack_size' priority (pt_param th) False;
          (err, calls) =
            (if err = Some EPERM \<and> priority \<ge> 0
             then let (err', calls') =
                    attempt_create api threadFunction stack_size' priority (pt_param th) True
                  in (err', calls @ calls')
             else (err, calls))
      in case err of
           None \<Rightarrow> (of_value (), set_active True th, calls)
         | Some e \<Rightarrow>
             (of_error ThreadError_name (errno_to_thread_error e) ''pthread_create failed'' ''os_create'',
              th, calls))"

definition posix_os_create ::
    "pthread_api \<Rightarrow> ThreadFunctionVariant \<Rightarrow> ThreadStackInfo \<Rightarrow> int \<Rightarrow> ThreadParamVariant \<Rightarrow>
      ('a PosixThread_scheme, pthread_call) os_op" where
  "posix_os_create api threadFunction info priority params th =
     (let stack_size' = sanitize_stack_size api (stack_size info);
          th = th\<lparr>pt_param := 0\<rparr>
      in case params of
           ThreadParamValue raw_value \<Rightarrow>
             posix_create_with api threadFunction stack_size' priority (th\<lparr>pt_param := raw_value\<rparr>)
         | ThreadParam1 p \<Rightarrow>
             posix_create_with api threadFunction stack_size' priority (th\<lparr>pt_param := p\<rparr>)
         | _ \<Rightarrow>
             (of_error ThreadError_name ThreadError_InvalidParameter ''Invalid thread parameter type''
                ''os_create'', th, []))"

text \<open>The overload without parameters.\<close>

definition posix_os_create0 ::
    "pthread_api \<Rightarrow> ThreadFunctionVariant \<Rightarrow> ThreadStackInfo \<Rightarrow> int \<Rightarrow>
      ('a PosixThread_scheme, pthread_call) os_op" where
  "posix_os_create0 api threadFunction info priority th =
     (let stack_size' = sanitize_stack_size api (stack_size info)
      in posix_create_with api threadFunction stack_size' priority (th\<lparr>pt_param := 0\<rparr>))"

subsection \<open>Joining\<close>

text \<open>The do-while loop over the answers of \<open>pthread_join\<close>; \<open>None\<close>: it never stops waiting.\<close>

fun join_loop :: "os_result list \<Rightarrow> (os_result \<times> pthread_call list) option" where
  "join_loop [] = None"
| "join_loop (err # errs) =
     (if err = Some EINTR
      then map_option (\<lambda>(e, calls). (e, PthreadJoin err # calls)) (join_loop errs)
      else Some (err, [PthreadJoin err]))"

definition posix_os_destroy ::
    "pthread_api \<Rightarrow> 'a PosixThread_scheme \<Rightarrow>
      (thread_result \<times> 'a PosixThread_scheme \<times> pthread_call list) option" where
  "posix_os_destroy api th =
     do {
       (err, calls) \<leftarrow> join_loop (pa_join api);
       Some (case err of
         None \<Rightarrow> (of_value (), set_active False th, calls)
       | Some e \<Rightarrow> (of_error ThreadError_name (errno_to_thread_error e) ''pthread_join failed''
                      ''os_destroy'', th, calls))
     }"

subsection \<open>Calls\<close>

fun starts :: "pthread_call \<Rightarrow> bool" where
  "starts (PthreadCreate attr f p r) = (r = os_ok)"
| "starts _ = False"

fun joins :: "pthread_call \<Rightarrow> bool" where
  "joins (PthreadJoin r) = (r = os_ok)"
| "joins _ = False"

definition threads_started :: "pthread_call list \<Rightarrow> nat" where
  "threads_started cs = length (filter starts cs)"

definition threads_joined :: "pthread_call list \<Rightarrow> nat" where
  "threads_joined cs = length (filter joins cs)"

lemmas thread_counts = threads_started_def threads_joined_def

text \<open>Every attribute object that is initialised is destroyed before the next one.\<close>

fun attrs_balanced :: "bool \<Rightarrow> pthread_call list \<Rightarrow> bool" where
  "attrs_balanced live [] = (\<not> live)"
| "attrs_balanced live (AttrInit # cs) = (\<not> live \<and> attrs_balanced True cs)"
| "attrs_balanced live (AttrDestroy # cs) = (live \<and> attrs_balanced False cs)"
| "attrs_balanced live (c # cs) = attrs_balanced live cs"

lemma attempt_create_calls:
  assumes "attempt_create api f n prio p force = (err, calls)"
  shows "threads_started calls = (if err = os_ok then 1 else 0) \<and> threads_joined calls = 0
    \<and> attrs_balanced False calls"
proof (cases "pa_attr_init api")
  case (Some e)
  then have "err = Some e" "calls = []" using assms by (simp_all add: attempt_create_def)
  then show ?thesis by (simp add: thread_counts)
next
  case None
  then show ?thesis
    using assms
    by (auto simp: attempt_create_def thread_counts Let_def
        split: ThreadFunctionVariant.splits prod.splits if_splits)
qed

lemma attrs_balanced_append:
  "attrs_balanced False cs \<Longrightarrow> attrs_balanced False ds \<Longrightarrow> attrs_balanced False (cs @ ds)"
proof -
  have "attrs_balanced live cs \<Longrightarrow> attrs_balanced False ds \<Longrightarrow> attrs_balanced live (cs @ ds)" for live
    by (induction live cs rule: attrs_balanced.induct) auto
  then show "attrs_balanced False cs \<Longrightarrow> attrs_balanced False ds \<Longrightarrow> attrs_balanced False (cs @ ds)" .
qed

lemma posix_create_with_calls:
  assumes "posix_create_with api f n prio th = (r, th', calls)"
  shows "threads_started calls = (if has_value (fst r) then 1 else 0) \<and> threads_joined calls = 0
    \<and> (\<not> has_value (fst r) \<longrightarrow> th' = th) \<and> attrs_balanced False calls"
proof -
  obtain e1 c1 where a1: "attempt_create api f n prio (pt_param th) False = (e1, c1)"
    by (cases "attempt_create api f n prio (pt_param th) False")
  obtain e2 c2 where a2: "attempt_create api f n prio (pt_param th) True = (e2, c2)"
    by (cases "attempt_create api f n prio (pt_param th) True")
  show ?thesis
    using assms attempt_create_calls [OF a1] attempt_create_calls [OF a2]
    by (auto simp: posix_create_with_def a1 a2 of_value_def of_error_def thread_counts
        attrs_balanced_append Let_def split: if_splits option.splits)
qed

lemma posix_os_create_calls:
  assumes "posix_os_create api f info prio params th = (r, th', calls)"
  shows "threads_started calls = (if has_value (fst r) then 1 else 0) \<and> threads_joined calls = 0
    \<and> (\<not> has_value (fst r) \<longrightarrow> thread_active th' = thread_active th) \<and> attrs_balanced False calls"
  using assms
  by (auto simp: posix_os_create_def Let_def thread_counts of_error_def
      split: ThreadParamVariant.splits dest: posix_create_with_calls)

lemma join_loop_calls:
  "join_loop errs = Some (err, calls) \<Longrightarrow>
     threads_joined calls = (if err = os_ok then 1 else 0) \<and> threads_started calls = 0 \<and> err \<noteq> Some EINTR"
  by (induction errs arbitrary: calls) (auto simp: thread_counts split: if_splits)

text \<open>The environment of an operation: the system, the entry function and the parameter.\<close>

type_synonym posix_env = "pthread_api \<times> ThreadFunctionVariant \<times> ThreadStackInfo \<times> int \<times> ThreadParamVariant"

definition posix_create_env :: "posix_env \<Rightarrow> ('a PosixThread_scheme, pthread_call) os_op" where
  "posix_create_env = (\<lambda>(api, f, info, prio, params). posix_os_create api f info prio params)"

definition posix_destroy_env ::
    "posix_env \<Rightarrow> 'a PosixThread_scheme \<Rightarrow>
      (thread_result \<times> 'a PosixThread_scheme \<times> pthread_call list) option" where
  "posix_destroy_env = (\<lambda>(api, f, info, prio, params). posix_os_destroy api)"

interpretation pt: thread_platform posix_create_env posix_destroy_env threads_started threads_joined
proof (unfold_locales, goal_cases)
  case (5 env th r th' cs)
  then show ?case by (cases env) (auto simp: posix_create_env_def dest: posix_os_create_calls)
next
  case (6 env th r th' cs)
  then obtain err where "join_loop (pa_join (fst env)) = Some (err, cs)"
    "has_value (fst r) = (err = os_ok)" "thread_active th' = thread_active th \<or> err = os_ok"
    by (cases env) (auto simp: posix_destroy_env_def posix_os_destroy_def of_value_def of_error_def
        split: bind_splits option.splits)
  then show ?case using join_loop_calls by force
qed (simp_all add: thread_counts)

subsection \<open>Stack sizes\<close>

lemma align_down: "(x :: u64) AND NOT (mask 3) = x - take_bit 3 x"
proof -
  have "x - take_bit 3 x = x AND NOT (take_bit 3 x)"
    by (rule disjunctive_diff_eq_and_not) (rule bit_word_eqI, auto simp: bit_simps)
  also have "\<dots> = x AND NOT (mask 3)" by (rule bit_word_eqI) (auto simp: bit_simps)
  finally show ?thesis ..
qed

lemma unat_aligned: "unat ((x :: u64) AND NOT (mask 3)) = 8 * (unat x div 8)"
proof -
  have low: "unat (take_bit 3 x) = unat x mod 8"
    unfolding unsigned_take_bit_eq by (simp add: take_bit_eq_mod)
  then have "take_bit 3 x \<le> x" by (simp add: word_le_nat_alt)
  then have "unat (x AND NOT (mask 3)) = unat x - unat x mod 8"
    by (simp add: align_down unat_sub low)
  then show ?thesis by (simp add: minus_mod_eq_mult_div)
qed

text \<open>The sizes as numbers: rounding up wraps around only in the last seven values.\<close>

lemma sanitize_stack_size_eq:
  assumes "requested \<noteq> 0"
  shows "sanitize_stack_size api requested =
    max ((requested + 7) AND NOT (mask 3)) (minimum_stack_size api)"
proof -
  have "(8 - 1 :: u64) = 7" "(7 :: u64) = mask 3" by (simp_all add: mask_eq_exp_minus_1)
  then show ?thesis using assms by (simp add: sanitize_stack_size_def Let_def)
qed

lemma rounded_up:
  assumes "unat (requested :: u64) + 7 < 2 ^ 64"
  shows "unat ((requested + 7) AND NOT (mask 3)) = 8 * ((unat requested + 7) div 8)"
    and "requested \<le> (requested + 7) AND NOT (mask 3)"
    and "((requested + 7) AND NOT (mask 3)) AND 7 = 0"
proof -
  have "unat (requested + 7) = unat requested + 7"
    using assms by (simp add: unat_plus_if')
  then show u: "unat ((requested + 7) AND NOT (mask 3)) = 8 * ((unat requested + 7) div 8)"
    by (simp add: unat_aligned)
  show "requested \<le> (requested + 7) AND NOT (mask 3)"
    by (simp add: word_le_nat_alt u)
  have "(7 :: u64) = mask 3" by (simp add: mask_eq_exp_minus_1)
  then show "((requested + 7) AND NOT (mask 3)) AND 7 = 0"
    by (auto intro!: bit_word_eqI simp: bit_simps)
qed

lemma wrapped_up:
  assumes "unat (requested :: u64) + 7 \<ge> 2 ^ 64"
  shows "(requested + 7) AND NOT (mask 3) = 0"
proof -
  have "unat (requested + 7) = unat requested + 7 - 2 ^ 64"
    using assms by (simp add: unat_plus_if')
  moreover have "unat requested < 2 ^ 64" using unsigned_less [of requested] by simp
  ultimately have "unat (requested + 7) < 8" by simp
  then have "unat ((requested + 7) AND NOT (mask 3)) = 0" by (simp add: unat_aligned)
  then show ?thesis by (simp only: unat_eq_zero)
qed

subsection \<open>Properties\<close>

text \<open>
  C34: Threads are neither leaked nor joined twice. Over any sequence of \<open>create\<close> and \<open>destroy\<close>
  calls on a fresh object that all return, whatever the system answers to each (the fallback to
  inherited scheduling and interrupted joins included), the number of threads started exceeds the
  number joined by one if the object is active, and otherwise not at all.
\<close>

theorem posix_thread_life:
  assumes "\<not> is_active th"
    and "thread_life posix_create_env posix_destroy_env ops th = Some (th', calls)"
  shows "threads_started calls = threads_joined calls + (if is_active th' then 1 else 0)"
  using pt.life_balance [OF assms(2)] assms(1) by (simp add: is_active_def)

text \<open>A system that allows real-time priorities to nobody.\<close>

definition example_api :: pthread_api where
  "example_api = \<lparr>pa_stack_min = 16384, pa_attr_init = os_ok, pa_setstacksize = (\<lambda>n. os_ok),
     pa_setinheritsched = (\<lambda>b. os_ok), pa_setschedpolicy = (\<lambda>p. os_ok),
     pa_setschedparam = (\<lambda>p. os_ok), pa_priority_min = Some 1, pa_priority_max = Some 99,
     pa_create = (\<lambda>attr f p. if at_inherit attr then os_ok else Some EPERM),
     pa_join = [Some EINTR, os_ok]\<rparr>"

definition example_env :: posix_env where
  "example_env = (example_api, ThreadFunction1 ''scan_thread_fn'',
     \<lparr>stack_size = 8192, stack_pointer = 0\<rparr>, 10, ThreadParam1 0x1234)"

definition example_thread :: PosixThread where
  "example_thread = \<lparr>thread_active = False, thread_name = thread_name_runtime ''BleScanner'',
     stack_info = \<lparr>stack_size = 0, stack_pointer = 0\<rparr>, thread_priority = 0, pt_param = 0\<rparr>"

theorem posix_thread_life_witness:
  "\<exists>th' calls. thread_life posix_create_env posix_destroy_env
      [ThreadCreate example_env \<lparr>stack_size = 8192, stack_pointer = 0\<rparr> 10,
       ThreadCreate example_env \<lparr>stack_size = 8192, stack_pointer = 0\<rparr> 10,
       ThreadDestroy example_env] example_thread = Some (th', calls) \<and>
    threads_started calls = 1 \<and> threads_joined calls = 1"
proof -
  let ?i = "\<lparr>stack_size = 8192, stack_pointer = 0\<rparr>"
  let ?r = "thread_life posix_create_env posix_destroy_env
    [ThreadCreate example_env ?i 10, ThreadCreate example_env ?i 10, ThreadDestroy example_env]
    example_thread"
  have e: "map_option (\<lambda>(th, cs). (thread_active th, threads_started cs)) ?r = Some (False, 1)"
    by code_simp
  then obtain th' calls where r: "?r = Some (th', calls)" by auto
  have "\<not> is_active example_thread" by (simp add: is_active_def example_thread_def)
  from posix_thread_life [OF this r] e r show ?thesis by (auto simp: is_active_def)
qed

text \<open>
  The stack size that reaches the system is never smaller than requested and never smaller
  than the system's minimum, and a multiple of eight or that minimum, for every request that
  leaves room to round up; a request within seven bytes of the largest 64-bit value wraps around
  and silently gets the minimum.
\<close>

theorem stack_size_sanitized:
  "(requested \<le> 0xFFFFFFFFFFFFFFF8 \<longrightarrow>
     requested \<le> sanitize_stack_size api requested \<and>
     minimum_stack_size api \<le> sanitize_stack_size api requested \<and>
     (sanitize_stack_size api requested = minimum_stack_size api \<or>
      sanitize_stack_size api requested AND 7 = 0)) \<and>
   (requested > 0xFFFFFFFFFFFFFFF8 \<longrightarrow>
     sanitize_stack_size api requested = minimum_stack_size api)"
proof -
  have bound: "requested \<le> 0xFFFFFFFFFFFFFFF8 \<longleftrightarrow> unat requested + 7 < 2 ^ 64"
    by (auto simp: word_le_nat_alt)
  show ?thesis
  proof (cases "requested = 0")
    case True
    then show ?thesis by (simp add: sanitize_stack_size_def Let_def)
  next
    case nz: False
    show ?thesis
    proof (cases "requested \<le> 0xFFFFFFFFFFFFFFF8")
      case True
      then have r: "unat requested + 7 < 2 ^ 64" using bound by simp
      show ?thesis
        using True rounded_up(2,3) [OF r]
        by (auto simp: sanitize_stack_size_eq [OF nz] max_def not_less)
    next
      case False
      then have "2 ^ 64 \<le> unat requested + 7" using bound by simp
      then have "(requested + 7) AND NOT (mask 3) = 0" by (rule wrapped_up)
      then have "sanitize_stack_size api requested = minimum_stack_size api"
        by (simp add: sanitize_stack_size_eq [OF nz])
      then show ?thesis using False by simp
    qed
  qed
qed

theorem stack_size_sanitized_witness:
  "sanitize_stack_size example_api 0xFFFFFFFFFFFFFFFC = 16384 \<and>
   20001 \<le> sanitize_stack_size example_api 20001"
proof -
  have "sanitize_stack_size example_api 0xFFFFFFFFFFFFFFFC = minimum_stack_size example_api"
    using stack_size_sanitized [of "0xFFFFFFFFFFFFFFFC" example_api] by simp
  then show ?thesis
    using stack_size_sanitized [of 20001 example_api]
    by (simp add: minimum_stack_size_def example_api_def)
qed


text \<open>
  Without the privilege for real-time scheduling a thread is still created. If the system
  allows the attribute calls and refuses with EPERM exactly the threads that do not inherit their
  scheduling, then \<open>os_create\<close> with a priority of zero or more succeeds at the second attempt,
  which inherits the scheduling, with the entry function and the parameter the caller gave and the
  sanitised stack size.
\<close>

theorem eperm_fallback:
  assumes "pa_attr_init api = os_ok" and "\<And>n. pa_setstacksize api n = os_ok"
    and "\<And>b. pa_setinheritsched api b = os_ok" and "\<And>p. pa_setschedpolicy api p = os_ok"
    and "\<And>p. pa_setschedparam api p = os_ok"
    and "pa_priority_min api = Some lo" and "pa_priority_max api = Some hi"
    and "\<And>attr f p. pa_create api attr f p = (if at_inherit attr then os_ok else Some EPERM)"
    and "priority \<ge> 0"
  shows "\<exists>refused granted. posix_os_create api (ThreadFunction1 f) info priority (ThreadParam1 p) th =
     (of_value (), th\<lparr>pt_param := p, thread_active := True\<rparr>,
      [AttrInit, PthreadCreate refused f p (Some EPERM), AttrDestroy,
       AttrInit, PthreadCreate granted f p os_ok, AttrDestroy]) \<and>
     at_policy refused = SCHED_FIFO \<and> \<not> at_inherit refused \<and>
     at_priority refused = clamp priority lo hi \<and>
     at_inherit granted \<and> at_policy granted = SCHED_OTHER \<and>
     at_stacksize granted = sanitize_stack_size api (stack_size info)"
  using assms
  by (simp add: posix_os_create_def posix_create_with_def attempt_create_def configure_priority_def
      attr_setters default_attr_def set_active_def Let_def)

theorem eperm_fallback_witness:
  "fst (posix_os_create example_api (ThreadFunction1 ''f'') \<lparr>stack_size = 0, stack_pointer = 0\<rparr> 120
     (ThreadParam1 7) example_thread) = of_value ()"
proof -
  have "\<exists>refused granted. posix_os_create example_api (ThreadFunction1 ''f'')
      \<lparr>stack_size = 0, stack_pointer = 0\<rparr> 120 (ThreadParam1 7) example_thread =
     (of_value (), example_thread\<lparr>pt_param := 7, thread_active := True\<rparr>,
      [AttrInit, PthreadCreate refused ''f'' 7 (Some EPERM), AttrDestroy,
       AttrInit, PthreadCreate granted ''f'' 7 os_ok, AttrDestroy]) \<and>
     at_policy refused = SCHED_FIFO \<and> \<not> at_inherit refused \<and>
     at_priority refused = clamp 120 1 99 \<and>
     at_inherit granted \<and> at_policy granted = SCHED_OTHER \<and>
     at_stacksize granted = sanitize_stack_size example_api (stack_size \<lparr>stack_size = 0, stack_pointer = 0\<rparr>)"
    by (rule eperm_fallback) (simp_all add: example_api_def)
  then show ?thesis by auto
qed

text \<open>
  \<open>os_destroy\<close> repeats \<open>pthread_join\<close> exactly while the answer is EINTR: it returns with the
  first other answer, having made one call per answer, and it never returns if there is none.
\<close>

theorem join_retries:
  "(e \<noteq> Some EINTR \<longrightarrow> join_loop (replicate n (Some EINTR) @ e # rest) =
      Some (e, replicate n (PthreadJoin (Some EINTR)) @ [PthreadJoin e])) \<and>
   (join_loop answers = None \<longleftrightarrow> set answers \<subseteq> {Some EINTR})"
proof -
  have "e \<noteq> Some EINTR \<longrightarrow> join_loop (replicate n (Some EINTR) @ e # rest) =
      Some (e, replicate n (PthreadJoin (Some EINTR)) @ [PthreadJoin e])"
    by (induction n) simp_all
  moreover have "join_loop answers = None \<longleftrightarrow> set answers \<subseteq> {Some EINTR}"
    by (induction answers) auto
  ultimately show ?thesis by blast
qed

theorem join_retries_witness:
  "join_loop [Some EINTR, Some EINTR, os_ok] =
     Some (os_ok, [PthreadJoin (Some EINTR), PthreadJoin (Some EINTR), PthreadJoin os_ok])"
  using join_retries [of os_ok 2 "[]"] by (simp add: eval_nat_numeral)

end
