(* ===== verification/Ble_Posix.thy ===== *)
theory Ble_Posix
  imports Ble_Core Thread_Posix
begin

text \<open>
  The BlueZ scanner (src/platform/posix_core/ble/Ble.cpp). BlueZ, the socket and the error texts
  are parameters: \<open>hci_api\<close> holds the answers to the calls. The scan thread is a POSIX thread of
  Thread_Posix. \<open>scan_loop\<close> runs over the answers of \<open>read\<close> and the values of the atomic flag
  \<open>running_\<close> that the thread finds.
\<close>

definition k_hci_event_pkt :: u8 where "k_hci_event_pkt = 0x04"
definition k_evt_le_meta :: u8 where "k_evt_le_meta = 0x3E"
definition k_le_adv_report_evt :: u8 where "k_le_adv_report_evt = 0x02"
definition k_min_adv_report_size :: nat where "k_min_adv_report_size = 11"
definition k_hci_buf_size :: nat where "k_hci_buf_size = 260"
definition k_max_reports :: u8 where "k_max_reports = 15"
definition k_report_hdr :: nat where "k_report_hdr = 10"

lemmas hci_constants =
  k_hci_event_pkt_def k_evt_le_meta_def k_le_adv_report_evt_def k_min_adv_report_size_def
  k_hci_buf_size_def k_max_reports_def k_report_hdr_def

subsection \<open>Dispatching advertising reports\<close>

text \<open>
  The loop of \<open>dispatch_adv_report\<close> at report \<open>r\<close> and position \<open>ptr\<close> of the report buffer. A
  pointer is a position in the buffer, so a bound check compares positions; \<open>None\<close> is a read
  outside the buffer.
\<close>

function dispatch_from :: "u8 list \<Rightarrow> u8 \<Rightarrow> nat \<Rightarrow> nat \<Rightarrow> adv_report list option" where
  "dispatch_from buf num_reports r ptr =
     (if r < unat num_reports then
        if ptr + k_report_hdr > length buf then Some []
        else do {
          adv_type \<leftarrow> rd buf ptr;
          addr_type \<leftarrow> rd buf (ptr + 1);
          data_len \<leftarrow> rd buf (ptr + 8);
          if ptr + k_report_hdr + unat data_len > length buf then Some []
          else do {
            let addr_ptr = ptr + 2;
            let data_ptr = ptr + 9;
            let rssi_ptr = data_ptr + unat data_len;
            rssi \<leftarrow> rd buf rssi_ptr;
            addr \<leftarrow> subspan buf addr_ptr 6;
            adv_data \<leftarrow> subspan buf data_ptr (unat data_len);
            rest \<leftarrow> dispatch_from buf num_reports (r + 1) (rssi_ptr + 1);
            Some (\<lparr>ar_addr = addr, ar_addr_type = addr_type, ar_adv_type = adv_type,
                   ar_rssi = rssi, ar_data = adv_data\<rparr> # rest)
          }
        }
      else Some [])"
  by pat_completeness auto
termination
  by (relation "measure (\<lambda>(buf, num_reports, r, ptr). unat num_reports - r)") auto

declare dispatch_from.simps [simp del]

text \<open>\<open>report\<close> is never null: it points into the read buffer.\<close>

definition dispatch_adv_report :: "adv_callback \<Rightarrow> u8 list \<Rightarrow> u8 \<Rightarrow> adv_report list option" where
  "dispatch_adv_report callback report num_reports =
     (if callback = None then Some []
      else if num_reports > k_max_reports then Some []
      else dispatch_from report num_reports 0 0)"

text \<open>One HCI packet: the checks of the loop body behind a successful read.\<close>

definition handle_packet :: "adv_callback \<Rightarrow> u8 list \<Rightarrow> adv_report list option" where
  "handle_packet callback buf =
     (let total = length buf in
      if total < 5 + k_min_adv_report_size then Some []
      else do {
        b0 \<leftarrow> rd buf 0;
        if b0 \<noteq> k_hci_event_pkt then Some []
        else do {
          b1 \<leftarrow> rd buf 1;
          if b1 \<noteq> k_evt_le_meta then Some []
          else do {
            b3 \<leftarrow> rd buf 3;
            if b3 \<noteq> k_le_adv_report_evt then Some []
            else do {
              num_reports \<leftarrow> rd buf 4;
              if num_reports = 0 then Some []
              else do {
                report \<leftarrow> subspan buf 5 (total - 5);
                dispatch_adv_report callback report num_reports
              }
            }
          }
        }
      })"

text \<open>
  An iteration of \<open>scan_loop\<close>: the flag at the loop head, the answer of \<open>read\<close> (\<open>None\<close>: zero or
  an error) and the flag after a failed read. The result is the calls of the callback; \<open>None\<close>
  for a list that ends before the loop does.
\<close>

type_synonym scan_iteration = "bool \<times> u8 list option \<times> bool"

fun scan_loop :: "adv_callback \<Rightarrow> scan_iteration list \<Rightarrow> adv_report list option" where
  "scan_loop callback [] = None"
| "scan_loop callback ((running, answer, still_running) # its) =
     (if \<not> running then Some []
      else case answer of
        None \<Rightarrow> if \<not> still_running then Some [] else scan_loop callback its
      | Some buf \<Rightarrow>
          do {
            reports \<leftarrow> handle_packet callback (take k_hci_buf_size buf);
            rest \<leftarrow> scan_loop callback its;
            Some (reports @ rest)
          })"

definition scan_thread_fn :: "u64 \<Rightarrow> adv_callback \<Rightarrow> scan_iteration list \<Rightarrow> adv_report list option" where
  "scan_thread_fn ctx callback its = (if ctx = 0 then Some [] else scan_loop callback its)"

subsection \<open>The scanner\<close>

record Scanner =
  sc_callback :: adv_callback
  sc_callback_ctx :: u64
  sc_hci_fd :: int
  sc_dev_id :: int
  sc_running :: bool
  sc_thread :: PosixThread

text \<open>The answers of the system; \<open>hci_this\<close> is the address of the scanner object.\<close>

record hci_api =
  hci_get_route :: int
  hci_open_dev :: "int \<Rightarrow> int"
  hci_set_filter :: int
  hci_set_scan_parameters :: int
  hci_set_scan_enable :: int
  hci_strerror :: string
  hci_threads :: pthread_api
  hci_this :: u64

datatype hci_call =
    HciOpen int int
  | HciClose int
  | HciScanParameters int
  | HciScanEnable int bool
  | HciThread pthread_call

definition new_scanner :: Scanner where
  "new_scanner = \<lparr>sc_callback = None, sc_callback_ctx = 0, sc_hci_fd = -1, sc_dev_id = -1,
     sc_running = False,
     sc_thread = \<lparr>thread_active = False, thread_name = thread_name_runtime ''BleScanner'',
       stack_info = \<lparr>stack_size = 0, stack_pointer = 0\<rparr>, thread_priority = 0, pt_param = 0\<rparr>\<rparr>"

definition open_hci_socket :: "hci_api \<Rightarrow> Scanner \<Rightarrow> int \<times> log_call list \<times> hci_call list" where
  "open_hci_socket api s =
     (let fd = hci_open_dev api (sc_dev_id s) in
      if fd < 0 then
        (-1, [LOGGER_ERROR ''hci_open_dev(%d) failed: %s''
                [ArgInt (sc_dev_id s), ArgStr (hci_strerror api)]], [])
      else if hci_set_filter api < 0 then
        (-1, [LOGGER_ERROR ''setsockopt(HCI_FILTER) failed: %s'' [ArgStr (hci_strerror api)]],
         [HciOpen (sc_dev_id s) fd, HciClose fd])
      else (fd, [], [HciOpen (sc_dev_id s) fd]))"

definition enable_le_scan :: "hci_api \<Rightarrow> Scanner \<Rightarrow> bool \<times> log_call list \<times> hci_call list" where
  "enable_le_scan api s =
     (let fd = sc_hci_fd s; calls = [HciScanEnable fd False, HciScanParameters fd] in
      if hci_set_scan_parameters api < 0 then
        (False, [LOGGER_ERROR ''hci_le_set_scan_parameters failed: %s'' [ArgStr (hci_strerror api)]],
         calls)
      else if hci_set_scan_enable api < 0 then
        (False, [LOGGER_ERROR ''hci_le_set_scan_enable failed: %s'' [ArgStr (hci_strerror api)]],
         calls @ [HciScanEnable fd True])
      else (True, [], calls @ [HciScanEnable fd True]))"

definition disable_le_scan :: "Scanner \<Rightarrow> hci_call list" where
  "disable_le_scan s = (if sc_hci_fd s \<ge> 0 then [HciScanEnable (sc_hci_fd s) False] else [])"

definition scanner_init_impl :: "hci_api \<Rightarrow> adv_callback \<Rightarrow> u64 \<Rightarrow> (Scanner, hci_call) ble_op" where
  "scanner_init_impl api cb ctx s =
     (let s = s\<lparr>sc_callback := cb, sc_callback_ctx := ctx, sc_dev_id := hci_get_route api\<rparr> in
      if sc_dev_id s < 0 then
        (of_error BleError_name BleError_AdapterNotFound ''No BT adapter found (hci_get_route)''
           ''init_impl'', s, [])
      else
        let (fd, log, calls) = open_hci_socket api s;
            s = s\<lparr>sc_hci_fd := fd\<rparr>
        in if fd < 0 then
             (let (r, log') = of_error BleError_name BleError_SystemError ''Failed to open HCI socket''
                                ''init_impl''
              in ((r, log @ log'), s, calls))
           else (of_value (), s, calls))"

definition scanner_start_scan_impl :: "hci_api \<Rightarrow> (Scanner, hci_call) ble_op" where
  "scanner_start_scan_impl api s =
     (if sc_hci_fd s < 0 then
        (of_error BleError_name BleError_NotInitialised ''Call init() before start_scan()''
           ''start_scan_impl'', s, [])
      else if sc_running s then (of_value (), s, [])
      else
        let (enabled, log, calls) = enable_le_scan api s in
        if \<not> enabled then
          (let (r, log') = of_error BleError_name BleError_ScanStartFailed
                             ''hci_le_set_scan_enable failed'' ''start_scan_impl''
           in ((r, log @ log'), s, calls))
        else
          let s = s\<lparr>sc_running := True\<rparr>;
              stack = \<lparr>stack_size = 8192, stack_pointer = 0\<rparr>;
              params = ThreadParam1 (hci_this api);
              (result, th, tcalls) =
                thread_create (posix_os_create (hci_threads api) (ThreadFunction1 ''scan_thread_fn'')
                  stack 5 params) stack 5 (sc_thread s);
              s = s\<lparr>sc_thread := th\<rparr>;
              calls = calls @ map HciThread tcalls
          in if \<not> has_value (fst result) then
               (let s = s\<lparr>sc_running := False\<rparr>;
                    (r, log') = of_error BleError_name BleError_SystemError
                                  ''Failed to create scan thread'' ''start_scan_impl''
                in ((r, snd result @ log'), s, calls @ disable_le_scan s))
             else
               (let (r, log') = of_value ()
                in ((r, LOGGER_NOTICE ''BLE passive scan started (hci%d)'' [ArgInt (sc_dev_id s)] # log'),
                    s, calls)))"

definition scanner_stop_scan_impl :: "(Scanner, hci_call) ble_op" where
  "scanner_stop_scan_impl s =
     (if \<not> sc_running s then (of_value (), s, [])
      else
        let s = s\<lparr>sc_running := False\<rparr>; (r, log') = of_value ()
        in ((r, LOGGER_NOTICE ''BLE passive scan stopped'' [] # log'), s, disable_le_scan s))"

text \<open>The destructor's body and then that of the member \<open>scan_thread_\<close>, which joins the thread.\<close>

definition scanner_dtor :: "hci_api \<Rightarrow> Scanner \<Rightarrow> (Scanner \<times> hci_call list) option" where
  "scanner_dtor api s =
     (let calls1 = (if sc_running s then disable_le_scan s else []);
          s = s\<lparr>sc_running := False\<rparr>;
          calls2 = (if sc_hci_fd s \<ge> 0 then [HciClose (sc_hci_fd s)] else []);
          s = s\<lparr>sc_hci_fd := -1\<rparr>
      in do {
        (th, tcalls) \<leftarrow> thread_dtor (posix_os_destroy (hci_threads api)) (sc_thread s);
        Some (s\<lparr>sc_thread := th\<rparr>, calls1 @ calls2 @ map HciThread tcalls)
      })"

interpretation bp: scanner_platform scanner_init_impl scanner_start_scan_impl
    "\<lambda>api. scanner_stop_scan_impl" "\<lambda>s. (sc_callback s, sc_callback_ctx s)"
  by unfold_locales
    (auto simp: scanner_init_impl_def scanner_start_scan_impl_def scanner_stop_scan_impl_def Let_def
      of_value_def of_error_def split: if_splits prod.splits)


subsection \<open>Reports on the wire\<close>

definition report_ok :: "adv_report \<Rightarrow> bool" where
  "report_ok a \<longleftrightarrow> length (ar_addr a) = 6 \<and> length (ar_data a) < 256"

definition encode_report :: "adv_report \<Rightarrow> u8 list" where
  "encode_report a = [ar_adv_type a, ar_addr_type a] @ ar_addr a @ [of_nat (length (ar_data a))] @
     ar_data a @ [ar_rssi a]"

lemma length_encode_report: "report_ok a \<Longrightarrow> length (encode_report a) = k_report_hdr + length (ar_data a)"
  by (simp add: encode_report_def report_ok_def k_report_hdr_def)

lemma dispatch_total: "dispatch_from buf n r ptr \<noteq> None"
proof (induction buf n r ptr rule: dispatch_from.induct)
  case (1 buf n r ptr)
  show ?case
  proof (cases "r < unat n \<and> \<not> ptr + k_report_hdr > length buf \<and>
      \<not> ptr + k_report_hdr + unat (buf ! (ptr + 8)) > length buf")
    case False
    then show ?thesis by (subst dispatch_from.simps) (auto simp: rd_def k_report_hdr_def)
  next
    case True
    let ?next = "ptr + 9 + unat (buf ! (ptr + 8)) + 1"
    have r: "rd buf ptr = Some (buf ! ptr)" "rd buf (ptr + 1) = Some (buf ! (ptr + 1))"
      "rd buf (ptr + 8) = Some (buf ! (ptr + 8))"
      "rd buf (ptr + 9 + unat (buf ! (ptr + 8))) = Some (buf ! (ptr + 9 + unat (buf ! (ptr + 8))))"
      using True by (simp_all add: rd_def k_report_hdr_def)
    have s: "subspan buf (ptr + 2) 6 = Some (take 6 (drop (ptr + 2) buf))"
      "subspan buf (ptr + 9) (unat (buf ! (ptr + 8))) =
         Some (take (unat (buf ! (ptr + 8))) (drop (ptr + 9) buf))"
      using True by (simp_all add: subspan_def k_report_hdr_def)
    have "dispatch_from buf n (r + 1) ?next \<noteq> None"
      using True r s by (intro "1.IH") (auto simp: Let_def)
    then obtain rest where "dispatch_from buf n (r + 1) ?next = Some rest" by blast
    then show ?thesis
      using True by (subst dispatch_from.simps) (simp add: r [simplified] s [simplified] Let_def)
  qed
qed

lemma dispatch_end: "\<not> r < unat n \<Longrightarrow> dispatch_from buf n r ptr = Some []"
  by (simp add: dispatch_from.simps)

lemma dispatch_report:
  assumes ok: "report_ok a" and r: "r < unat n"
  shows "dispatch_from (pre @ encode_report a @ rest) n r (length pre) =
     map_option (\<lambda>as. a # as)
       (dispatch_from (pre @ encode_report a @ rest) n (r + 1) (length pre + length (encode_report a)))"
proof -
  define buf where "buf = pre @ encode_report a @ rest"
  let ?n = "length (ar_data a)"
  obtain a0 a1 a2 a3 a4 a5 where ad: "ar_addr a = [a0, a1, a2, a3, a4, a5]"
    using ok by (auto simp: report_ok_def eval_nat_numeral length_Suc_conv)
  have u: "unat (of_nat ?n :: u8) = ?n"
    using ok unat_of_nat [of ?n, where ?'a = 8] by (simp add: report_ok_def)
  have at: "rd buf (length pre + k) = rd (encode_report a @ rest) k" for k
    unfolding buf_def by (rule rd_append2)
  have e: "encode_report a @ rest = ar_adv_type a # ar_addr_type a # a0 # a1 # a2 # a3 # a4 # a5 #
      of_nat ?n # ar_data a @ ar_rssi a # rest"
    by (simp add: encode_report_def ad)
  have r0: "rd buf (length pre) = Some (ar_adv_type a)" using at [of 0] by (simp add: e rd_def)
  have r1: "rd buf (length pre + 1) = Some (ar_addr_type a)" using at [of 1] by (simp add: e rd_def)
  have r8: "rd buf (length pre + 8) = Some (of_nat ?n)"
    using at [of 8] by (simp add: e rd_def eval_nat_numeral)
  have r9: "rd buf (length pre + 9 + ?n) = Some (ar_rssi a)"
    using rd_append_here [of "pre @ ar_adv_type a # ar_addr_type a # ar_addr a @ of_nat ?n # ar_data a"
        "ar_rssi a" rest]
    by (simp add: buf_def encode_report_def ad eval_nat_numeral)
  have s2: "subspan buf (length pre + 2) 6 = Some (ar_addr a)"
    using subspan_append [of "pre @ [ar_adv_type a, ar_addr_type a]" "ar_addr a"
        "of_nat ?n # ar_data a @ ar_rssi a # rest"]
    by (simp add: buf_def encode_report_def ad eval_nat_numeral)
  have s9: "subspan buf (length pre + 9) ?n = Some (ar_data a)"
    using subspan_append [of "pre @ ar_adv_type a # ar_addr_type a # ar_addr a @ [of_nat ?n]"
        "ar_data a" "ar_rssi a # rest"]
    by (simp add: buf_def encode_report_def ad eval_nat_numeral)
  have fit: "\<not> length pre + k_report_hdr > length buf" "\<not> length pre + k_report_hdr + ?n > length buf"
    using length_encode_report [OF ok] by (simp_all add: buf_def)
  have nxt: "length pre + 9 + ?n + 1 = length pre + length (encode_report a)"
    using length_encode_report [OF ok] by (simp add: k_report_hdr_def)
  have "dispatch_from buf n r (length pre) =
      map_option (\<lambda>as. a # as) (dispatch_from buf n (r + 1) (length pre + length (encode_report a)))"
    unfolding dispatch_from.simps [of buf n r "length pre"] r0 r1 r8 bind.bind_lunit Let_def u r9 s2 s9 nxt
    using r fit
    by (cases "dispatch_from buf n (r + 1) (length pre + length (encode_report a))") auto
  then show ?thesis by (simp add: buf_def)
qed

lemma dispatch_reports:
  assumes "\<forall>a \<in> set as. report_ok a" and "r + length as \<le> unat n"
  shows "dispatch_from (pre @ concat (map encode_report as) @ rest) n r (length pre) =
     map_option (\<lambda>bs. as @ bs)
       (dispatch_from (pre @ concat (map encode_report as) @ rest) n (r + length as)
         (length pre + length (concat (map encode_report as))))"
  using assms
proof (induction as arbitrary: pre r)
  case Nil
  show ?case by (cases "dispatch_from (pre @ rest) n r (length pre)") simp_all
next
  case (Cons a as)
  have "dispatch_from (pre @ encode_report a @ concat (map encode_report as) @ rest) n r (length pre) =
     map_option (\<lambda>bs. a # bs) (dispatch_from (pre @ encode_report a @ concat (map encode_report as) @ rest)
        n (r + 1) (length pre + length (encode_report a)))"
    using Cons.prems by (intro dispatch_report) auto
  then show ?case
    using Cons.IH [of "r + 1" "pre @ encode_report a"] Cons.prems
    by (simp add: add.assoc option.map_comp comp_def)
qed

text \<open>A report that is cut off ends the loop.\<close>

lemma dispatch_truncated:
  assumes ok: "report_ok a" and k: "k < length (encode_report a)"
  shows "dispatch_from (pre @ take k (encode_report a)) n r (length pre) = Some []"
proof (cases "k < k_report_hdr")
  case True
  then have "length (pre @ take k (encode_report a)) < length pre + k_report_hdr" using k by simp
  then show ?thesis by (subst dispatch_from.simps) simp
next
  case False
  define buf where "buf = pre @ take k (encode_report a)"
  obtain a0 a1 a2 a3 a4 a5 where ad: "ar_addr a = [a0, a1, a2, a3, a4, a5]"
    using ok by (auto simp: report_ok_def eval_nat_numeral length_Suc_conv)
  have u: "unat (of_nat (length (ar_data a)) :: u8) = length (ar_data a)"
    using ok unat_of_nat [of "length (ar_data a)", where ?'a = 8] by (simp add: report_ok_def)
  have k10: "10 \<le> k" using False by (simp add: k_report_hdr_def)
  have at: "rd buf (length pre + i) = rd (encode_report a) i" if "i < 10" for i
    using that k k10 by (auto simp: buf_def rd_def nth_append)
  have e: "rd (encode_report a) 8 = Some (of_nat (length (ar_data a)))"
    by (simp add: encode_report_def ad rd_def eval_nat_numeral)
  have r8: "rd buf (length pre + 8) = Some (of_nat (length (ar_data a)))" using at [of 8] e by simp
  have r01: "rd buf (length pre) \<noteq> None" "rd buf (length pre + 1) \<noteq> None"
    using k k10 by (auto simp: buf_def rd_def)
  have "length pre + k_report_hdr + length (ar_data a) > length buf"
    using k length_encode_report [OF ok] by (simp add: buf_def)
  then have "dispatch_from buf n r (length pre) = Some []"
    using r01 by (subst dispatch_from.simps) (auto simp: r8 [simplified] u)
  then show ?thesis by (simp add: buf_def)
qed

lemma handle_packet_header:
  assumes "11 \<le> length reports"
  shows "handle_packet (Some f) (k_hci_event_pkt # k_evt_le_meta # plen # k_le_adv_report_evt # n # reports) =
     (if n > k_max_reports then Some [] else dispatch_from reports n 0 0)"
proof -
  let ?buf = "k_hci_event_pkt # k_evt_le_meta # plen # k_le_adv_report_evt # n # reports"
  have s: "subspan ?buf 5 (length ?buf - 5) = Some reports"
    by (simp add: subspan_def eval_nat_numeral)
  have r: "rd ?buf 0 = Some k_hci_event_pkt" "rd ?buf 1 = Some k_evt_le_meta"
    "rd ?buf 3 = Some k_le_adv_report_evt" "rd ?buf 4 = Some n"
    by (simp_all add: rd_def eval_nat_numeral)
  have l: "\<not> length ?buf < 5 + k_min_adv_report_size"
    using assms by (simp add: k_min_adv_report_size_def)
  show ?thesis
    unfolding handle_packet_def Let_def r s bind.bind_lunit
    using l by (simp add: dispatch_adv_report_def dispatch_end)
qed

lemma handle_packet_total: "handle_packet callback buf \<noteq> None"
proof (cases "length buf < 5 + k_min_adv_report_size")
  case True
  then show ?thesis by (simp add: handle_packet_def)
next
  case False
  then have l: "5 \<le> length buf" by simp
  then have r: "rd buf i = Some (buf ! i)" if "i < 5" for i using that by (simp add: rd_def)
  have s: "subspan buf 5 (length buf - 5) = Some (drop 5 buf)" using l by (simp add: subspan_def)
  show ?thesis
    using False dispatch_total
    by (auto simp: handle_packet_def r s Let_def dispatch_adv_report_def)
qed

subsection \<open>Properties\<close>

text \<open>
  Memory safety of the HCI parser: for every packet the controller can deliver, of any length
  and with any contents, no byte outside the received bytes is read.
\<close>

theorem hci_memory_safe: "\<exists>reports. handle_packet callback buf = Some reports"
  using handle_packet_total by auto

text \<open>
  C30: The HCI parser inverts the encoding of LE advertising reports: from an event that claims at
  most 15 reports it delivers, in order, every complete report it holds, each with its address,
  types, signal strength and data; a report that is cut off is dropped. There is exactly one
  exception: a report without data that is alone in its packet, with nothing behind it, is lost
  (\<open>hci_empty_report_lost\<close>).
\<close>

theorem hci_reports_roundtrip:
  assumes "\<forall>a \<in> set reports. report_ok a" and "report_ok lastr" and "k < length (encode_report lastr)"
    and "length reports \<le> unat n" and "n \<le> 15"
  shows "handle_packet (Some f) (0x04 # 0x3E # plen # 0x02 # n #
     concat (map encode_report reports) @ take k (encode_report lastr)) =
     Some (if map ar_data reports = [[]] \<and> k = 0 then [] else reports)"
proof -
  let ?buf = "concat (map encode_report reports) @ take k (encode_report lastr)"
  have len: "length ?buf = length (concat (map encode_report reports)) + k" using assms(3) by simp
  have "dispatch_from ?buf n 0 0 = Some reports"
    using dispatch_reports [OF assms(1), of 0 n "[]" "take k (encode_report lastr)"] assms(4)
      dispatch_truncated [OF assms(2,3), of "concat (map encode_report reports)" n "length reports"]
    by simp
  then have long: "11 \<le> length ?buf \<Longrightarrow> handle_packet (Some f) (0x04 # 0x3E # plen # 0x02 # n # ?buf) = Some reports"
    using handle_packet_header [of ?buf f plen n] assms(5) by (simp add: hci_constants leD)
  have short: "length ?buf < 11 \<Longrightarrow> handle_packet (Some f) (0x04 # 0x3E # plen # 0x02 # n # ?buf) = Some []"
    by (simp add: handle_packet_def k_min_adv_report_size_def)
  have bytes: "length (encode_report a) = 10 + length (ar_data a)" if "a \<in> set reports" for a
    using that assms(1) length_encode_report by (simp add: k_report_hdr_def)
  consider "reports = []" | a where "reports = [a]" | a b rs where "reports = a # b # rs"
    by (cases reports; cases "tl reports") auto
  then show ?thesis
  proof cases
    case 1
    then show ?thesis using long short len by (cases "length ?buf < 11") auto
  next
    case (2 a)
    then show ?thesis using long short len bytes [of a] by (cases "ar_data a"; cases k) auto
  next
    case (3 a b rs)
    then show ?thesis using long len bytes [of a] bytes [of b] by auto
  qed
qed

text \<open>
  A complete report without advertising data is lost when it comes alone: the minimum length
  is one byte too large, because the count of reports is counted twice.
\<close>

theorem hci_empty_report_lost:
  assumes "report_ok a" and "ar_data a = []"
  shows "handle_packet (Some f) (0x04 # 0x3E # plen # 0x02 # 1 # encode_report a) = Some [] \<and>
    dispatch_from (encode_report a) 1 0 0 = Some [a]"
proof -
  have "length (encode_report a) = 10"
    using length_encode_report [OF assms(1)] assms(2) by (simp add: k_report_hdr_def)
  moreover have "dispatch_from (encode_report a) 1 0 0 = Some [a]"
    using dispatch_report [OF assms(1), of 0 1 "[]" "[]"] by (simp add: dispatch_end)
  ultimately show ?thesis by (simp add: handle_packet_def k_min_adv_report_size_def)
qed

definition example_report :: adv_report where
  "example_report = \<lparr>ar_addr = [1, 2, 3, 4, 0xDA, 0x03], ar_addr_type = 1, ar_adv_type = 3,
     ar_rssi = -60, ar_data = [2, 1, 6]\<rparr>"

theorem hci_reports_roundtrip_witness:
  "handle_packet (Some ''cb'') [0x04, 0x3E, 20, 0x02, 2, 3, 1, 1, 2, 3, 4, 0xDA, 0x03, 3, 2, 1, 6, -60,
     3, 1, 1] = Some [example_report]"
proof -
  have "concat (map encode_report [example_report]) @ take 3 (encode_report example_report) =
      [3, 1, 1, 2, 3, 4, 0xDA, 0x03, 3, 2, 1, 6, -60, 3, 1, 1]"
    by code_simp
  moreover have "report_ok example_report" by (simp add: report_ok_def example_report_def)
  moreover have "(2 :: u8) \<le> 15" by simp
  ultimately show ?thesis
    using hci_reports_roundtrip [of "[example_report]" example_report 3 2 "''cb''" 20]
    by (simp add: encode_report_def example_report_def)
qed

theorem hci_empty_report_lost_witness:
  "handle_packet (Some ''cb'') (0x04 # 0x3E # 12 # 0x02 # 1 # encode_report (example_report\<lparr>ar_data := []\<rparr>)) =
     Some []"
  using hci_empty_report_lost [of "example_report\<lparr>ar_data := []\<rparr>" "''cb''" 12]
  by (simp add: report_ok_def example_report_def)

text \<open>
  The scan loop delivers exactly the reports of the packets it reads, in order, until it finds
  the running flag cleared, at the loop head or after a failed read; failed reads in between
  deliver nothing.
\<close>

theorem scan_loop_delivers:
  "scan_loop callback (map (\<lambda>answer. (True, answer, True)) answers @ (False, a, b) # rest) =
     Some (concat (map (\<lambda>answer. case answer of None \<Rightarrow> []
             | Some buf \<Rightarrow> the (handle_packet callback (take 260 buf))) answers)) \<and>
   scan_loop callback (map (\<lambda>answer. (True, answer, True)) answers @ (True, None, False) # rest) =
     scan_loop callback (map (\<lambda>answer. (True, answer, True)) answers @ (False, a, b) # rest)"
proof (induction answers)
  case Nil
  show ?case by simp
next
  case (Cons x xs)
  show ?case
  proof (cases x)
    case None
    then show ?thesis using Cons by simp
  next
    case (Some buf)
    obtain rs where "handle_packet callback (take 260 buf) = Some rs"
      using handle_packet_total by auto
    then show ?thesis using Cons by (simp add: Some k_hci_buf_size_def)
  qed
qed

text \<open>The rounds of the scan loop that see the cleared flag.\<close>

definition sees_stop :: "scan_iteration \<Rightarrow> bool" where
  "sees_stop = (\<lambda>(running, answer, still_running). \<not> running \<or> answer = None \<and> \<not> still_running)"

lemma dispatch_count: "dispatch_from buf n r ptr = Some rs \<Longrightarrow> length rs \<le> unat n - r"
proof (induction "unat n - r" arbitrary: r ptr rs rule: less_induct)
  case less
  have ih: "length rest \<le> unat n - Suc r" if "r < unat n" "dispatch_from buf n (Suc r) p = Some rest" for p rest
    using less.hyps [of "Suc r" p rest] that by simp
  show ?case
  proof (cases "r < unat n")
    case False
    then show ?thesis using less.prems by (simp add: dispatch_end)
  next
    case True
    show ?thesis
      using less.prems True
      by (subst (asm) dispatch_from.simps) (auto simp: Let_def split: if_splits bind_splits dest!: ih [OF True])
  qed
qed

lemma handle_packet_count:
  assumes "handle_packet callback buf = Some rs"
  shows "length rs \<le> 15"
proof -
  have "length rs \<le> 15" if "dispatch_adv_report callback b n = Some rs" for b n
  proof (cases "callback = None \<or> n > k_max_reports")
    case False
    then have "dispatch_from b n 0 0 = Some rs" using that by (auto simp: dispatch_adv_report_def)
    then have "length rs \<le> unat n - 0" by (rule dispatch_count)
    moreover have "unat n \<le> 15" using False by (simp add: k_max_reports_def word_le_nat_alt not_less)
    ultimately show ?thesis by simp
  qed (use that in \<open>auto simp: dispatch_adv_report_def split: if_splits\<close>)
  then show ?thesis using assms by (auto simp: handle_packet_def Let_def split: if_splits bind_splits)
qed

lemma scan_loop_returns: "scan_loop callback its \<noteq> None \<longleftrightarrow> (\<exists>it \<in> set its. sees_stop it)"
proof (induction its)
  case (Cons it its)
  obtain running answer still where it: "it = (running, answer, still)" by (cases it)
  show ?case
  proof (cases answer)
    case None
    then show ?thesis using Cons.IH by (simp add: it sees_stop_def)
  next
    case (Some buf)
    obtain rs where "handle_packet callback (take k_hci_buf_size buf) = Some rs"
      using handle_packet_total by auto
    then show ?thesis using Cons.IH Some by (auto simp: it sees_stop_def split: bind_splits)
  qed
qed simp

lemma scan_loop_later: "scan_loop callback its = Some rs \<Longrightarrow> scan_loop callback (its @ later) = Some rs"
  by (induction callback its arbitrary: rs rule: scan_loop.induct) (auto split: if_splits option.splits bind_splits)

lemma scan_loop_count:
  "scan_loop callback its = Some rs \<Longrightarrow>
     length rs \<le> 15 * length (filter (\<lambda>(r, answer, s). answer \<noteq> None) (takeWhile (\<lambda>it. \<not> sees_stop it) its))"
proof (induction callback its arbitrary: rs rule: scan_loop.induct)
  case (2 callback running answer still its)
  show ?case
  proof (cases "sees_stop (running, answer, still)")
    case True
    then show ?thesis using "2.prems" by (auto simp: sees_stop_def split: if_splits)
  next
    case False
    then show ?thesis
      using 2 handle_packet_count by (fastforce simp: sees_stop_def split: option.splits bind_splits if_splits)
  qed
qed simp

text \<open>
  C25: The scan thread ends exactly when it sees the flag that \<open>stop_scan\<close> clears: the loop returns
  if and only if some round finds the flag cleared, at its head or after a failed read; what the
  controller sends cannot end it or keep it from ending. Before that round it makes at most 15
  calls of the callback for every packet read, and the rounds behind it do not matter.
\<close>

theorem scan_loop_ends:
  "(\<exists>reports. scan_loop callback its = Some reports \<and>
      scan_loop callback (its @ later) = Some reports \<and>
      length reports \<le> 15 * length (filter (\<lambda>(r, answer, s). answer \<noteq> None) (takeWhile (\<lambda>it. \<not> sees_stop it) its)))
   = (\<exists>it \<in> set its. sees_stop it)"
  using scan_loop_returns [of callback its] scan_loop_later scan_loop_count by blast

text \<open>
  A scanner can be started once. From any scanner whose thread has not been started, after a
  successful start and a stop, every further start fails, whatever the system answers: the stop
  does not join the scan thread, so the thread object is still active, and its \<open>create\<close> refuses.
  The failed start leaves the scanner stopped, and the controller's scan disabled again.
\<close>

theorem scanner_restart_fails:
  assumes "\<not> sc_running s" and "sc_hci_fd s \<ge> 0"
    and "scanner_start_scan_impl api1 s = (r1, s1, c1)" and "has_value (fst r1)"
    and "scanner_stop_scan_impl s1 = (r2, s2, c2)"
    and "scanner_start_scan_impl api2 s2 = (r3, s3, c3)"
  shows "fst r3 \<in> {Unexpected BleError_ScanStartFailed, Unexpected BleError_SystemError} \<and>
    \<not> sc_running s3 \<and>
    (fst r3 = Unexpected BleError_SystemError \<longrightarrow> last c3 = HciScanEnable (sc_hci_fd s) False)"
proof -
  have s1: "sc_running s1" "thread_active (sc_thread s1)" "sc_hci_fd s1 = sc_hci_fd s"
    using assms(1-4)
    by (auto simp: scanner_start_scan_impl_def thread_create_def Let_def of_error_def of_value_def
        split: if_splits prod.splits)
  then have s2: "\<not> sc_running s2" "thread_active (sc_thread s2)" "sc_hci_fd s2 = sc_hci_fd s"
    using assms(5) by (auto simp: scanner_stop_scan_impl_def of_value_def Let_def)
  show ?thesis
    using assms(2,6) s2
    by (auto simp: scanner_start_scan_impl_def thread_create_def Let_def of_error_def of_value_def
        disable_le_scan_def split: if_splits prod.splits)
qed

definition example_hci :: hci_api where
  "example_hci = \<lparr>hci_get_route = 0, hci_open_dev = (\<lambda>d. 5), hci_set_filter = 0,
     hci_set_scan_parameters = 0, hci_set_scan_enable = 0, hci_strerror = ''Operation not permitted'',
     hci_threads = example_api, hci_this = 0x7000\<rparr>"

definition example_scanner :: Scanner where
  "example_scanner = fst (snd (scanner_init_impl example_hci (Some ''advertisement_cb'') 0x6000 new_scanner))"

theorem scanner_restart_fails_witness:
  "\<exists>r1 s1 c1 r2 s2 c2 r3 s3 c3. scanner_start_scan_impl example_hci example_scanner = (r1, s1, c1) \<and>
     scanner_stop_scan_impl s1 = (r2, s2, c2) \<and> scanner_start_scan_impl example_hci s2 = (r3, s3, c3) \<and>
     has_value (fst r1) \<and> \<not> has_value (fst r3)"
proof -
  obtain r1 s1 c1 where a: "scanner_start_scan_impl example_hci example_scanner = (r1, s1, c1)"
    by (metis prod_cases3)
  obtain r2 s2 c2 where b: "scanner_stop_scan_impl s1 = (r2, s2, c2)" by (metis prod_cases3)
  obtain r3 s3 c3 where c: "scanner_start_scan_impl example_hci s2 = (r3, s3, c3)" by (metis prod_cases3)
  have "has_value (fst (fst (scanner_start_scan_impl example_hci example_scanner)))" by code_simp
  then have v: "has_value (fst r1)" by (simp add: a)
  have "\<not> sc_running example_scanner" "sc_hci_fd example_scanner \<ge> 0" by code_simp+
  from scanner_restart_fails [OF this a v b c] have "\<not> has_value (fst r3)" by auto
  with a b c v show ?thesis by blast
qed

end
