(* ===== verification/App_Entry.thy ===== *)
theory App_Entry
  imports App_Callbacks Ble_Posix
begin

text \<open>
  The application (src/application/AppEntry.cpp, \<open>run_impl\<close>): it starts driver and scanner and
  then sleeps, while the scanner hands the advertisements it receives to the driver, whose
  callbacks print. \<open>app_run\<close> is \<open>run_impl\<close> over the operations of any scanner; here it is composed
  with the scanner of POSIX, in App_Zephyr with that of Zephyr. Advertisements may come from
  the moment \<open>start_scan\<close> returns, before commissioning is enabled (\<open>early\<close>) and after.
\<close>

subsection \<open>From packets to log lines\<close>

text \<open>The scanner's calls of \<open>advertisement_cb\<close> with the driver as context.\<close>

fun deliver :: "crypto_impl \<Rightarrow> adv_report list \<Rightarrow> EnoceanDriver \<Rightarrow> (EnoceanDriver \<times> driver_event list) option" where
  "deliver crypto [] drv = Some (drv, [])"
| "deliver crypto (r # rs) drv =
     do {
       (ctx, evs) \<leftarrow> advertisement_cb crypto (Some drv) (ar_addr r) (ar_addr_type r) (ar_adv_type r)
                      (ar_rssi r) (ar_data r);
       drv' \<leftarrow> ctx;
       (drv'', evs') \<leftarrow> deliver crypto rs drv';
       Some (drv'', evs @ evs')
     }"

text \<open>What the scan thread does with the packets it reads: driver afterwards and lines printed.\<close>

definition app_scan ::
    "crypto_impl \<Rightarrow> scan_iteration list \<Rightarrow> EnoceanDriver \<Rightarrow> (EnoceanDriver \<times> log_call list) option" where
  "app_scan crypto its drv =
     do {
       reports \<leftarrow> scan_loop (Some ''advertisement_cb'') its;
       (drv', evs) \<leftarrow> deliver crypto reports drv;
       log \<leftarrow> app_print evs;
       Some (drv', log)
     }"

subsection \<open>Start-up\<close>

text \<open>
  \<open>run_impl\<close> up to the sleep loop, over the scanner's \<open>init\<close>, \<open>start_scan\<close> and destructor, from the
  scanner state \<open>sc\<close>. \<open>driver_ptr\<close> is the address of the driver. The first component is \<open>None\<close> when
  \<open>run_impl\<close> returns early, which destroys scanner and driver; the outer \<open>None\<close> is a destructor that
  never returns. \<open>early\<close> are the advertisements before commissioning is enabled.
\<close>

definition app_run ::
    "(adv_callback \<Rightarrow> u64 \<Rightarrow> ('s, 'c) ble_op) \<Rightarrow> ('s, 'c) ble_op \<Rightarrow> ('s \<Rightarrow> ('s \<times> 'c list) option) \<Rightarrow> 's \<Rightarrow>
      crypto_impl \<Rightarrow> u64 \<Rightarrow> adv_report list \<Rightarrow>
      (EnoceanDriver option \<times> 's \<times> log_call list \<times> 'c list) option" where
  "app_run init_impl start_scan_impl dtor sc crypto driver_ptr early =
     (let log0 = [LOGGER_NOTICE ''Application starting...'' []];
          (drv, evs0, init_result) = driver_init (new_driver app_callbacks)
      in do {
        log1 \<leftarrow> app_print evs0;
        if \<not> has_value init_result then
          Some (None, sc, log0 @ log1 @ [LOGGER_ERROR ''EnOcean driver init failed'' []], [])
        else
          let (ble_init_r, sc, calls1) = ble_init init_impl (Some ''advertisement_cb'') driver_ptr sc;
              log2 = log0 @ log1 @ snd ble_init_r
          in if \<not> has_value (fst ble_init_r) then
               do {
                 (sc', dcalls) \<leftarrow> dtor sc;
                 Some (None, sc', log2 @ [LOGGER_ERROR ''BLE scanner init failed'' []], calls1 @ dcalls)
               }
             else
               let (scan_start, sc, calls2) = ble_start_scan start_scan_impl sc;
                   log3 = log2 @ snd scan_start
               in if \<not> has_value (fst scan_start) then
                    do {
                      (sc', dcalls) \<leftarrow> dtor sc;
                      Some (None, sc', log3 @ [LOGGER_ERROR ''BLE scan start failed'' []],
                        calls1 @ calls2 @ dcalls)
                    }
                  else
                    do {
                      (drv, evs) \<leftarrow> deliver crypto early drv;
                      log4 \<leftarrow> app_print evs;
                      let (drv, evs') = enable_commissioning drv;
                      log5 \<leftarrow> app_print evs';
                      Some (Some drv, sc, log3 @ log4 @ log5 @
                        [LOGGER_NOTICE ''EnOcean scanner ready - commissioning enabled.'' []],
                        calls1 @ calls2)
                    }
      })"

text \<open>On POSIX, with a scanner of its own.\<close>

definition app_start ::
    "hci_api \<Rightarrow> crypto_impl \<Rightarrow> u64 \<Rightarrow> adv_report list \<Rightarrow>
      ((EnoceanDriver \<times> Scanner) option \<times> log_call list \<times> hci_call list) option" where
  "app_start api crypto driver_ptr early =
     map_option (\<lambda>(drv, sc, log, calls). (map_option (\<lambda>d. (d, sc)) drv, log, calls))
       (app_run (scanner_init_impl api) (scanner_start_scan_impl api) (scanner_dtor api) new_scanner
         crypto driver_ptr early)"

subsection \<open>Delivery is a run of the driver\<close>

definition report_op :: "crypto_impl \<Rightarrow> adv_report \<Rightarrow> driver_op" where
  "report_op crypto r =
     OpAdvertise crypto (ar_addr r) (ar_addr_type r) (ar_adv_type r) (ar_rssi r) (ar_data r)"

lemma deliver_run: "deliver crypto rs drv = run (map (report_op crypto) rs) drv"
  by (induction rs arbitrary: drv)
    (auto simp: advertisement_cb_def report_op_def Option.bind_assoc split: bind_splits)

lemma deliver_printable:
  assumes "reachable app_callbacks drv" "\<forall>r \<in> set rs. extract_manufacturer_data (ar_data r) \<noteq> None"
  shows "\<exists>drv' evs. deliver crypto rs drv = Some (drv', evs) \<and> reachable app_callbacks drv' \<and>
    (\<forall>e \<in> set evs. printable e)"
  using assms
proof (induction rs arbitrary: drv)
  case (Cons r rs)
  note ok = reachable_table_ok [OF Cons.prems(1)]
  obtain drv1 evs1 where p: "process_advertisement crypto drv (ar_addr r) (ar_addr_type r) (ar_adv_type r)
      (ar_rssi r) (ar_data r) = Some (drv1, evs1)"
    using process_defined [OF ok] Cons.prems(2) by fastforce
  have "reachable app_callbacks drv1"
    using reachable_step [OF Cons.prems(1), of "report_op crypto r"] p by (simp add: report_op_def)
  moreover have "\<forall>e \<in> set evs1. printable e"
    using process_printable [OF ok reachable_callbacks [OF Cons.prems(1)] p] by blast
  ultimately show ?case
    using Cons.IH [of drv1] Cons.prems(2) p by (auto simp: advertisement_cb_def)
qed simp

lemma driver_init_reachable: "reachable cbs (fst (driver_init (new_driver cbs)))"
  using reachable_step [OF reachable_new, of OpInit] by (simp add: driver_init_def)

text \<open>
  C17: The application stays inside its memory from the socket to the log. Whatever bytes the
  controller sends in however many packets, once the driver is in a state it can reach, every
  packet is parsed, every report handled and every event printed without an access outside a
  buffer, a span or an array and without reading an empty optional, provided no advertisement has
  the malformation that makes the AD walk over-read (\<open>ad_over_reads\<close>, a condition on its bytes); and
  the driver is again in a state it can reach. That the packets are parsed without an over-read is
  part of the conclusion: the scan loop returns its reports as soon as it sees the stop flag.
\<close>

theorem app_memory_safe:
  assumes "reachable app_callbacks drv" and "list_ex sees_stop its"
  shows "\<exists>reports. scan_loop (Some ''advertisement_cb'') its = Some reports \<and>
    (list_all (\<lambda>r. \<not> ad_over_reads (ar_data r)) reports \<longrightarrow>
      (\<exists>drv' log. app_scan crypto its drv = Some (drv', log) \<and> reachable app_callbacks drv'))"
proof -
  obtain reports where loop: "scan_loop (Some ''advertisement_cb'') its = Some reports"
    using assms(2) scan_loop_returns [of "Some ''advertisement_cb''" its] by (auto simp: list_ex_iff)
  have "\<exists>drv' log. app_scan crypto its drv = Some (drv', log) \<and> reachable app_callbacks drv'"
    if good: "list_all (\<lambda>r. \<not> ad_over_reads (ar_data r)) reports"
  proof -
    obtain drv' evs where d: "deliver crypto reports drv = Some (drv', evs)" "reachable app_callbacks drv'"
        "\<forall>e \<in> set evs. printable e"
      using deliver_printable [OF assms(1), of reports] good unfolding extract_over_reads list_all_iff by blast
    then obtain log where "app_print evs = Some log"
      using app_print_total [of evs] printable_event by blast
    then show ?thesis using loop d by (simp add: app_scan_def)
  qed
  then show ?thesis using loop by blast
qed

subsection \<open>From a packet to the line of a press\<close>

text \<open>An HCI packet with one advertising report.\<close>

definition hci_packet :: "adv_report \<Rightarrow> u8 list" where
  "hci_packet r = 0x04 # 0x3E # of_nat (12 + length (ar_data r)) # 0x02 # 1 # encode_report r"

lemma handle_hci_packet:
  assumes "report_ok r" "ar_data r \<noteq> []"
  shows "handle_packet (Some f) (hci_packet r) = Some [r]"
proof -
  have d: "dispatch_from (encode_report r) 1 0 0 = Some [r]"
    using dispatch_reports [of "[r]" 0 1 "[]" "[]"] assms(1) dispatch_end [of 1 1] by simp
  have "11 \<le> length (encode_report r)"
    using assms length_encode_report [OF assms(1)] by (cases "ar_data r") (simp_all add: k_report_hdr_def)
  then show ?thesis
    using handle_packet_header [of "encode_report r" f "of_nat (12 + length (ar_data r))" 1] d
    by (simp add: hci_packet_def hci_constants)
qed

definition press_line :: "u8 list \<Rightarrow> u8 \<Rightarrow> log_call" where
  "press_line addr st =
     LOGGER_NOTICE (''EnOcean button %s | addr %02X:%02X:%02X:%02X:%02X:%02X'' @ '' | buttons 0x%02X'')
       (ArgStr (if bit st 0 then ''PRESS'' else ''RELEASE'') #
        map (\<lambda>a. ArgInt (uint a)) (rev addr) @ [ArgInt (uint (drop_bit 1 st AND 0x0F))])"

text \<open>
  A press reaches the log. When the controller delivers a packet with the advertisement of a
  commissioned switch, its sequence number is above the stored one, its reserved bits are clear
  and the backend confirms its tag, the scan thread prints, behind what the backend itself logs,
  exactly one line: press or release, the address from its last byte to its first, and the button
  bits of the telegram.
\<close>

theorem press_is_printed:
  assumes "reachable app_callbacks drv" and "drv_initialised drv"
    and "lookup (drv_devices drv) addr = Some d" and "dev_type d = Switch" and "length addr = 6"
    and "s > seq_num d" and "st AND 0xE0 = 0" and "length tag = 4"
    and "fst (crypto (dev_key d) (addr @ seq_bytes s @ [0, 0, 0]) (seq_bytes s @ [st]) [] tag [])"
  shows "\<exists>drv'. app_scan crypto [(True, Some (hci_packet \<lparr>ar_addr = addr, ar_addr_type = 0x01,
      ar_adv_type = 0x03, ar_rssi = rssi, ar_data = adv_of (seq_bytes s @ [st] @ tag)\<rparr>), True),
      (False, None, False)] drv = Some (drv', snd (snd (crypto (dev_key d) (addr @ seq_bytes s @ [0, 0, 0])
        (seq_bytes s @ [st]) [] tag [])) @ [press_line addr st])"
proof -
  let ?bl = "snd (snd (crypto (dev_key d) (addr @ seq_bytes s @ [0, 0, 0]) (seq_bytes s @ [st]) [] tag []))"
  let ?t = "telegram s [st] tag"
  let ?r = "\<lparr>ar_addr = addr, ar_addr_type = 0x01, ar_adv_type = 0x03, ar_rssi = rssi, ar_data = adv_of ?t\<rparr>"
  have ok: "table_ok (drv_devices drv)" using reachable_table_ok [OF assms(1)] .
  have cbs: "drv_callbacks drv = app_callbacks" using reachable_callbacks [OF assms(1)] .
  have len: "length addr = k_addr_len" using assms(5) by (simp add: size_constants)
  note D = lookup_SomeD [OF ok len assms(3)]
  let ?d1 = "d\<lparr>dev_rssi := rssi\<rparr>"
  have okd: "device_ok ?d1" using D(4) by simp
  have rel: "relevant drv addr 0x01 0x03 (adv_of ?t) ?t"
    using assms(2,5,8)
    by (simp add: relevant_def extract_adv_of size_constants payload_constants
        k_adv_nonconn_ind_def k_addr_random_def)
  have tag: "length tag = k_tag_len" using assms(8) by (simp add: size_constants)
  have auth: "authentic crypto ?d1 s [st] tag" and bl: "backend_log crypto ?d1 s [st] tag = ?bl"
    using assms(5,8,9) okd D
    by (simp_all add: authentic_def backend_log_def aes_ccm_decrypt_dispatch size_constants device_ok_def)
  have h: "handler_of d crypto (drv_callbacks drv) ?d1 ?t = Some (True, ?d1\<lparr>seq_num := s\<rparr>, map Logged ?bl @
      [CallButton ''on_button'' (?d1\<lparr>seq_num := s\<rparr>) (switch_action st) (switch_buttons st) None])"
    using handle_switch_telegram [OF okd tag, of crypto app_callbacks s st "[]"] auth assms(4,6,7)
    unfolding bl by (simp add: handler_of_def cbs k_status_reserved_mask_def call_if_def app_callbacks_def)
  obtain devs where p: "process_advertisement crypto drv addr 0x01 0x03 rssi (adv_of ?t) =
      Some (drv\<lparr>drv_devices := devs\<rparr>, map Logged ?bl @
        [CallButton ''on_button'' (?d1\<lparr>seq_num := s\<rparr>) (switch_action st) (switch_buttons st) None])"
    using process_known [OF ok rel assms(3) h] D by auto
  have line: "app_print (map Logged ?bl @
      [CallButton ''on_button'' (?d1\<lparr>seq_num := s\<rparr>) (switch_action st) (switch_buttons st) None])
      = Some (?bl @ [press_line addr st])"
    using addr_args_eq [OF len] D
    by (simp add: app_print_append app_print_logs app_event_def on_button_def press_line_def switch_action_def switch_buttons_def)
  have data: "length (adv_of ?t) = 13" using assms(8) by (simp add: adv_of_def)
  have "handle_packet (Some ''advertisement_cb'') (hci_packet ?r) = Some [?r]"
    by (rule handle_hci_packet) (use assms(5) data in \<open>auto simp: report_ok_def\<close>)
  moreover have "take k_hci_buf_size (hci_packet ?r) = hci_packet ?r"
    using assms(5) data by (simp add: hci_packet_def encode_report_def k_hci_buf_size_def)
  ultimately show ?thesis
    using p line by (simp add: app_scan_def advertisement_cb_def telegram_def)
qed


definition app_driver :: EnoceanDriver where
  "app_driver = example_driver\<lparr>drv_callbacks := app_callbacks\<rparr>"

lemma app_driver_reachable: "reachable app_callbacks app_driver"
proof (rule reachable_run [OF reachable_new])
  show "run [OpInit, OpEnable, example_commission 41 [1, 2, 3, 4, 0xDA, 0x03]]
      (new_driver app_callbacks) = Some (app_driver, [
        Logged (LOGGER_NOTICE ''EnoceanDriver initialised (max %zu devices)'' [ArgInt 8]),
        Logged (LOGGER_NOTICE ''EnOcean commissioning enabled'' []),
        commissioned_log [1, 2, 3, 4, 0xDA, 0x03],
        CallCommissioned ''on_commissioned'' example_switch])"
    by code_simp
qed

theorem press_is_printed_witness:
  "\<exists>drv'. app_scan example_backend [(True, Some (hci_packet \<lparr>ar_addr = [1, 2, 3, 4, 0xDA, 0x03],
      ar_addr_type = 0x01, ar_adv_type = 0x03, ar_rssi = -60,
      ar_data = adv_of (seq_bytes 42 @ [0x03] @ [9, 9, 9, 9])\<rparr>), True), (False, None, False)] app_driver
    = Some (drv', [press_line [1, 2, 3, 4, 0xDA, 0x03] 0x03])"
proof -
  have facts: "drv_initialised app_driver"
    "lookup (drv_devices app_driver) [1, 2, 3, 4, 0xDA, 0x03] = Some example_switch"
    "dev_type example_switch = Switch" "length [1 :: u8, 2, 3, 4, 0xDA, 0x03] = 6"
    "(42 :: u32) > seq_num example_switch" "(0x03 :: u8) AND 0xE0 = 0" "length [9 :: u8, 9, 9, 9] = 4"
    "fst (example_backend (dev_key example_switch) ([1, 2, 3, 4, 0xDA, 0x03] @ seq_bytes 42 @ [0, 0, 0])
       (seq_bytes 42 @ [0x03]) [] [9, 9, 9, 9] [])"
    by code_simp+
  have quiet: "snd (snd (example_backend (dev_key example_switch) ([1, 2, 3, 4, 0xDA, 0x03] @ seq_bytes 42 @ [0, 0, 0])
       (seq_bytes 42 @ [0x03]) [] [9, 9, 9, 9] [])) = []"
    by code_simp
  note pip = press_is_printed [where crypto = example_backend and drv = app_driver and s = 42
      and d = example_switch and addr = "[1, 2, 3, 4, 0xDA, 0x03]" and st = "0x03"
      and tag = "[9, 9, 9, 9]" and rssi = "-60"]
  show ?thesis by (rule pip [OF app_driver_reachable facts, unfolded quiet append_Nil])
qed

theorem app_memory_safe_witness:
  "\<exists>drv' log. app_scan example_backend [(True, Some [4, 0x3E, 9], True), (True, None, True),
      (True, Some (hci_packet \<lparr>ar_addr = [1, 2, 3, 4, 0xDA, 0x03], ar_addr_type = 0x01, ar_adv_type = 0x03,
         ar_rssi = -60, ar_data = adv_of (seq_bytes 42 @ [0x03] @ [9, 9, 9, 9])\<rparr>), True),
      (False, None, False)] app_driver = Some (drv', log) \<and> reachable app_callbacks drv'"
  (is "\<exists>drv' log. app_scan _ ?its _ = _ \<and> _")
proof -
  have stop: "list_ex sees_stop ?its" by (simp add: sees_stop_def)
  have reports: "map_option (map ar_data) (scan_loop (Some ''advertisement_cb'') ?its)
      = Some [adv_of (seq_bytes 42 @ [0x03] @ [9, 9, 9, 9])]"
    by code_simp
  have "\<not> ad_over_reads (adv_of (seq_bytes 42 @ [0x03] @ [9, 9, 9, 9]))" by code_simp
  with app_memory_safe [OF app_driver_reachable stop] reports show ?thesis
    by (fastforce simp: map_eq_Cons_conv)
qed

subsection \<open>How the start-up ends\<close>

text \<open>
  The descriptors open after a list of calls, from those open before; \<open>None\<close> when a call closes or
  uses a descriptor that is not open.
\<close>

fun open_sockets :: "int list \<Rightarrow> hci_call list \<Rightarrow> int list option" where
  "open_sockets fds [] = Some fds"
| "open_sockets fds (HciOpen dev fd # cs) = open_sockets (fd # fds) cs"
| "open_sockets fds (HciClose fd # cs) =
     (if fd \<in> set fds then open_sockets (remove1 fd fds) cs else None)"
| "open_sockets fds (HciScanParameters fd # cs) = (if fd \<in> set fds then open_sockets fds cs else None)"
| "open_sockets fds (HciScanEnable fd on # cs) = (if fd \<in> set fds then open_sockets fds cs else None)"
| "open_sockets fds (HciThread tc # cs) = open_sockets fds cs"

lemma open_sockets_append [simp]:
  "open_sockets fds (xs @ ys) = Option.bind (open_sockets fds xs) (\<lambda>fds'. open_sockets fds' ys)"
  by (induction fds xs rule: open_sockets.induct) auto

lemma open_sockets_thread [simp]: "open_sockets fds (map HciThread tcs) = Some fds"
  by (induction tcs) auto

text \<open>The descriptor a scanner holds.\<close>

definition own_socket :: "Scanner \<Rightarrow> int list" where
  "own_socket sc = (if sc_hci_fd sc \<ge> 0 then [sc_hci_fd sc] else [])"

lemma init_outcome:
  assumes "ble_init (scanner_init_impl api) (Some f) ptr new_scanner = (r, sc, cs)"
  shows "\<not> sc_running sc \<and> \<not> thread_active (sc_thread sc) \<and>
    open_sockets [] cs = Some (own_socket sc) \<and>
    (has_value (fst r) \<longrightarrow> sc_hci_fd sc \<ge> 0)"
  using assms
  by (auto simp: ble_init_def scanner_init_impl_def open_hci_socket_def new_scanner_def of_error_def
      of_value_def own_socket_def Let_def split: if_splits)

lemma start_outcome:
  assumes "ble_start_scan (scanner_start_scan_impl api) sc = (r, sc', cs)"
    and "\<not> sc_running sc" "\<not> thread_active (sc_thread sc)"
  shows "sc_hci_fd sc' = sc_hci_fd sc \<and> open_sockets (own_socket sc) cs = Some (own_socket sc) \<and>
    (if has_value (fst r) then sc_running sc' \<and> thread_active (sc_thread sc')
     else \<not> sc_running sc' \<and> \<not> thread_active (sc_thread sc'))"
proof (cases "sc_hci_fd sc < 0")
  case True
  then show ?thesis
    using assms by (auto simp: ble_start_scan_def scanner_start_scan_impl_def of_error_def)
next
  case False
  obtain ok log calls where e: "enable_le_scan api sc = (ok, log, calls)" by (metis prod_cases3)
  have ec: "open_sockets (own_socket sc) calls = Some (own_socket sc)"
    using e \<open>\<not> sc_hci_fd sc < 0\<close>
    by (auto simp: enable_le_scan_def own_socket_def Let_def split: if_splits)
  show ?thesis
  proof (cases ok)
    case False
    then show ?thesis
      using assms \<open>\<not> sc_hci_fd sc < 0\<close> e ec
      by (auto simp: ble_start_scan_def scanner_start_scan_impl_def of_error_def Let_def)
  next
    case True
    define create :: "(PosixThread, pthread_call) os_op" where "create = posix_os_create (hci_threads api) (ThreadFunction1 ''scan_thread_fn'')
      \<lparr>stack_size = 8192, stack_pointer = 0\<rparr> 5 (ThreadParam1 (hci_this api))"
    obtain tr th tcs where t: "thread_create create \<lparr>stack_size = 8192, stack_pointer = 0\<rparr> 5 (sc_thread sc)
        = (tr, th, tcs)"
      by (metis prod_cases3)
    have active: "thread_active th \<longleftrightarrow> has_value (fst tr)"
    proof -
      obtain r1 th1 c1 where o: "create (set_thread_info \<lparr>stack_size = 8192, stack_pointer = 0\<rparr> 5 (sc_thread sc))
          = (r1, th1, c1)"
        by (metis prod_cases3)
      have "tr = r1" "th = (if has_value (fst r1) then th1\<lparr>thread_active := True\<rparr> else th1)"
        using t assms(3) o by (auto simp: thread_create_def Let_def)
      moreover have "\<not> has_value (fst r1) \<Longrightarrow> thread_active th1 = thread_active (sc_thread sc)"
        using posix_os_create_calls [OF o [unfolded create_def]]
        by (simp add: set_thread_info_def set_stack_info_def set_thread_priority_def)
      ultimately show ?thesis using assms(3) by auto
    qed
    have "sc' = sc\<lparr>sc_running := has_value (fst tr), sc_thread := th\<rparr> \<and> has_value (fst r) = has_value (fst tr)
      \<and> open_sockets (own_socket sc) cs = Some (own_socket sc)"
    proof (cases "has_value (fst tr)")
      case yes: True
      show ?thesis
        using assms(1,2) \<open>\<not> sc_hci_fd sc < 0\<close> e True t ec yes
        by (auto simp: ble_start_scan_def scanner_start_scan_impl_def of_value_def
            create_def [symmetric])
    next
      case no: False
      show ?thesis
        using assms(1,2) \<open>\<not> sc_hci_fd sc < 0\<close> e True t ec no
        by (auto simp: ble_start_scan_def scanner_start_scan_impl_def of_error_def Let_def
            create_def [symmetric] disable_le_scan_def own_socket_def)
    qed
    then show ?thesis using active by simp
  qed
qed

lemma dtor_closes:
  assumes "scanner_dtor api sc = Some (sc', cs)" "\<not> sc_running sc" "\<not> thread_active (sc_thread sc)"
  shows "open_sockets (own_socket sc) cs = Some []"
  using assms by (auto simp: scanner_dtor_def thread_dtor_def is_active_def own_socket_def)

lemma closed_ignores:
  assumes "drv_devices drv = replicate k_max_devices default_device" "\<not> drv_commissioning drv"
    "process_advertisement crypto drv addr aty adv rssi data = Some (drv', evs)"
  shows "drv' = drv \<and> evs = []"
proof (cases "\<exists>p. relevant drv addr aty adv data p")
  case False
  then show ?thesis using process_irrelevant assms(3) by blast
next
  case True
  then obtain p where r: "relevant drv addr aty adv data p" by blast
  have "find_device (drv_devices drv) addr = None"
    using empty_lookup [of k_max_devices addr] assms(1) by (simp add: lookup_def)
  then show ?thesis using assms(2,3) by (simp add: process_relevant [OF r])
qed

lemma deliver_closed:
  "drv_devices drv = replicate k_max_devices default_device \<Longrightarrow> \<not> drv_commissioning drv \<Longrightarrow>
     deliver crypto rs drv = Some (drv', evs) \<Longrightarrow> drv' = drv \<and> evs = []"
proof (induction rs arbitrary: evs)
  case (Cons r rs)
  then show ?case using closed_ignores [OF Cons.prems(1,2)]
    by (fastforce simp: advertisement_cb_def split: bind_splits)
qed simp

text \<open>The three ways \<open>run_impl\<close> can go.\<close>

lemma app_run_cases:
  assumes "app_run init_impl start_impl dtor sc0 crypto ptr early = Some (result, sc, log, calls)"
    and "driver_init (new_driver app_callbacks) = (drv0, evs0, ir)"
    and "ble_init init_impl (Some ''advertisement_cb'') ptr sc0 = (br, sc1, c1)"
    and "ble_start_scan start_impl sc1 = (sr, sc2, c2)"
  shows "(\<exists>dc. \<not> has_value (fst br) \<and> dtor sc1 = Some (sc, dc) \<and> result = None \<and> calls = c1 @ dc) \<or>
    (\<exists>dc. has_value (fst br) \<and> \<not> has_value (fst sr) \<and> dtor sc2 = Some (sc, dc) \<and> result = None \<and>
       calls = c1 @ c2 @ dc) \<or>
    (\<exists>drv1 evs1. has_value (fst br) \<and> has_value (fst sr) \<and> deliver crypto early drv0 = Some (drv1, evs1) \<and>
       result = Some (fst (enable_commissioning drv1)) \<and> sc = sc2 \<and> calls = c1 @ c2)"
proof -
  have "has_value ir" using assms(2) by (auto simp: driver_init_def of_value_def)
  then show ?thesis
    using assms(1) unfolding app_run_def assms(2-4) Let_def prod.case
    by (auto simp: enable_commissioning_def split: if_splits bind_splits)
qed

lemma app_run_started:
  assumes "app_run init_impl start_impl dtor sc0 crypto driver_ptr early = Some (Some drv, sc, log, calls)"
  shows "reachable app_callbacks drv \<and> drv_initialised drv \<and> commissioning_enabled drv \<and> device_count drv = 0"
proof -
  obtain drv0 evs0 ir where d: "driver_init (new_driver app_callbacks) = (drv0, evs0, ir)"
    by (metis prod_cases3)
  have drv0: "drv_devices drv0 = replicate k_max_devices default_device" "\<not> drv_commissioning drv0"
      "reachable app_callbacks drv0" "drv_initialised drv0"
    using d driver_init_reachable [of app_callbacks]
    by (auto simp: driver_init_def new_driver_def map_replicate_const)
  obtain br sc1 c1 where i: "ble_init init_impl (Some ''advertisement_cb'') driver_ptr sc0 = (br, sc1, c1)"
    by (metis prod_cases3)
  obtain sr sc2 c2 where st: "ble_start_scan start_impl sc1 = (sr, sc2, c2)"
    by (metis prod_cases3)
  obtain drv1 evs1 where s: "deliver crypto early drv0 = Some (drv1, evs1)" "drv = fst (enable_commissioning drv1)"
    using app_run_cases [OF assms d i st] by auto
  have drv1: "drv1 = drv0" using deliver_closed [OF drv0(1,2) s(1)] by blast
  have "reachable app_callbacks (fst (enable_commissioning drv0))"
    using reachable_step [OF drv0(3), of OpEnable] by (simp add: enable_commissioning_def)
  then show ?thesis
    using s(2) drv1 drv0 by (simp add: commissioning_enabled_def enable_commissioning_def device_count_eq)
qed

text \<open>
  C35: How the start-up ends. No call closes or uses a descriptor that is not open. When
  \<open>run_impl\<close> gives up, no descriptor it opened is still open. Otherwise exactly one is, the
  scanner's own \<open>hci_fd_\<close>; the scan thread runs, the driver is in a reachable state with an
  empty table, and commissioning is enabled: whatever the scan thread delivered in the time
  between the start of the scan and the enabling of commissioning had no effect.
\<close>

theorem app_start_outcome:
  assumes "app_start api crypto driver_ptr early = Some (result, log, calls)"
  shows "case result of
      None \<Rightarrow> open_sockets [] calls = Some []
    | Some (drv, sc) \<Rightarrow> open_sockets [] calls = Some [sc_hci_fd sc] \<and> sc_running sc \<and>
        is_active (sc_thread sc) \<and> reachable app_callbacks drv \<and> commissioning_enabled drv \<and>
        device_count drv = 0"
proof -
  obtain drv0 evs0 ir where d: "driver_init (new_driver app_callbacks) = (drv0, evs0, ir)"
    by (metis prod_cases3)
  obtain br sc1 c1 where i: "ble_init (scanner_init_impl api) (Some ''advertisement_cb'') driver_ptr new_scanner
      = (br, sc1, c1)" by (metis prod_cases3)
  note I = init_outcome [OF i]
  obtain sr sc2 c2 where st: "ble_start_scan (scanner_start_scan_impl api) sc1 = (sr, sc2, c2)"
    by (metis prod_cases3)
  note S = start_outcome [OF st]
  obtain drvo sc log' where run: "app_run (scanner_init_impl api) (scanner_start_scan_impl api) (scanner_dtor api)
      new_scanner crypto driver_ptr early = Some (drvo, sc, log', calls)" "result = map_option (\<lambda>d. (d, sc)) drvo"
    using assms by (auto simp: app_start_def)
  consider (init_failed) dc where "\<not> has_value (fst br)" "scanner_dtor api sc1 = Some (sc, dc)"
      "result = None" "calls = c1 @ dc"
    | (start_failed) dc where "has_value (fst br)" "\<not> has_value (fst sr)"
      "scanner_dtor api sc2 = Some (sc, dc)" "result = None" "calls = c1 @ c2 @ dc"
    | (started) drv1 evs1 where "has_value (fst br)" "has_value (fst sr)" "deliver crypto early drv0 = Some (drv1, evs1)"
      "result = Some (fst (enable_commissioning drv1), sc2)" "calls = c1 @ c2"
    using app_run_cases [OF run(1) d i st] run(2) by auto
  then show ?thesis
  proof cases
    case init_failed
    then show ?thesis using I dtor_closes [OF init_failed(2)] by simp
  next
    case start_failed
    have "own_socket sc2 = own_socket sc1" using S I by (simp add: own_socket_def)
    then show ?thesis using I S dtor_closes [OF start_failed(3)] start_failed by simp
  next
    case started
    then have "own_socket sc1 = [sc_hci_fd sc2]" using S I by (simp add: own_socket_def)
    with started show ?thesis
      using I S run app_run_started [of "scanner_init_impl api" "scanner_start_scan_impl api" "scanner_dtor api"]
      by (auto simp: is_active_def)
  qed
qed

theorem app_start_outcome_witness:
  "\<exists>log calls. app_start (example_hci\<lparr>hci_set_scan_enable := -1\<rparr>) example_backend 64 [] = Some (None, log, calls) \<and>
     calls \<noteq> [] \<and> open_sockets [] calls = Some []"
proof -
  have "map_option (\<lambda>(r, l, cs). (r = None, cs \<noteq> []))
      (app_start (example_hci\<lparr>hci_set_scan_enable := -1\<rparr>) example_backend 64 []) = Some (True, True)"
    by code_simp
  then obtain log calls where
    a: "app_start (example_hci\<lparr>hci_set_scan_enable := -1\<rparr>) example_backend 64 [] = Some (None, log, calls)"
    "calls \<noteq> []"
    by (auto simp: map_option_case split: option.splits)
  from app_start_outcome [OF a(1)] a show ?thesis by simp
qed

end
