(* ===== verification/Ble_Zephyr.thy ===== *)
theory Ble_Zephyr
  imports Ble_Core
begin

text \<open>
  The Zephyr scanner (src/platform/zephyr_core/ble/Ble.cpp). Zephyr calls one static function for
  every advertisement; it finds the scanner through the static pointer \<open>s_instance_\<close>. The state
  is therefore a store of scanner objects by address together with that pointer. The Bluetooth
  stack's answers are parameters.
\<close>

record ZephyrScanner =
  zs_callback :: adv_callback
  zs_callback_ctx :: u64

record zephyr_ble =
  zb_scanners :: "nat \<Rightarrow> ZephyrScanner"
  zb_instance :: "nat option"

datatype zephyr_ble_call =
    BtScanCbRegister nat
  | BtLeScanStart int
  | BtLeScanStop int

definition new_zephyr_ble :: zephyr_ble where
  "new_zephyr_ble = \<lparr>zb_scanners = (\<lambda>p. \<lparr>zs_callback = None, zs_callback_ctx = 0\<rparr>), zb_instance = None\<rparr>"

text \<open>\<open>this\<close> is the address of the scanner the operation is called on.\<close>

definition zephyr_init_impl ::
    "nat \<Rightarrow> adv_callback \<Rightarrow> u64 \<Rightarrow> (zephyr_ble, zephyr_ble_call) ble_op" where
  "zephyr_init_impl this cb ctx st =
     (let obj = (zb_scanners st this)\<lparr>zs_callback := cb, zs_callback_ctx := ctx\<rparr>;
          st = st\<lparr>zb_scanners := (zb_scanners st)(this := obj), zb_instance := Some this\<rparr>
      in (of_value (), st, [BtScanCbRegister this]))"

definition zephyr_start_scan_impl :: "int \<Rightarrow> (zephyr_ble, zephyr_ble_call) ble_op" where
  "zephyr_start_scan_impl err st =
     (if err \<noteq> 0 then
        (let (r, log) = of_error BleError_name BleError_ScanStartFailed ''bt_le_scan_start failed''
                          ''start_scan_impl''
         in ((r, LOGGER_ERROR ''bt_le_scan_start failed (%d)'' [ArgInt err] # log), st, [BtLeScanStart err]))
      else (of_value (), st, [BtLeScanStart err]))"

definition zephyr_stop_scan_impl :: "int \<Rightarrow> (zephyr_ble, zephyr_ble_call) ble_op" where
  "zephyr_stop_scan_impl err st =
     (if err \<noteq> 0 then
        (let (r, log) = of_error BleError_name BleError_ScanStopFailed ''bt_le_scan_stop failed''
                          ''stop_scan_impl''
         in ((r, LOGGER_ERROR ''bt_le_scan_stop failed (%d)'' [ArgInt err] # log), st, [BtLeScanStop err]))
      else (of_value (), st, [BtLeScanStop err]))"

text \<open>
  What Zephyr hands to the callback: \<open>info\<close> (\<open>None\<close> for a null pointer) with the address
  (\<open>None\<close> for a null pointer), its type, the signal strength and the advertisement type, and the
  buffer with its length field.
\<close>

record bt_addr_le =
  bt_addr_type :: u8
  bt_addr_val :: "u8 list"

record bt_le_scan_recv_info =
  ri_addr :: "bt_addr_le option"
  ri_rssi :: i8
  ri_adv_type :: u8

record net_buf_simple =
  nb_data :: "u8 list"
  nb_len :: u16

definition BT_ADDR_SIZE :: nat where "BT_ADDR_SIZE = 6"

text \<open>The call the static function makes: callback, context and report; \<open>None\<close> outside a span.\<close>

definition zephyr_scan_cb ::
    "zephyr_ble \<Rightarrow> bt_le_scan_recv_info option \<Rightarrow> net_buf_simple option \<Rightarrow>
      (string \<times> u64 \<times> adv_report) option option" where
  "zephyr_scan_cb st info buf =
     (case (zb_instance st, info, buf) of
        (Some inst, Some i, Some b) \<Rightarrow>
          (case (zs_callback (zb_scanners st inst), ri_addr i) of
             (Some callback, Some a) \<Rightarrow>
               do {
                 addr \<leftarrow> subspan (bt_addr_val a) 0 BT_ADDR_SIZE;
                 adv_data \<leftarrow> subspan (nb_data b) 0 (unat (nb_len b));
                 Some (Some (callback, zs_callback_ctx (zb_scanners st inst),
                   \<lparr>ar_addr = addr, ar_addr_type = bt_addr_type a, ar_adv_type = ri_adv_type i,
                    ar_rssi = ri_rssi i, ar_data = adv_data\<rparr>))
               }
           | _ \<Rightarrow> Some None)
      | _ \<Rightarrow> Some None)"

definition zephyr_registered :: "nat \<Rightarrow> zephyr_ble \<Rightarrow> adv_callback \<times> u64" where
  "zephyr_registered this st =
     (zs_callback (zb_scanners st this), zs_callback_ctx (zb_scanners st this))"

interpretation bz: scanner_platform "\<lambda>env. zephyr_init_impl this" zephyr_start_scan_impl
    zephyr_stop_scan_impl "zephyr_registered this"
  by unfold_locales
    (auto simp: zephyr_init_impl_def zephyr_start_scan_impl_def zephyr_stop_scan_impl_def
      zephyr_registered_def Let_def of_value_def of_error_def split: if_splits)

subsection \<open>Properties\<close>

text \<open>
  An advertisement goes to the scanner that was initialised last, with the context and the
  callback given there, unchanged; a scanner initialised earlier never hears of it, and before any
  initialisation, or with a null pointer from the stack, nothing is called. \<open>init\<close> with a null
  callback changes nothing.
\<close>

theorem zephyr_dispatches_to_last:
  assumes "ble_init (zephyr_init_impl p) (Some f) ctx st = (r, st1, c1)"
    and "length (bt_addr_val a) = 6" and "unat (nb_len b) \<le> length (nb_data b)"
  shows "zephyr_scan_cb st1 (Some \<lparr>ri_addr = Some a, ri_rssi = rssi, ri_adv_type = adv\<rparr>) (Some b) =
      Some (Some (f, ctx, \<lparr>ar_addr = bt_addr_val a, ar_addr_type = bt_addr_type a, ar_adv_type = adv,
        ar_rssi = rssi, ar_data = take (unat (nb_len b)) (nb_data b)\<rparr>)) \<and>
    zephyr_scan_cb new_zephyr_ble info buf = Some None \<and>
    zephyr_scan_cb st1 None buf = Some None \<and>
    fst (snd (ble_init (zephyr_init_impl q) None ctx st1)) = st1"
proof -
  have reg: "zephyr_registered p st1 = (Some f, ctx)"
    by (rule bz.init_not_null [OF assms(1)])
  have "zb_instance st1 = Some p"
    using assms(1) by (auto simp: ble_init_def zephyr_init_impl_def Let_def)
  then show ?thesis
    using reg assms(2,3)
    by (simp add: zephyr_registered_def zephyr_scan_cb_def subspan_def BT_ADDR_SIZE_def
        new_zephyr_ble_def ble_init_def split: option.split)
qed

theorem zephyr_dispatches_to_last_witness:
  "\<exists>r st1 c1. ble_init (zephyr_init_impl 2) (Some ''cb'') 9 new_zephyr_ble = (r, st1, c1) \<and>
     zephyr_scan_cb st1 (Some \<lparr>ri_addr = Some \<lparr>bt_addr_type = 1, bt_addr_val = [1, 2, 3, 4, 5, 6]\<rparr>,
         ri_rssi = -40, ri_adv_type = 3\<rparr>) (Some \<lparr>nb_data = [2, 1, 6], nb_len = 3\<rparr>) =
       Some (Some (''cb'', 9, \<lparr>ar_addr = [1, 2, 3, 4, 5, 6], ar_addr_type = 1, ar_adv_type = 3,
         ar_rssi = -40, ar_data = [2, 1, 6]\<rparr>))"
proof -
  obtain r st1 c1 where i: "ble_init (zephyr_init_impl 2) (Some ''cb'') 9 new_zephyr_ble = (r, st1, c1)"
    by (metis prod_cases3)
  show ?thesis
    using zephyr_dispatches_to_last [OF i, of "\<lparr>bt_addr_type = 1, bt_addr_val = [1, 2, 3, 4, 5, 6]\<rparr>"
        "\<lparr>nb_data = [2, 1, 6], nb_len = 3\<rparr>" "-40" 3] i
    by simp
qed

end
