(* ===== verification/Crypto_Zephyr.thy ===== *)
theory Crypto_Zephyr
  imports Enocean_Handlers
begin

text \<open>
  The Zephyr backend (src/platform/zephyr_core/crypto/Crypto.cpp). \<open>bt_ccm_decrypt\<close> is Zephyr's:
  it is the parameter \<open>bt\<close>, a function of the key, the nonce, the ciphertext with the tag behind
  it, the associated data, the output buffer (\<open>None\<close> for the null pointer) and the tag length,
  returning its error code and the plaintext it writes. The fixed buffers of the code are written with \<open>copy_into\<close>, which fails (\<open>None\<close>)
  when a copy would leave its buffer.
\<close>

definition k_ad_hdr :: nat where "k_ad_hdr = 4"
definition k_max_aad :: nat where "k_max_aad = 32"
definition k_max_ct :: nat where "k_max_ct = 64"

lemmas zephyr_sizes = k_ad_hdr_def k_max_aad_def k_max_ct_def

type_synonym bt_ccm =
  "u8 list \<Rightarrow> u8 list \<Rightarrow> u8 list \<Rightarrow> nat \<Rightarrow> u8 list \<Rightarrow> u8 list option \<Rightarrow> nat \<Rightarrow> int \<times> u8 list"

text \<open>\<open>std::copy\<close> of a range into a buffer at an offset.\<close>

definition copy_into :: "u8 list \<Rightarrow> u8 list \<Rightarrow> nat \<Rightarrow> u8 list option" where
  "copy_into src dst off =
     (if off + length src \<le> length dst
      then Some (take off dst @ src @ drop (off + length src) dst) else None)"

definition hex_args :: "u8 list \<Rightarrow> nat \<Rightarrow> log_arg list option" where
  "hex_args bs n = (if n \<le> length bs then Some (map (\<lambda>b. ArgInt (uint b)) (take n bs)) else None)"

definition ccm_failed_format :: string where
  "ccm_failed_format = ''AesCcm: bt_ccm_decrypt failed: %d '' @
     ''ct=%zu aad=%zu len=0x%02X '' @
     ''n=%02X%02X%02X%02X%02X%02X%02X%02X%02X%02X%02X%02X%02X '' @
     ''t=%02X%02X%02X%02X '' @ ''k=%02X%02X%02X%02X''"

definition zephyr_ccm_decrypt ::
    "bt_ccm \<Rightarrow> u8 list \<Rightarrow> u8 list \<Rightarrow> u8 list \<Rightarrow> u8 list \<Rightarrow> u8 list \<Rightarrow> u8 list \<Rightarrow>
      (bool \<times> u8 list \<times> log_call list) option" where
  "zephyr_ccm_decrypt bt key nonce aad ciphertext tag plaintext =
     do {
       nonce_buf \<leftarrow> copy_into nonce (replicate k_nonce_len 0) 0;
       let ct_len = length ciphertext;
       if length aad > k_max_aad then
         Some (False, plaintext,
           [LOGGER_ERROR ''AesCcm: aad too large (%zu)'' [ArgInt (int (length aad))]])
       else do {
         let len_val = 1 + 2 + length aad + ct_len + k_tag_len;
         full_aad \<leftarrow> copy_into ([of_nat len_val, 0xFF, 0xDA, 0x03] :: u8 list)
           (replicate (k_ad_hdr + k_max_aad) 0) 0;
         full_aad \<leftarrow> (if aad \<noteq> [] then copy_into aad full_aad k_ad_hdr else Some full_aad);
         let full_aad_len = k_ad_hdr + length aad;
         if ct_len > k_max_ct then
           Some (False, plaintext,
             [LOGGER_ERROR ''AesCcm: ciphertext too large (%zu)'' [ArgInt (int ct_len)]])
         else do {
           let cipher_buf = replicate (k_max_ct + k_tag_len) 0;
           cipher_buf \<leftarrow> (if ct_len > 0 then copy_into ciphertext cipher_buf 0 else Some cipher_buf);
           cipher_buf \<leftarrow> copy_into tag cipher_buf ct_len;
           aad_span \<leftarrow> subspan full_aad 0 full_aad_len;
           cipher_span \<leftarrow> subspan cipher_buf 0 (ct_len + k_tag_len);
           let (err, out) = bt key nonce_buf cipher_span ct_len aad_span
             (if plaintext = [] then None else Some plaintext) k_tag_len;
           plain \<leftarrow> (if plaintext = [] then Some plaintext else copy_into out plaintext 0);
           if err \<noteq> 0 then
             do {
               len_byte \<leftarrow> rd full_aad 0;
               n \<leftarrow> hex_args nonce_buf 13;
               t \<leftarrow> hex_args tag 4;
               k \<leftarrow> hex_args key 4;
               Some (False, plain, [LOGGER_WARNING ccm_failed_format
                 ([ArgInt err, ArgInt (int ct_len), ArgInt (int (length aad)),
                   ArgInt (uint len_byte)] @ n @ t @ k)])
             }
           else Some (True, plain, [])
         }
       }
     }"

text \<open>
  The backend as the driver sees it. The interface hands it 16-byte keys, 13-byte nonces and
  4-byte tags only, and on these no copy leaves its buffer (\<open>zephyr_safe\<close>).
\<close>

definition zephyr_backend :: "bt_ccm \<Rightarrow> crypto_impl" where
  "zephyr_backend bt key nonce aad ct tag out =
     (case zephyr_ccm_decrypt bt key nonce aad ct tag out of None \<Rightarrow> (False, out, []) | Some r \<Rightarrow> r)"

subsection \<open>Buffers\<close>

lemma copy_into_fits:
  "off + length src \<le> length dst \<Longrightarrow>
     copy_into src dst off = Some (take off dst @ src @ drop (off + length src) dst)"
  by (simp add: copy_into_def)

lemma copy_into_behind:
  "length src \<le> length rest \<Longrightarrow>
     copy_into src (pre @ rest) (length pre) = Some (pre @ src @ drop (length src) rest)"
  by (simp add: copy_into_def)

text \<open>The associated data of the library call: the AD record up to the tag.\<close>

definition ad_prefix :: "u8 list \<Rightarrow> nat \<Rightarrow> u8 list" where
  "ad_prefix aad n = of_nat (7 + length aad + n) # 0xFF # 0xDA # 0x03 # aad"

definition ccm_failed_log :: "int \<Rightarrow> u8 list \<Rightarrow> u8 list \<Rightarrow> u8 list \<Rightarrow> nat \<Rightarrow> u8 list \<Rightarrow> log_call" where
  "ccm_failed_log err key nonce aad n tag =
     LOGGER_WARNING ccm_failed_format
       ([ArgInt err, ArgInt (int n), ArgInt (int (length aad)), ArgInt (uint (hd (ad_prefix aad n)))] @
        map (\<lambda>b. ArgInt (uint b)) nonce @ map (\<lambda>b. ArgInt (uint b)) tag @
        map (\<lambda>b. ArgInt (uint b)) (take 4 key))"

lemma zephyr_result:
  assumes "length key = k_key_len" and "length nonce = k_nonce_len" and "length tag = k_tag_len"
  shows "zephyr_ccm_decrypt bt key nonce aad [] tag [] = Some (
     if length aad > k_max_aad then
       (False, [], [LOGGER_ERROR ''AesCcm: aad too large (%zu)'' [ArgInt (int (length aad))]])
     else let err = fst (bt key nonce tag 0 (ad_prefix aad 0) None k_tag_len) in
       (err = 0, [], if err = 0 then [] else [ccm_failed_log err key nonce aad 0 tag]))"
proof -
  have n: "copy_into nonce (replicate k_nonce_len 0) 0 = Some nonce"
    using assms(2) by (simp add: copy_into_def)
  have h: "copy_into ([b, 0xFF, 0xDA, 0x03] :: u8 list) (replicate (k_ad_hdr + k_max_aad) 0) 0 =
      Some (b # 0xFF # 0xDA # 0x03 # replicate k_max_aad 0)" for b
    by (simp add: copy_into_def zephyr_sizes)
  have a: "(if aad \<noteq> [] then copy_into aad (b # 0xFF # 0xDA # 0x03 # replicate k_max_aad 0) k_ad_hdr
      else Some (b # 0xFF # 0xDA # 0x03 # replicate k_max_aad 0)) =
      Some ((b # 0xFF # 0xDA # 0x03 # aad) @ replicate (k_max_aad - length aad) 0)"
    if "length aad \<le> k_max_aad" for b
    using that copy_into_behind [of aad "replicate k_max_aad 0" "[b, 0xFF, 0xDA, 0x03]"]
    by (auto simp: k_ad_hdr_def eval_nat_numeral)
  have s: "subspan ((b # 0xFF # 0xDA # 0x03 # aad) @ r) 0 (k_ad_hdr + length aad) =
      Some (b # 0xFF # 0xDA # 0x03 # aad)" for b r
    by (simp add: subspan_def k_ad_hdr_def eval_nat_numeral)
  have t: "copy_into tag (replicate (k_max_ct + k_tag_len) 0) 0 = Some (tag @ replicate k_max_ct 0)"
    using assms(3) by (simp add: copy_into_def)
  have c: "subspan (tag @ r) 0 (0 + k_tag_len) = Some tag" for r
    using assms(3) by (simp add: subspan_def)
  have x: "hex_args nonce 13 = Some (map (\<lambda>b. ArgInt (uint b)) nonce)"
    "hex_args tag 4 = Some (map (\<lambda>b. ArgInt (uint b)) tag)"
    "hex_args key 4 = Some (map (\<lambda>b. ArgInt (uint b)) (take 4 key))"
    using assms by (simp_all add: hex_args_def size_constants)
  have z: "(of_nat (1 + 2 + length aad + 0 + k_tag_len) :: u8) = of_nat (7 + length aad)"
    by (simp add: size_constants add.commute)
  have g: "\<not> (0 > k_max_ct)" by simp
  show ?thesis
  proof (cases "length aad > k_max_aad")
    case True
    then show ?thesis by (simp add: zephyr_ccm_decrypt_def n)
  next
    case False
    then have le: "length aad \<le> k_max_aad" by simp
    show ?thesis
      unfolding zephyr_ccm_decrypt_def n bind.bind_lunit Let_def list.size z h a [OF le] s t c
      using False
      by (auto simp: x rd_def ad_prefix_def ccm_failed_log_def t c [simplified] split: prod.splits)
  qed
qed

lemma zephyr_no_output: "zephyr_ccm_decrypt bt key nonce aad ct tag [] = Some (ok, res, log) \<Longrightarrow> res = []"
  by (auto simp: zephyr_ccm_decrypt_def Let_def split: if_splits bind_splits prod.splits)

interpretation zp: aead_backend "zephyr_backend bt"
  by unfold_locales (auto simp: zephyr_backend_def zephyr_no_output split: option.split)

text \<open>
  What it logs about a tag: the refusal of the library, with its arguments, or that a telegram is
  too long to be authenticated. When it accepts it logs nothing.
\<close>

lemma zephyr_log:
  assumes "length key = k_key_len" and "length nonce = k_nonce_len" and "length tag = k_tag_len"
  shows "snd (snd (zephyr_backend bt key nonce aad [] tag [])) =
    (if length aad > k_max_aad then [LOGGER_ERROR ''AesCcm: aad too large (%zu)'' [ArgInt (int (length aad))]]
     else let err = fst (bt key nonce tag 0 (ad_prefix aad 0) None k_tag_len) in
       if err = 0 then [] else [ccm_failed_log err key nonce aad 0 tag])"
  using zephyr_result [OF assms, of bt aad] by (simp add: zephyr_backend_def Let_def)

lemma zephyr_accepts_quietly:
  assumes "length key = k_key_len" and "length nonce = k_nonce_len" and "length tag = k_tag_len"
    and "fst (zephyr_backend bt key nonce aad [] tag [])"
  shows "snd (snd (zephyr_backend bt key nonce aad [] tag [])) = []"
  using zephyr_result [OF assms(1-3), of bt aad] assms(4)
  by (auto simp: zephyr_backend_def Let_def split: if_splits)

text \<open>For a switch telegram the driver's question to the backend is one call of the library.\<close>

lemma zephyr_authentic:
  assumes "device_ok dev" and "length tag = 4" and "length opt \<le> 4"
  shows "authentic (zephyr_backend bt) dev s (st # opt) tag \<longleftrightarrow>
      fst (bt (dev_key dev) (ba_addr (ble_addr dev) @ seq_bytes s @ [0, 0, 0]) tag 0
         (take (9 + length opt) (encode_ad (0xFF, 0xDA # 0x03 # telegram s (st # opt) tag))) None 4) = 0"
    and "zephyr_ccm_decrypt bt (dev_key dev) (ba_addr (ble_addr dev) @ seq_bytes s @ [0, 0, 0])
      (seq_bytes s @ st # opt) [] tag [] \<noteq> None"
proof -
  let ?nonce = "ba_addr (ble_addr dev) @ seq_bytes s @ [0, 0, 0]" and ?body = "seq_bytes s @ st # opt"
  have lens: "length (dev_key dev) = k_key_len" "length ?nonce = k_nonce_len" "length tag = k_tag_len"
    using assms(1,2) by (simp_all add: device_ok_def size_constants)
  have small: "\<not> length ?body > k_max_aad" using assms(3) by (simp add: zephyr_sizes)
  have aad: "take (9 + length opt) (encode_ad (0xFF, 0xDA # 0x03 # telegram s (st # opt) tag)) =
      ad_prefix ?body 0"
    using assms(2) by (simp add: ad_prefix_def telegram_def add.commute take_Cons')
  have r: "zephyr_ccm_decrypt bt (dev_key dev) ?nonce ?body [] tag [] = Some
      (let err = fst (bt (dev_key dev) ?nonce tag 0 (ad_prefix ?body 0) None k_tag_len) in
       (err = 0, [], if err = 0 then [] else [ccm_failed_log err (dev_key dev) ?nonce ?body 0 tag]))"
    using zephyr_result [OF lens, of bt ?body] small by simp
  then show "zephyr_ccm_decrypt bt (dev_key dev) ?nonce ?body [] tag [] \<noteq> None" by simp
  show "authentic (zephyr_backend bt) dev s (st # opt) tag \<longleftrightarrow> fst (bt (dev_key dev) ?nonce tag 0
      (take (9 + length opt) (encode_ad (0xFF, 0xDA # 0x03 # telegram s (st # opt) tag))) None 4) = 0"
    using lens r
    by (simp only: aad) (simp add: authentic_def aes_ccm_decrypt_dispatch zephyr_backend_def Let_def size_constants)
qed

lemma zephyr_switch_log:
  assumes "device_ok dev" and "length tag = 4" and "length opt \<le> 4"
    and "err = fst (bt (dev_key dev) (ba_addr (ble_addr dev) @ seq_bytes s @ [0, 0, 0]) tag 0
         (take (9 + length opt) (encode_ad (0xFF, 0xDA # 0x03 # telegram s (st # opt) tag))) None 4)"
  shows "backend_log (zephyr_backend bt) dev s (st # opt) tag =
    (if err = 0 then [] else [ccm_failed_log err (dev_key dev) (ba_addr (ble_addr dev) @ seq_bytes s @ [0, 0, 0])
       (seq_bytes s @ st # opt) 0 tag])"
proof -
  let ?nonce = "ba_addr (ble_addr dev) @ seq_bytes s @ [0, 0, 0]" and ?body = "seq_bytes s @ st # opt"
  have lens: "length (dev_key dev) = k_key_len" "length ?nonce = k_nonce_len" "length tag = k_tag_len"
    using assms(1,2) by (simp_all add: device_ok_def size_constants)
  have small: "\<not> length ?body > k_max_aad" using assms(3) by (simp add: zephyr_sizes)
  have aad: "take (9 + length opt) (encode_ad (0xFF, 0xDA # 0x03 # telegram s (st # opt) tag)) = ad_prefix ?body 0"
    using assms(2) by (simp add: ad_prefix_def telegram_def add.commute take_Cons')
  have "snd (snd (zephyr_backend bt (dev_key dev) ?nonce ?body [] tag [])) =
      (if err = 0 then [] else [ccm_failed_log err (dev_key dev) ?nonce ?body 0 tag])"
    using zephyr_log [OF lens, of bt ?body] small assms(4) unfolding aad by (simp add: Let_def size_constants)
  then show ?thesis
    using lens by (simp add: backend_log_def aes_ccm_decrypt_dispatch size_constants)
qed

subsection \<open>Properties\<close>

text \<open>
  What the Zephyr backend authenticates. For a switch telegram the library is called with
  the associated data that are the bytes of the telegram's AD record as it was on the air, from
  the length byte to the last byte before the tag, and the handler accepts exactly the telegrams
  that this call confirms (among those with a larger sequence number, clear reserved bits and a
  legal length); no buffer of the backend overflows.
\<close>

theorem zephyr_authenticates_ad_record:
  assumes "device_ok dev" and "length tag = 4" and "s > seq_num dev" and "st AND 0xE0 = 0"
    and "length opt \<in> {0, 1, 2, 4}"
  shows "(fst (the (handle_switch (zephyr_backend bt) cbs dev (telegram s (st # opt) tag))) \<longleftrightarrow>
      fst (bt (dev_key dev) (ba_addr (ble_addr dev) @ seq_bytes s @ [0, 0, 0]) tag 0
         (take (9 + length opt) (encode_ad (0xFF, 0xDA # 0x03 # telegram s (st # opt) tag))) None 4) = 0) \<and>
    zephyr_ccm_decrypt bt (dev_key dev) (ba_addr (ble_addr dev) @ seq_bytes s @ [0, 0, 0])
      (seq_bytes s @ st # opt) [] tag [] \<noteq> None"
proof -
  have "length tag = k_tag_len" "length opt \<le> 4" using assms(2,5) by (auto simp: size_constants)
  then show ?thesis
    using handle_switch_telegram [OF assms(1), of tag "zephyr_backend bt" cbs s st opt]
      zephyr_authentic [OF assms(1,2), of opt bt s st] assms(3-5)
    by (auto simp: k_status_reserved_mask_def)
qed

text \<open>A library that confirms one record.\<close>

definition example_bt :: "u8 list \<Rightarrow> bt_ccm" where
  "example_bt good key nonce cipher n aad out taglen = (if aad = good then 0 else -22, [])"

theorem zephyr_authenticates_ad_record_witness:
  "fst (the (handle_switch (zephyr_backend (example_bt [12, 0xFF, 0xDA, 0x03, 42, 0, 0, 0, 0x03]))
     no_callbacks example_switch (telegram 42 [0x03] [9, 9, 9, 9])))"
proof -
  let ?bt = "example_bt [12, 0xFF, 0xDA, 0x03, 42, 0, 0, 0, 0x03]"
  have "fst (?bt (dev_key example_switch) (ba_addr (ble_addr example_switch) @ seq_bytes 42 @ [0, 0, 0])
      [9, 9, 9, 9] 0 (take (9 + length ([] :: u8 list))
        (encode_ad (0xFF, 0xDA # 0x03 # telegram 42 [0x03] [9, 9, 9, 9]))) None 4) = 0"
    by code_simp
  moreover have "seq_num example_switch < 42" "(0x03 :: u8) AND 0xE0 = 0" "length [9 :: u8, 9, 9, 9] = 4"
    "length ([] :: u8 list) \<in> {0, 1, 2, 4}"
    by code_simp+
  ultimately show ?thesis
    using zephyr_authenticates_ad_record [OF example_switch_ok, of "[9, 9, 9, 9]" 42 "0x03" "[]" ?bt
        no_callbacks]
    by blast
qed

text \<open>
  The log of a failed verification discloses key material: the last four arguments of the
  warning are the first four bytes of the device's key.
\<close>

theorem zephyr_log_discloses_key:
  assumes "length key = 16" and "length nonce = 13" and "length tag = 4" and "length aad \<le> 32"
    and "fst (bt key nonce tag 0 (ad_prefix aad 0) None 4) \<noteq> 0"
  shows "\<exists>fmt args. zephyr_ccm_decrypt bt key nonce aad [] tag [] = Some (False, [], [LogCall sev_warning fmt
     (args @ map (\<lambda>b. ArgInt (uint b)) (take 4 key))])"
proof -
  have lens: "length key = k_key_len" "length nonce = k_nonce_len" "length tag = k_tag_len"
    "\<not> length aad > k_max_aad" "fst (bt key nonce tag 0 (ad_prefix aad 0) None k_tag_len) \<noteq> 0"
    using assms by (simp_all add: size_constants zephyr_sizes)
  show ?thesis
    using zephyr_result [OF lens(1-3), of bt aad] lens(4,5)
    by (auto simp: Let_def ccm_failed_log_def LOGGER_WARNING_def simp flip: append_assoc)
qed

theorem zephyr_log_discloses_key_witness:
  "\<exists>fmt args. zephyr_ccm_decrypt (example_bt []) [1, 2, 3, 4, 5, 6, 7, 8, 9, 10, 11, 12, 13, 14, 15, 16]
     (replicate 13 0) [7] [] [9, 9, 9, 9] [] = Some (False, [], [LogCall sev_warning fmt
       (args @ [ArgInt 1, ArgInt 2, ArgInt 3, ArgInt 4])])"
  using zephyr_log_discloses_key [of "[1, 2, 3, 4, 5, 6, 7, 8, 9, 10, 11, 12, 13, 14, 15, 16]"
      "replicate 13 0" "[9, 9, 9, 9]" "[7]" "example_bt []"]
  by (simp add: example_bt_def ad_prefix_def)

end
