(* ===== verification/App_Zephyr.thy ===== *)
theory App_Zephyr
  imports App_Entry Ble_Zephyr Crypto_Zephyr
begin

text \<open>
  The application on Zephyr: \<open>run_impl\<close> (src/application/AppEntry.cpp) with the scanner of
  src/platform/zephyr_core/ble and the backend of src/platform/zephyr_core/crypto. There is no
  scan thread: the Bluetooth stack calls the scanner's static function for every advertisement.
\<close>

text \<open>
  \<open>this\<close> is the address of the scanner, a local variable of \<open>run_impl\<close>; its destructor is
  defaulted and does nothing. \<open>scan_err\<close> is the answer of \<open>bt_le_scan_start\<close>.
\<close>

definition zephyr_app_start ::
    "nat \<Rightarrow> int \<Rightarrow> bt_ccm \<Rightarrow> zephyr_ble \<Rightarrow> u64 \<Rightarrow> adv_report list \<Rightarrow>
      (EnoceanDriver option \<times> zephyr_ble \<times> log_call list \<times> zephyr_ble_call list) option" where
  "zephyr_app_start this scan_err bt st driver_ptr early =
     app_run (zephyr_init_impl this) (zephyr_start_scan_impl scan_err) (\<lambda>st. Some (st, [])) st
       (zephyr_backend bt) driver_ptr early"

text \<open>
  A call of the static function by the stack: \<open>drv\<close> is the driver at \<open>driver_ptr\<close>, \<open>None\<close> when
  \<open>run_impl\<close> has returned and scanner and driver are destroyed. The result is the driver and
  the lines printed; \<open>None\<close> is a use of a destroyed object or an access outside a buffer. The
  code does not look at the scanner before it has read the static pointer.
\<close>

definition zephyr_app_recv ::
    "bt_ccm \<Rightarrow> u64 \<Rightarrow> zephyr_ble \<Rightarrow> EnoceanDriver option \<Rightarrow> bt_le_scan_recv_info option \<Rightarrow>
      net_buf_simple option \<Rightarrow> (EnoceanDriver option \<times> log_call list) option" where
  "zephyr_app_recv bt driver_ptr st drv info buf =
     (if zb_instance st = None then Some (drv, [])
      else do {
        d \<leftarrow> drv;
        call \<leftarrow> zephyr_scan_cb st info buf;
        case call of
          None \<Rightarrow> Some (Some d, [])
        | Some (callback, ctx, r) \<Rightarrow>
            if callback = ''advertisement_cb'' \<and> ctx = driver_ptr then do {
              (d', evs) \<leftarrow> deliver (zephyr_backend bt) [r] d;
              log \<leftarrow> app_print evs;
              Some (Some d', log)
            }
            else None
      })"

text \<open>A report as the stack hands it over.\<close>

definition recv_info :: "adv_report \<Rightarrow> bt_le_scan_recv_info" where
  "recv_info r = \<lparr>ri_addr = Some \<lparr>bt_addr_type = ar_addr_type r, bt_addr_val = ar_addr r\<rparr>,
     ri_rssi = ar_rssi r, ri_adv_type = ar_adv_type r\<rparr>"

definition recv_buf :: "adv_report \<Rightarrow> net_buf_simple" where
  "recv_buf r = \<lparr>nb_data = ar_data r, nb_len = of_nat (length (ar_data r))\<rparr>"

lemma zephyr_recv_report:
  assumes "zb_instance st = Some this" and "zephyr_registered this st = (Some ''advertisement_cb'', ptr)"
    and "report_ok r"
  shows "zephyr_app_recv bt ptr st (Some d) (Some (recv_info r)) (Some (recv_buf r)) =
    do {
      (d', evs) \<leftarrow> deliver (zephyr_backend bt) [r] d;
      log \<leftarrow> app_print evs;
      Some (Some d', log)
    }"
proof -
  have "unat (of_nat (length (ar_data r)) :: u16) = length (ar_data r)"
    using assms(3) unat_of_nat [of "length (ar_data r)", where ?'a = 16] by (simp add: report_ok_def)
  then have "zephyr_scan_cb st (Some (recv_info r)) (Some (recv_buf r)) = Some (Some (''advertisement_cb'', ptr, r))"
    using assms
    by (simp add: zephyr_scan_cb_def zephyr_registered_def recv_info_def recv_buf_def report_ok_def
        subspan_def BT_ADDR_SIZE_def)
  then show ?thesis using assms(1) by (simp add: zephyr_app_recv_def)
qed

subsection \<open>From an advertisement to the line of a press\<close>

text \<open>What the library answers about the tag of a switch telegram.\<close>

definition ccm_answer :: "bt_ccm \<Rightarrow> u8 list \<Rightarrow> u8 list \<Rightarrow> u32 \<Rightarrow> u8 list \<Rightarrow> u8 list \<Rightarrow> int" where
  "ccm_answer bt key addr s body tag =
     fst (bt key (addr @ seq_bytes s @ [0, 0, 0]) tag 0
       (take (8 + length body) (encode_ad (0xFF, 0xDA # 0x03 # telegram s body tag))) None 4)"

lemma zephyr_switch_result:
  assumes "device_ok d" and "length tag = 4"
  shows "handle_switch (zephyr_backend bt) app_callbacks d (telegram s (b # opt) tag) = Some (
    let err = ccm_answer bt (dev_key d) (dev_addr d) s (b # opt) tag in
    if \<not> s > seq_num d then (False, d, map Logged [LOGGER_WARNING ''EnoceanDriver: replay detected (switch)'' []])
    else if length opt > 4 \<or> b AND 0xE0 \<noteq> 0 then (False, d, map Logged [])
    else if err \<noteq> 0 then (False, d, map Logged
      [ccm_failed_log err (dev_key d) (dev_addr d @ seq_bytes s @ [0, 0, 0]) (seq_bytes s @ b # opt) 0 tag,
       LOGGER_WARNING ''EnoceanDriver: switch auth failed'' []])
    else if length opt = 3 then (False, d\<lparr>seq_num := s\<rparr>, map Logged [])
    else (True, d\<lparr>seq_num := s\<rparr>, [CallButton ''on_button'' (d\<lparr>seq_num := s\<rparr>) (switch_action b)
      (switch_buttons b) (if opt = [] then None else Some opt)]))"
proof -
  have tag: "length tag = k_tag_len" using assms(2) by (simp add: size_constants)
  note H = handle_switch_telegram [OF assms(1) tag, of "zephyr_backend bt" app_callbacks s b opt,
      unfolded k_status_reserved_mask_def]
  show ?thesis
  proof (cases "length opt > 4")
    case True
    then show ?thesis unfolding H by simp
  next
    case False
    then have four: "length opt \<le> 4" by simp
    have a: "authentic (zephyr_backend bt) d s (b # opt) tag \<longleftrightarrow>
        ccm_answer bt (dev_key d) (dev_addr d) s (b # opt) tag = 0"
      using zephyr_authentic(1) [OF assms four, of bt s b] by (simp add: ccm_answer_def)
    have l: "backend_log (zephyr_backend bt) d s (b # opt) tag =
        (if ccm_answer bt (dev_key d) (dev_addr d) s (b # opt) tag = 0 then [] else
         [ccm_failed_log (ccm_answer bt (dev_key d) (dev_addr d) s (b # opt) tag) (dev_key d)
           (dev_addr d @ seq_bytes s @ [0, 0, 0]) (seq_bytes s @ b # opt) 0 tag])"
      by (rule zephyr_switch_log [OF assms four]) (simp add: ccm_answer_def)
    show ?thesis
      unfolding H a l using False by (simp add: Let_def call_if_def app_callbacks_def)
  qed
qed

text \<open>
  C16: From the Bluetooth stack to the log, on Zephyr: exactly what the application prints for an
  advertisement of a commissioned switch. A sequence number that is not above the stored one gives
  the driver's warning of a replay, reserved bits or too much optional data give nothing, and a
  refusal of \<open>bt_ccm_decrypt\<close> - asked about the AD record as it was on the air, under the device's
  key and the nonce of its address and sequence number - gives the backend's warning and the
  driver's. The line of the press or release is printed in all other cases but one: three bytes of
  optional data are authenticated and dropped in silence. The address is printed from its last
  byte to its first (\<open>press_line\<close>), where the README shows \<open>DA:03:...\<close>.
\<close>

theorem zephyr_press_printed_iff:
  assumes "reachable app_callbacks d" and "drv_initialised d"
    and "zb_instance st = Some this" and "zephyr_registered this st = (Some ''advertisement_cb'', ptr)"
    and "report_ok r" and "ar_addr_type r = 0x01" and "ar_adv_type r = 0x03"
    and "lookup (drv_devices d) (ar_addr r) = Some dev" and "dev_type dev = Switch"
    and "extract_manufacturer_data (ar_data r) = Some (telegram s (b # opt) tag)" and "length tag = 4"
    and "err = ccm_answer bt (dev_key dev) (ar_addr r) s (b # opt) tag"
  shows "\<exists>d' log. zephyr_app_recv bt ptr st (Some d) (Some (recv_info r)) (Some (recv_buf r)) = Some (Some d', log) \<and>
    log =
      (if \<not> s > seq_num dev then [LOGGER_WARNING ''EnoceanDriver: replay detected (switch)'' []]
       else if length opt > 4 \<or> b AND 0xE0 \<noteq> 0 then []
       else if err \<noteq> 0 then
         [ccm_failed_log err (dev_key dev) (ar_addr r @ seq_bytes s @ [0, 0, 0]) (seq_bytes s @ b # opt) 0 tag,
          LOGGER_WARNING ''EnoceanDriver: switch auth failed'' []]
       else if length opt = 3 then []
       else [press_line (ar_addr r) b])"
  (is "\<exists>d' log. _ \<and> log = ?log")
proof -
  let ?t = "telegram s (b # opt) tag" and ?crypto = "zephyr_backend bt"
  have ok: "table_ok (drv_devices d)" using reachable_table_ok [OF assms(1)] .
  have cbs: "drv_callbacks d = app_callbacks" using reachable_callbacks [OF assms(1)] .
  have len: "length (ar_addr r) = k_addr_len" using assms(5) by (simp add: report_ok_def size_constants)
  note D = lookup_SomeD [OF ok len assms(8)]
  let ?d1 = "dev\<lparr>dev_rssi := ar_rssi r\<rparr>"
  have okd: "device_ok ?d1" using D(4) by simp
  have rel: "relevant d (ar_addr r) 0x01 0x03 (ar_data r) ?t"
    using assms(2,10,11) len by (simp add: relevant_def payload_constants k_adv_nonconn_ind_def k_addr_random_def)
  have button: "app_print [CallButton ''on_button'' (?d1\<lparr>seq_num := s\<rparr>) (switch_action b) (switch_buttons b) o']
      = Some [press_line (ar_addr r) b]" for o'
    using addr_args_eq [OF len] D
    by (simp add: app_event_def on_button_def press_line_def switch_action_def switch_buttons_def)
  have logged: "app_event (Logged l) = Some [l]" for l by (simp add: app_event_def)
  note W = zephyr_switch_result [OF okd assms(11), of bt s b opt]
  obtain ret d' evs where h: "handle_switch ?crypto app_callbacks ?d1 ?t = Some (ret, d', evs)"
    by (metis W prod_cases3)
  have evs: "dev_addr d' = ar_addr r" "app_print evs = Some ?log"
    using h W D(2) button assms(12) logged by (auto simp: Let_def split: if_splits)
  have "handler_of dev ?crypto app_callbacks ?d1 ?t = Some (ret, d', evs)"
    using h assms(9) by (simp add: handler_of_def)
  then obtain devs where p: "process_advertisement ?crypto d (ar_addr r) 0x01 0x03 (ar_rssi r) (ar_data r) =
      Some (d\<lparr>drv_devices := devs\<rparr>, evs)"
    using process_known [OF ok rel assms(8) _ evs(1)] cbs by metis
  have del: "deliver ?crypto [r] d = Some (d\<lparr>drv_devices := devs\<rparr>, evs)"
    using p assms(6,7) by (simp add: advertisement_cb_def)
  show ?thesis
    unfolding zephyr_recv_report [OF assms(3-5), of bt d] del by (simp add: evs(2))
qed

theorem zephyr_press_printed_iff_witness:
  "\<exists>d' log. zephyr_app_recv (example_bt [12, 0xFF, 0xDA, 0x03, 42, 0, 0, 0, 0x03]) 64
      (fst (snd (zephyr_init_impl 3 (Some ''advertisement_cb'') 64 new_zephyr_ble))) (Some app_driver)
      (Some (recv_info \<lparr>ar_addr = [1, 2, 3, 4, 0xDA, 0x03], ar_addr_type = 1, ar_adv_type = 3, ar_rssi = -60,
         ar_data = adv_of (telegram 42 [0x03] [9, 9, 9, 9])\<rparr>))
      (Some (recv_buf \<lparr>ar_addr = [1, 2, 3, 4, 0xDA, 0x03], ar_addr_type = 1, ar_adv_type = 3, ar_rssi = -60,
         ar_data = adv_of (telegram 42 [0x03] [9, 9, 9, 9])\<rparr>)) = Some (Some d', log) \<and>
    log = [press_line [1, 2, 3, 4, 0xDA, 0x03] 0x03]"
proof -
  let ?st = "fst (snd (zephyr_init_impl 3 (Some ''advertisement_cb'') 64 new_zephyr_ble))"
  let ?bt = "example_bt [12, 0xFF, 0xDA, 0x03, 42, 0, 0, 0, 0x03]"
  let ?r = "\<lparr>ar_addr = [1, 2, 3, 4, 0xDA, 0x03], ar_addr_type = 1, ar_adv_type = 3, ar_rssi = -60,
         ar_data = adv_of (telegram 42 [0x03] [9, 9, 9, 9])\<rparr> :: adv_report"
  have facts: "drv_initialised app_driver" "zb_instance ?st = Some 3"
    "zephyr_registered 3 ?st = (Some ''advertisement_cb'', 64)" "report_ok ?r"
    "ar_addr_type ?r = 0x01" "ar_adv_type ?r = 0x03"
    "lookup (drv_devices app_driver) (ar_addr ?r) = Some example_switch" "dev_type example_switch = Switch"
    "extract_manufacturer_data (ar_data ?r) = Some (telegram 42 [0x03] [9, 9, 9, 9])"
    "length [9 :: u8, 9, 9, 9] = 4"
    by code_simp+
  have good: "(42 :: u32) > seq_num example_switch" "(0x03 :: u8) AND 0xE0 = 0"
    and err: "0 = ccm_answer ?bt (dev_key example_switch) (ar_addr ?r) 42 [0x03] [9, 9, 9, 9]"
    by code_simp+
  have "\<not> length ([] :: u8 list) > 4" "length ([] :: u8 list) \<noteq> 3" by simp_all
  with zephyr_press_printed_iff [OF app_driver_reachable facts err] good show ?thesis
    by (simp only: if_True if_False simp_thms adv_report.simps)
qed

subsection \<open>How the start-up ends\<close>

text \<open>
  C36: How the start-up ends on Zephyr. When it succeeds, commissioning is open, the table is
  empty and the stack's calls reach the driver that \<open>run_impl\<close> keeps alive. When it fails, the
  stack still has the static function and the static pointer still holds the address of the
  destroyed scanner: any further call by the stack uses a destroyed object.
\<close>

theorem zephyr_app_start_outcome:
  assumes "zephyr_app_start this scan_err bt st0 driver_ptr early = Some (result, st, log, calls)"
  shows "zb_instance st = Some this \<and> zephyr_registered this st = (Some ''advertisement_cb'', driver_ptr) \<and>
    (case result of
       Some drv \<Rightarrow> scan_err = 0 \<and> reachable app_callbacks drv \<and> commissioning_enabled drv \<and> device_count drv = 0
     | None \<Rightarrow> scan_err \<noteq> 0 \<and> (\<forall>info buf. zephyr_app_recv bt driver_ptr st result info buf = None))"
proof -
  obtain drv0 evs0 ir where d: "driver_init (new_driver app_callbacks) = (drv0, evs0, ir)"
    by (metis prod_cases3)
  obtain br st1 c1 where i: "ble_init (zephyr_init_impl this) (Some ''advertisement_cb'') driver_ptr st0
      = (br, st1, c1)" by (metis prod_cases3)
  have I: "has_value (fst br)" "zb_instance st1 = Some this"
    "zephyr_registered this st1 = (Some ''advertisement_cb'', driver_ptr)"
    using i by (auto simp: ble_init_def zephyr_init_impl_def zephyr_registered_def of_value_def Let_def)
  obtain sr st2 c2 where s: "ble_start_scan (zephyr_start_scan_impl scan_err) st1 = (sr, st2, c2)"
    by (metis prod_cases3)
  have S: "st2 = st1" "has_value (fst sr) \<longleftrightarrow> scan_err = 0"
    using s by (auto simp: ble_start_scan_def zephyr_start_scan_impl_def of_value_def of_error_def Let_def
        split: if_splits)
  from app_run_cases [OF assms [unfolded zephyr_app_start_def] d i s] I S
  consider "result = None" "scan_err \<noteq> 0" "st = st1"
    | drv1 evs1 where "scan_err = 0" "st = st1" "deliver (zephyr_backend bt) early drv0 = Some (drv1, evs1)"
      "result = Some (fst (enable_commissioning drv1))"
    by auto
  then show ?thesis
  proof cases
    case 1
    then show ?thesis using I by (simp add: zephyr_app_recv_def)
  next
    case (2 drv1 evs1)
    then show ?thesis
      using I assms [unfolded zephyr_app_start_def] app_run_started [of "zephyr_init_impl this"] by auto
  qed
qed

theorem zephyr_app_start_outcome_witness:
  "\<exists>st log calls. zephyr_app_start 3 (-5) (example_bt []) new_zephyr_ble 64 [] = Some (None, st, log, calls) \<and>
     zephyr_app_recv (example_bt []) 64 st None None None = None"
proof -
  have "map_option fst (zephyr_app_start 3 (-5) (example_bt []) new_zephyr_ble 64 []) = Some None" by code_simp
  then obtain st log calls where
    a: "zephyr_app_start 3 (-5) (example_bt []) new_zephyr_ble 64 [] = Some (None, st, log, calls)"
    by auto
  from zephyr_app_start_outcome [OF a] a show ?thesis by auto
qed

end
