(* ===== verification/Thread_Zephyr.thy ===== *)
theory Thread_Zephyr
  imports Thread_Core
begin

text \<open>
  Zephyr threads (src/platform/zephyr_core/thread/Thread.cpp). The kernel is a parameter:
  \<open>zt_create\<close> is the thread identifier \<open>k_thread_create\<close> returns (\<open>None\<close>: a null pointer) and
  \<open>zt_join\<close> the result of \<open>k_thread_join\<close> (\<open>None\<close>: it never returns).
\<close>

record ZephyrThread = IThread +
  zt_p1 :: u64
  zt_p2 :: u64
  zt_p3 :: u64
  zt_thread_id :: "nat option"

record zephyr_thread_api =
  zt_create :: "ThreadStackInfo \<Rightarrow> string \<Rightarrow> u64 \<Rightarrow> u64 \<Rightarrow> u64 \<Rightarrow> int \<Rightarrow> nat option"
  zt_join :: "nat option \<Rightarrow> os_result option"

datatype zephyr_call =
    KThreadCreate string u64 u64 u64 "nat option"
  | KThreadJoin "nat option" os_result

definition zephyr_errno_to_thread_error :: "errno \<Rightarrow> ThreadError" where
  "zephyr_errno_to_thread_error error_code =
     (case error_code of
        EINVAL \<Rightarrow> ThreadError_InvalidParameter
      | EAGAIN \<Rightarrow> ThreadError_ResourceLimitExceeded
      | ESRCH \<Rightarrow> ThreadError_ThreadNotFound
      | EALREADY \<Rightarrow> ThreadError_AlreadyCreated
      | _ \<Rightarrow> ThreadError_Unknown)"

text \<open>The second half of both overloads: create the thread and look at its identifier.\<close>

definition zephyr_create_with ::
    "zephyr_thread_api \<Rightarrow> string \<Rightarrow> ThreadStackInfo \<Rightarrow> int \<Rightarrow> u64 \<Rightarrow> u64 \<Rightarrow> u64 \<Rightarrow>
      ('a ZephyrThread_scheme, zephyr_call) os_op" where
  "zephyr_create_with api threadFun info priority a1 a2 a3 th =
     (let tid = zt_create api info threadFun a1 a2 a3 priority;
          th = th\<lparr>zt_thread_id := tid\<rparr>;
          calls = [KThreadCreate threadFun a1 a2 a3 tid]
      in if tid \<noteq> None then (of_value (), set_active True th, calls)
         else (of_error ThreadError_name ThreadError_CreationFailed ''k_thread_create failed''
                 ''os_create'', th, calls))"

definition zephyr_os_create ::
    "zephyr_thread_api \<Rightarrow> ThreadFunctionVariant \<Rightarrow> ThreadStackInfo \<Rightarrow> int \<Rightarrow> ThreadParamVariant \<Rightarrow>
      ('a ZephyrThread_scheme, zephyr_call) os_op" where
  "zephyr_os_create api threadFunction info priority params th =
     (case threadFunction of
        ThreadFunction3 threadFun \<Rightarrow>
          let (a1, a2, a3) =
            (case params of
               ThreadParam1 p \<Rightarrow> (p, 0, 0)
             | ThreadParam2 p q \<Rightarrow> (p, q, 0)
             | ThreadParam3 p q r \<Rightarrow> (p, q, r)
             | ThreadParamValue raw_value \<Rightarrow> (raw_value, 0, 0))
          in zephyr_create_with api threadFun info priority a1 a2 a3
               (th\<lparr>zt_p1 := a1, zt_p2 := a2, zt_p3 := a3\<rparr>)
      | _ \<Rightarrow> (of_error ThreadError_name ThreadError_InvalidParameter
                ''Invalid thread function type for Zephyr'' ''os_create'', th, []))"

definition zephyr_os_create0 ::
    "zephyr_thread_api \<Rightarrow> ThreadFunctionVariant \<Rightarrow> ThreadStackInfo \<Rightarrow> int \<Rightarrow>
      ('a ZephyrThread_scheme, zephyr_call) os_op" where
  "zephyr_os_create0 api threadFunction info priority th =
     (case threadFunction of
        ThreadFunction3 threadFun \<Rightarrow>
          zephyr_create_with api threadFun info priority 0 0 0
            (th\<lparr>zt_p1 := 0, zt_p2 := 0, zt_p3 := 0\<rparr>)
      | _ \<Rightarrow> (of_error ThreadError_name ThreadError_InvalidParameter
                ''Invalid thread function type for Zephyr'' ''os_create'', th, []))"

definition zephyr_os_destroy ::
    "zephyr_thread_api \<Rightarrow> 'a ZephyrThread_scheme \<Rightarrow>
      (thread_result \<times> 'a ZephyrThread_scheme \<times> zephyr_call list) option" where
  "zephyr_os_destroy api th =
     do {
       err \<leftarrow> zt_join api (zt_thread_id th);
       let calls = [KThreadJoin (zt_thread_id th) err];
       Some (case err of
         None \<Rightarrow> (of_value (), set_active False th, calls)
       | Some e \<Rightarrow> (of_error ThreadError_name (zephyr_errno_to_thread_error e) ''k_thread_join failed''
                      ''os_destroy'', th, calls))
     }"

fun k_starts :: "zephyr_call \<Rightarrow> bool" where
  "k_starts (KThreadCreate f a b c tid) = (tid \<noteq> None)"
| "k_starts _ = False"

fun k_joins :: "zephyr_call \<Rightarrow> bool" where
  "k_joins (KThreadJoin tid r) = (r = os_ok)"
| "k_joins _ = False"

definition k_started :: "zephyr_call list \<Rightarrow> nat" where
  "k_started cs = length (filter k_starts cs)"

definition k_joined :: "zephyr_call list \<Rightarrow> nat" where
  "k_joined cs = length (filter k_joins cs)"

lemmas k_counts = k_started_def k_joined_def

type_synonym zephyr_env =
  "zephyr_thread_api \<times> ThreadFunctionVariant \<times> ThreadStackInfo \<times> int \<times> ThreadParamVariant"

definition zephyr_create_env :: "zephyr_env \<Rightarrow> ('a ZephyrThread_scheme, zephyr_call) os_op" where
  "zephyr_create_env = (\<lambda>(api, f, info, prio, params). zephyr_os_create api f info prio params)"

definition zephyr_destroy_env ::
    "zephyr_env \<Rightarrow> 'a ZephyrThread_scheme \<Rightarrow>
      (thread_result \<times> 'a ZephyrThread_scheme \<times> zephyr_call list) option" where
  "zephyr_destroy_env = (\<lambda>(api, f, info, prio, params). zephyr_os_destroy api)"

interpretation zt: thread_platform zephyr_create_env zephyr_destroy_env k_started k_joined
proof (unfold_locales, goal_cases)
  case (5 env th r th' cs)
  then show ?case
    by (cases env)
      (auto simp: zephyr_create_env_def zephyr_os_create_def zephyr_create_with_def k_counts
        of_value_def of_error_def set_active_def Let_def
        split: ThreadFunctionVariant.splits ThreadParamVariant.splits if_splits)
next
  case (6 env th r th' cs)
  then show ?case
    by (cases env)
      (auto simp: zephyr_destroy_env_def zephyr_os_destroy_def k_counts of_value_def of_error_def
        Let_def split: bind_splits option.splits)
qed (simp_all add: k_counts)

text \<open>
  The Zephyr backend keeps the same balance of threads, over any sequence of \<open>create\<close> and
  \<open>destroy\<close> calls that all return; and an entry function of another platform's signature is refused
  before the kernel is called.
\<close>

theorem zephyr_thread_life:
  assumes "\<not> is_active th"
    and "thread_life zephyr_create_env zephyr_destroy_env ops th = Some (th', calls)"
  shows "k_started calls = k_joined calls + (if is_active th' then 1 else 0) \<and>
    (\<forall>api info prio params. \<not> has_value (fst (fst (zephyr_os_create api (ThreadFunction1 f) info prio params th)))
       \<and> snd (snd (zephyr_os_create api (ThreadFunction1 f) info prio params th)) = [])"
  using zt.life_balance [OF assms(2)] assms(1)
  by (simp add: is_active_def zephyr_os_create_def of_error_def)

definition example_zephyr :: zephyr_env where
  "example_zephyr = (\<lparr>zt_create = (\<lambda>info f a b c prio. Some 7), zt_join = (\<lambda>tid. Some os_ok)\<rparr>,
     ThreadFunction3 ''run'', \<lparr>stack_size = 2048, stack_pointer = 0x20000000\<rparr>, 5, ThreadParam3 1 2 3)"

definition example_zephyr_thread :: ZephyrThread where
  "example_zephyr_thread = \<lparr>thread_active = False, thread_name = thread_name_runtime ''worker'',
     stack_info = \<lparr>stack_size = 0, stack_pointer = 0\<rparr>, thread_priority = 0, zt_p1 = 0, zt_p2 = 0,
     zt_p3 = 0, zt_thread_id = None\<rparr>"

theorem zephyr_thread_life_witness:
  "\<exists>th' calls. thread_life zephyr_create_env zephyr_destroy_env
      [ThreadCreate example_zephyr \<lparr>stack_size = 2048, stack_pointer = 0x20000000\<rparr> 5]
      example_zephyr_thread = Some (th', calls) \<and> k_started calls = 1 \<and> k_joined calls = 0 \<and> is_active th'"
proof -
  let ?r = "thread_life zephyr_create_env zephyr_destroy_env
    [ThreadCreate example_zephyr \<lparr>stack_size = 2048, stack_pointer = 0x20000000\<rparr> 5] example_zephyr_thread"
  have e: "map_option (\<lambda>(th, cs). (thread_active th, k_started cs)) ?r = Some (True, 1)"
    by code_simp
  then obtain th' calls where r: "?r = Some (th', calls)" by auto
  have "\<not> is_active example_zephyr_thread" by (simp add: is_active_def example_zephyr_thread_def)
  from zephyr_thread_life [OF this r] e r show ?thesis by (auto simp: is_active_def)
qed

end
