(* ===== verification/Watchdog.thy ===== *)
theory Watchdog
  imports Thread_Core
begin

text \<open>
  The hardware watchdog (src/boards/common/iwatchdog, src/boards/zephyr/watchdog). The channel is
  a static variable of the driver; Zephyr's watchdog API is a parameter. \<open>wdt_install_timeout\<close>
  returns a channel or a negative error.
\<close>

record wdt_api =
  wdt_ready :: bool
  wdt_install1 :: "errno + int"
  wdt_install2 :: "errno + int"
  wdt_setup :: os_result

datatype wdt_call =
    WdtInstall u32 "errno + int"
  | WdtSetup os_result
  | WdtFeed "errno + int" os_result

type_synonym wdt_result = "(unit, WatchdogError) error_handler logged"

text \<open>The channel variable starts at -1.\<close>

definition initial_channel :: "errno + int" where
  "initial_channel = Inl EPERM"

definition errno_to_watchdog_error :: "errno \<Rightarrow> WatchdogError" where
  "errno_to_watchdog_error err =
     (case err of
        ENOTSUP \<Rightarrow> WatchdogError_NotSupported
      | EINVAL \<Rightarrow> WatchdogError_InvalidParameter
      | ENODEV \<Rightarrow> WatchdogError_DeviceNotFound
      | EBUSY \<Rightarrow> WatchdogError_AlreadyInitialized
      | _ \<Rightarrow> WatchdogError_HardwareError)"

text \<open>The result, the channel afterwards and the calls.\<close>

definition watchdog_init_impl ::
    "wdt_api \<Rightarrow> u32 \<Rightarrow> errno + int \<Rightarrow> wdt_result \<times> (errno + int) \<times> wdt_call list" where
  "watchdog_init_impl api timeout channel =
     (if \<not> wdt_ready api then
        (of_error WatchdogError_name WatchdogError_DeviceNotReady ''Watchdog device not ready''
           ''init_impl'', channel, [])
      else
        let channel1 = wdt_install1 api;
            calls1 = [WdtInstall timeout channel1];
            (channel2, calls2) =
              (if channel1 = Inl ENOTSUP
               then (wdt_install2 api, calls1 @ [WdtInstall timeout (wdt_install2 api)])
               else (channel1, calls1))
        in case channel2 of
             Inl e \<Rightarrow>
               (of_error WatchdogError_name WatchdogError_ConfigurationError
                  ''Failed to install watchdog timeout'' ''init_impl'', channel2, calls2)
           | Inr c \<Rightarrow>
               (case wdt_setup api of
                  Some e \<Rightarrow>
                    (of_error WatchdogError_name (errno_to_watchdog_error e) ''Failed to setup watchdog''
                       ''init_impl'', channel2, calls2 @ [WdtSetup (wdt_setup api)])
                | None \<Rightarrow> (of_value (), channel2, calls2 @ [WdtSetup (wdt_setup api)])))"

definition watchdog_init ::
    "wdt_api \<Rightarrow> u32 \<Rightarrow> errno + int \<Rightarrow> wdt_result \<times> (errno + int) \<times> wdt_call list" where
  "watchdog_init api timeout channel = watchdog_init_impl api timeout channel"

text \<open>The code ignores what \<open>wdt_feed\<close> answers.\<close>

definition watchdog_feed :: "os_result \<Rightarrow> errno + int \<Rightarrow> wdt_call list" where
  "watchdog_feed answer channel = [WdtFeed channel answer]"

text \<open>After a successful initialisation there is a channel, and it was the system's last answer.\<close>

lemma watchdog_init_success:
  assumes "watchdog_init api timeout channel = (r, channel', cs)" "has_value (fst r)"
  shows "(\<exists>c. channel' = Inr c) \<and> WdtInstall timeout channel' \<in> set cs \<and> WdtSetup os_ok \<in> set cs"
  using assms
  by (auto simp: watchdog_init_def watchdog_init_impl_def of_error_def of_value_def Let_def
      split: if_splits sum.splits option.splits) metis+

end
