(* ===== verification/Sleep.thy ===== *)
theory Sleep
  imports Prelude
begin

text \<open>
  Sleeping (src/platform/common/isleep, src/platform/*/sleep). The interface takes 32-bit
  milliseconds; the argument of the call of the operating system is what the platforms differ in.
\<close>

datatype sleep_call =
    SleepFor int  \<comment> \<open>std::this_thread::sleep_for, milliseconds\<close>
  | KMsleep int  \<comment> \<open>k_msleep, a signed 32-bit argument\<close>

definition sleep_ms :: "(u32 \<Rightarrow> sleep_call list) \<Rightarrow> u32 \<Rightarrow> sleep_call list" where
  "sleep_ms do_sleep_ms ms_sleep = do_sleep_ms ms_sleep"

definition posix_do_sleep_ms :: "u32 \<Rightarrow> sleep_call list" where
  "posix_do_sleep_ms ms_sleep = [SleepFor (uint ms_sleep)]"

text \<open>\<open>static_cast<std::int32_t>\<close> reads the word as a two's complement number.\<close>

definition zephyr_do_sleep_ms :: "u32 \<Rightarrow> sleep_call list" where
  "zephyr_do_sleep_ms ms_sleep = [KMsleep (sint ms_sleep)]"

lemma sint_u32: "sint (x :: u32) = (if uint x < 2 ^ 31 then uint x else uint x - 2 ^ 32)"
proof -
  have "0 \<le> uint x" "uint x < 2 ^ 32" using uint_lt2p [of x] by simp_all
  then have b: "0 \<le> uint x" "uint x < 4294967296" by simp_all
  then have "uint x div 2147483648 = (if uint x < 2147483648 then 0 else 1)" by (auto simp: int_div_pos_eq)
  then show ?thesis
    using b by (simp add: sint_uint signed_take_bit_eq_take_bit_minus bit_iff_odd take_bit_int_eq_self)
qed

text \<open>
  POSIX sleeps for the milliseconds it is given. Zephyr does so below 2^31; from there on, after
  about 25 days, the kernel is given a negative time.
\<close>

lemma zephyr_sleep_argument:
  "sleep_ms zephyr_do_sleep_ms ms =
     [KMsleep (if uint ms < 2 ^ 31 then uint ms else uint ms - 2 ^ 32)]"
  by (simp add: sleep_ms_def zephyr_do_sleep_ms_def sint_u32)

lemma zephyr_sleep_negative:
  "(\<exists>t < 0. KMsleep t \<in> set (sleep_ms zephyr_do_sleep_ms ms)) \<longleftrightarrow> ms \<ge> 0x80000000"
  using uint_lt2p [of ms] by (auto simp: zephyr_sleep_argument word_le_def)

end
