(* ===== verification/App_Main.thy ===== *)
theory App_Main
  imports App_Entry Thread_Zephyr Watchdog Sleep
begin

text \<open>
  The main functions (src/platform/posix_core/posix_main.cpp, src/platform/zephyr_core/
  zephyr_main.cpp), which start the thread that runs the application. The entry function
  \<open>main_thread\<close> is a name here; what it runs is App_Entry. plog and the build information are
  parameters.
\<close>

subsection \<open>POSIX\<close>

definition posix_main_thread :: PosixThread where
  "posix_main_thread =
     \<lparr>thread_active = False, thread_name = thread_name_runtime ''MainApp'',
      stack_info = \<lparr>stack_size = 0, stack_pointer = 0\<rparr>, thread_priority = 0, pt_param = 0\<rparr>"

definition posix_main_stack :: ThreadStackInfo where
  "posix_main_stack = \<lparr>stack_size = 4096, stack_pointer = 0\<rparr>"

text \<open>The exit code with the log, the error output and the calls; \<open>None\<close>: main never returns.\<close>

definition posix_main ::
    "pthread_api \<Rightarrow> string \<Rightarrow> string \<Rightarrow>
      (int \<times> log_call list \<times> (string \<times> int) list \<times> pthread_call list) option" where
  "posix_main api build_time git_commit =
     (let log = [LOGGER_NOTICE ''Build Time: %s'' [ArgStr build_time],
                 LOGGER_NOTICE ''Git hash: %s'' [ArgStr git_commit]];
          (th_result, th, calls) =
            thread_create (posix_os_create0 api (ThreadFunction1 ''main_thread'') posix_main_stack 1)
              posix_main_stack 1 posix_main_thread
      in case fst th_result of
           Unexpected e \<Rightarrow>
             Some (-1, log @ snd th_result,
               [(''Failed to create main thread, error: '', ThreadError_int e)], calls)
         | Value u \<Rightarrow>
             do {
               (r, th, jcalls) \<leftarrow> thread_destroy (posix_os_destroy api) th;
               Some (0, log @ snd th_result @ snd r, [], calls @ jcalls)
             })"

subsection \<open>Zephyr\<close>

definition zephyr_main_thread :: ZephyrThread where
  "zephyr_main_thread =
     \<lparr>thread_active = False, thread_name = thread_name_runtime ''MainApp'',
      stack_info = \<lparr>stack_size = 0, stack_pointer = 0\<rparr>, thread_priority = 0,
      zt_p1 = 0, zt_p2 = 0, zt_p3 = 0, zt_thread_id = None\<rparr>"

record zephyr_system =
  zy_wdt :: wdt_api
  zy_bt_enable :: int
  zy_threads :: zephyr_thread_api
  zy_stack :: ThreadStackInfo

datatype main_call =
    MainWdt wdt_call | MainBtEnable int | MainThread zephyr_call | MainSleep sleep_call

text \<open>
  \<open>main\<close> up to its loop: \<open>Inl\<close> the exit code, or \<open>Inr\<close> the watchdog channel with which the loop
  runs.
\<close>

definition zephyr_main_start ::
    "zephyr_system \<Rightarrow> string \<Rightarrow> string \<Rightarrow> string \<Rightarrow>
      (int + (errno + int)) \<times> log_call list \<times> main_call list" where
  "zephyr_main_start sys build_time git_commit version =
     (let (watchdog_result, channel, wcalls) = watchdog_init (zy_wdt sys) 10000 initial_channel;
          calls1 = map MainWdt wcalls
      in if \<not> has_value (fst watchdog_result) then
           (Inl (-1), snd watchdog_result @ [LOGGER_CRITICAL ''Failed to initialize watchdog!'' []], calls1)
         else
           let log = snd watchdog_result @ [LOGGER_NOTICE ''Watchdog initialization passed.'' [],
                 LOGGER_NOTICE ''Build Time: %s'' [ArgStr build_time],
                 LOGGER_NOTICE ''Git hash: %s'' [ArgStr git_commit],
                 LOGGER_NOTICE ''App Version: %s'' [ArgStr version]];
               bt_err = zy_bt_enable sys;
               calls2 = calls1 @ [MainBtEnable bt_err]
           in if bt_err \<noteq> 0 then
                (Inl (-1), log @ [LOGGER_ERROR ''bt_enable failed (%d)'' [ArgInt bt_err]], calls2)
              else
                let (th_result, th, tcalls) =
                      thread_create (zephyr_os_create0 (zy_threads sys) (ThreadFunction3 ''main_thread'')
                        (zy_stack sys) 1) (zy_stack sys) 1 zephyr_main_thread;
                    calls3 = calls2 @ map MainThread tcalls
                in case fst th_result of
                     Unexpected e \<Rightarrow>
                       (Inl (-1), log @ snd th_result @
                          [LOGGER_ERROR ''Failed to create main application thread, error: %d''
                             [ArgInt (ThreadError_int e)]], calls3)
                   | Value u \<Rightarrow> (Inr channel, log @ snd th_result, calls3))"

text \<open>The first rounds of the loop, one for each answer of \<open>wdt_feed\<close>.\<close>

fun zephyr_main_loop :: "errno + int \<Rightarrow> os_result list \<Rightarrow> main_call list" where
  "zephyr_main_loop channel [] = []"
| "zephyr_main_loop channel (answer # answers) =
     map MainWdt (watchdog_feed answer channel) @ map MainSleep (sleep_ms zephyr_do_sleep_ms 1000) @
       zephyr_main_loop channel answers"

text \<open>
  Zephyr's main either returns -1 without having started the application, or it has installed
  and set up the watchdog, enabled Bluetooth and started exactly one application thread, in this
  order. Its loop then feeds the channel the system installed, with a timeout of 10000, and asks to
  sleep for 1000 milliseconds between two feeds.
\<close>

theorem zephyr_main_outcome:
  assumes "zephyr_main_start sys build_time git_commit version = (result, log, calls)"
  shows "case result of
      Inl code \<Rightarrow> code = - 1 \<and> (\<forall>f a b c tid. MainThread (KThreadCreate f a b c (Some tid)) \<notin> set calls)
    | Inr channel \<Rightarrow> \<exists>c tid wcalls. channel = Inr c \<and>
        calls = map MainWdt wcalls @ [MainBtEnable 0, MainThread (KThreadCreate ''main_thread'' 0 0 0 (Some tid))] \<and>
        WdtInstall 10000 (Inr c) \<in> set wcalls \<and> WdtSetup os_ok \<in> set wcalls \<and>
        zephyr_main_loop channel answers =
          concat (map (\<lambda>a. [MainWdt (WdtFeed (Inr c) a), MainSleep (KMsleep 1000)]) answers)"
proof -
  obtain wr channel wcs where w: "watchdog_init (zy_wdt sys) 10000 initial_channel = (wr, channel, wcs)"
    by (metis prod_cases3)
  have loop: "zephyr_main_loop ch answers =
      concat (map (\<lambda>a. [MainWdt (WdtFeed ch a), MainSleep (KMsleep 1000)]) answers)" for ch
    by (induction answers) (simp_all add: watchdog_feed_def zephyr_sleep_argument)
  have no_thread: "MainThread t \<notin> set (map MainWdt wcs)" for t by auto
  show ?thesis
  proof (cases "has_value (fst wr) \<and> zy_bt_enable sys = 0")
    case False
    then show ?thesis using assms w by (auto simp: zephyr_main_start_def Let_def split: if_splits)
  next
    case True
    obtain c where c: "channel = Inr c" "WdtInstall 10000 (Inr c) \<in> set wcs" "WdtSetup os_ok \<in> set wcs"
      using watchdog_init_success [OF w] True by auto
    show ?thesis
    proof (cases "zt_create (zy_threads sys) (zy_stack sys) ''main_thread'' 0 0 0 1")
      case None
      then show ?thesis
        using assms w True no_thread
        by (auto simp: zephyr_main_start_def thread_create_def zephyr_os_create0_def zephyr_create_with_def
            zephyr_main_thread_def of_error_def Let_def set_thread_info_def set_stack_info_def
            set_thread_priority_def)
    next
      case (Some tid)
      then have "result = Inr channel \<and>
          calls = map MainWdt wcs @ [MainBtEnable 0, MainThread (KThreadCreate ''main_thread'' 0 0 0 (Some tid))]"
        using assms w True
        by (auto simp: zephyr_main_start_def thread_create_def zephyr_os_create0_def zephyr_create_with_def
            zephyr_main_thread_def of_value_def Let_def set_thread_info_def set_stack_info_def
            set_thread_priority_def)
      then show ?thesis using c loop by auto
    qed
  qed
qed

definition example_system :: zephyr_system where
  "example_system = \<lparr>zy_wdt = \<lparr>wdt_ready = True, wdt_install1 = Inl ENOTSUP, wdt_install2 = Inr 3,
       wdt_setup = None\<rparr>, zy_bt_enable = 0,
     zy_threads = \<lparr>zt_create = (\<lambda>info f a b c p. Some 7), zt_join = (\<lambda>t. None)\<rparr>,
     zy_stack = \<lparr>stack_size = 4096, stack_pointer = 64\<rparr>\<rparr>"

theorem zephyr_main_outcome_witness:
  "\<exists>log calls. zephyr_main_start example_system ''t'' ''g'' ''v'' = (Inr (Inr 3), log, calls) \<and>
     zephyr_main_loop (Inr 3) [os_ok, Some EIO] =
       [MainWdt (WdtFeed (Inr 3) os_ok), MainSleep (KMsleep 1000),
        MainWdt (WdtFeed (Inr 3) (Some EIO)), MainSleep (KMsleep 1000)]"
proof -
  have "fst (zephyr_main_start example_system ''t'' ''g'' ''v'') = Inr (Inr 3)" by code_simp
  then obtain log calls where r: "zephyr_main_start example_system ''t'' ''g'' ''v'' = (Inr (Inr 3), log, calls)"
    by (metis fst_conv prod_cases3)
  from zephyr_main_outcome [OF r, of "[os_ok, Some EIO]"] r show ?thesis by auto
qed

text \<open>POSIX's main joins the thread it started, or reports why there is none.\<close>

lemma posix_main_outcome:
  assumes "posix_main api build_time git_commit = Some (code, log, err, calls)"
  shows "code = 0 \<and> threads_started calls = 1 \<or> code = - 1 \<and> threads_started calls = 0 \<and> err \<noteq> []"
proof -
  obtain r th cs where c: "thread_create (posix_os_create0 api (ThreadFunction1 ''main_thread'') posix_main_stack 1)
      posix_main_stack 1 posix_main_thread = (r, th, cs)"
    by (rule prod_cases3)
  have started: "threads_started cs = (if has_value (fst r) then 1 else 0)"
    using c
    by (auto simp: thread_create_def posix_os_create0_def posix_main_thread_def set_thread_info_def
        set_stack_info_def set_thread_priority_def Let_def split: prod.splits dest: posix_create_with_calls)
  show ?thesis
  proof (cases "fst r")
    case (Unexpected e)
    then show ?thesis using assms c started by (auto simp: posix_main_def Let_def)
  next
    case (Value u)
    have counts: "threads_started [] = 0" "threads_started (xs @ ys) = threads_started xs + threads_started ys"
      for xs ys by (simp_all add: thread_counts)
    have "threads_started js = 0" if d: "thread_destroy (posix_os_destroy api) th = Some (q, th', js)" for q th' js
    proof (cases "thread_active th")
      case False
      then show ?thesis using d counts by (simp add: thread_destroy_def)
    next
      case True
      then obtain e where "join_loop (pa_join api) = Some (e, js)"
        using d by (auto simp: thread_destroy_def posix_os_destroy_def split: bind_splits option.splits)
      then show ?thesis by (simp add: join_loop_calls)
    qed
    then show ?thesis
      using assms c started Value counts by (auto simp: posix_main_def Let_def split: bind_splits)
  qed
qed

end
