(* ===== verification/Printf.thy ===== *)
theory Printf
  imports Logging
begin

text \<open>
  printf of the C standard library, as far as the formats of this program use it: the conversions
  \<open>d\<close>, \<open>u\<close>, \<open>X\<close>, \<open>c\<close>, \<open>s\<close> and \<open>%%\<close>, the flag \<open>0\<close>, a width, and the length modifiers \<open>hh\<close>,
  \<open>l\<close> and \<open>z\<close>. \<open>None\<close> is undefined behaviour: an argument is missing or of the wrong kind, or the
  conversion is not one of these. \<open>long\<close> and \<open>size_t\<close> have 64 bits; every argument the program
  prints with them is below 2^32.
\<close>

subsection \<open>Numbers\<close>

definition digit :: "nat \<Rightarrow> char" where
  "digit n = ''0123456789ABCDEF'' ! n"

fun digits :: "nat \<Rightarrow> nat \<Rightarrow> string" where
  "digits b n = (if b < 2 \<or> n < b then [digit n] else digits b (n div b) @ [digit (n mod b)])"

declare digits.simps [simp del]

definition pad :: "char \<Rightarrow> nat \<Rightarrow> string \<Rightarrow> string" where
  "pad c width s = replicate (width - length s) c @ s"

text \<open>The sign counts for the width and stands before the zeros.\<close>

definition signed_text :: "bool \<Rightarrow> nat \<Rightarrow> int \<Rightarrow> string" where
  "signed_text zero width n =
     (if n < 0
      then (if zero then CHR ''-'' # pad CHR ''0'' (width - 1) (digits 10 (nat (- n)))
            else pad CHR '' '' width (CHR ''-'' # digits 10 (nat (- n))))
      else pad (if zero then CHR ''0'' else CHR '' '') width (digits 10 (nat n)))"

definition unsigned_text :: "bool \<Rightarrow> nat \<Rightarrow> string \<Rightarrow> nat \<Rightarrow> int \<Rightarrow> string" where
  "unsigned_text zero width modifier base n =
     pad (if zero then CHR ''0'' else CHR '' '') width
       (digits base (nat (n mod (if modifier = ''hh'' then 2 ^ 8 else if modifier = [] then 2 ^ 32 else 2 ^ 64))))"

subsection \<open>Formats\<close>

definition is_digit :: "char \<Rightarrow> bool" where
  "is_digit c \<longleftrightarrow> c \<in> set ''0123456789''"

fun read_width :: "nat \<Rightarrow> string \<Rightarrow> nat \<times> string" where
  "read_width w [] = (w, [])"
| "read_width w (c # cs) = (if is_digit c then read_width (10 * w + (of_char c - 48)) cs else (w, c # cs))"

definition is_modifier :: "char \<Rightarrow> bool" where
  "is_modifier c \<longleftrightarrow> c \<in> set ''hlz''"

text \<open>What follows a percent sign: flag, width, modifier, conversion and the rest of the format.\<close>

definition read_spec :: "string \<Rightarrow> (bool \<times> nat \<times> string \<times> char \<times> string) option" where
  "read_spec cs =
     (let zero = (cs \<noteq> [] \<and> hd cs = CHR ''0'');
          (width, cs) = read_width 0 cs;
          modifier = takeWhile is_modifier cs
      in case dropWhile is_modifier cs of
           [] \<Rightarrow> None
         | c # rest \<Rightarrow> Some (zero, width, modifier, c, rest))"

definition convert :: "bool \<Rightarrow> nat \<Rightarrow> string \<Rightarrow> char \<Rightarrow> log_arg \<Rightarrow> string option" where
  "convert zero width modifier c arg =
     (case arg of
        ArgStr s \<Rightarrow> if c = CHR ''s'' then Some (pad CHR '' '' width s) else None
      | ArgInt n \<Rightarrow>
          if c = CHR ''d'' then Some (signed_text zero width n)
          else if c = CHR ''u'' then Some (unsigned_text zero width modifier 10 n)
          else if c = CHR ''X'' then Some (unsigned_text zero width modifier 16 n)
          else if c = CHR ''c'' then Some (pad CHR '' '' width [char_of (nat (n mod 256))])
          else None)"

lemma read_width_length: "length (snd (read_width w cs)) \<le> length cs"
  by (induction w cs rule: read_width.induct) auto

lemma read_spec_length:
  assumes "read_spec cs = Some (zero, width, modifier, c, rest)"
  shows "length rest < length cs"
proof -
  obtain w ds where r: "read_width 0 cs = (w, ds)" by fastforce
  have "dropWhile is_modifier ds = c # rest"
    using assms r by (auto simp: read_spec_def split: list.splits)
  then have "Suc (length rest) \<le> length ds" using length_dropWhile_le [of is_modifier ds] by simp
  then show ?thesis using read_width_length [of 0 cs] r by simp
qed

function printf_text :: "string \<Rightarrow> log_arg list \<Rightarrow> string option" where
  "printf_text [] args = Some []"
| "printf_text (c # cs) args =
     (if c \<noteq> CHR ''%'' then map_option (\<lambda>t. c # t) (printf_text cs args)
      else case read_spec cs of
        None \<Rightarrow> None
      | Some (zero, width, modifier, conv, rest) \<Rightarrow>
          if conv = CHR ''%'' then map_option (\<lambda>t. CHR ''%'' # t) (printf_text rest args)
          else case args of
            [] \<Rightarrow> None
          | a # args' \<Rightarrow>
              do {
                s \<leftarrow> convert zero width modifier conv a;
                t \<leftarrow> printf_text rest args';
                Some (s @ t)
              })"
  by pat_completeness auto
termination
  by (relation "measure (\<lambda>(fmt, args). length fmt)") (auto dest: read_spec_length)

text \<open>What the log macros hand to \<open>snprintf\<close>: without arguments the format is printed verbatim.\<close>

definition log_text :: "log_call \<Rightarrow> string option" where
  "log_text l = (case l of LogCall sev fmt args \<Rightarrow> if args = [] then Some fmt else printf_text fmt args)"

definition format_text :: "string \<Rightarrow> log_arg list \<Rightarrow> string" where
  "format_text fmt args = (case printf_text fmt args of Some t \<Rightarrow> t | None \<Rightarrow> [])"

subsection \<open>Bytes in hexadecimal\<close>

definition hex2 :: "u8 \<Rightarrow> string" where
  "hex2 b = [digit (unat b div 16), digit (unat b mod 16)]"

lemma digit_inject: "m < 16 \<Longrightarrow> n < 16 \<Longrightarrow> digit m = digit n \<longleftrightarrow> m = n"
  unfolding digit_def by (subst nth_eq_iff_index_eq) auto

lemma hex2_inject [simp]: "hex2 a = hex2 b \<longleftrightarrow> a = b"
proof -
  have "unat a < 256" "unat b < 256" using unsigned_less [of a] unsigned_less [of b] by simp_all
  then have "unat a div 16 < 16" "unat b div 16 < 16" by simp_all
  then have "hex2 a = hex2 b \<longleftrightarrow> unat a div 16 = unat b div 16 \<and> unat a mod 16 = unat b mod 16"
    by (simp add: hex2_def digit_inject)
  also have "\<dots> \<longleftrightarrow> unat a = unat b" by (metis div_mult_mod_eq)
  finally show ?thesis by (simp add: word_unat_eq_iff)
qed

lemma length_hex2 [simp]: "length (hex2 b) = 2"
  by (simp add: hex2_def)

lemma digits_hex:
  assumes "n < 256"
  shows "pad CHR ''0'' 2 (digits 16 n) = [digit (n div 16), digit (n mod 16)]"
proof (cases "n < 16")
  case True
  then show ?thesis by (simp add: digits.simps [of 16 n] pad_def digit_def numeral_2_eq_2)
next
  case False
  then have "n div 16 < 16" using assms by simp
  then show ?thesis
    using False by (simp add: digits.simps [of 16 n] digits.simps [of 16 "n div 16"] pad_def)
qed

lemma convert_hex2 [simp]:
  "convert True 2 [] CHR ''X'' (ArgInt (uint (b :: u8))) = Some (hex2 b)"
  "convert True 2 ''hh'' CHR ''X'' (ArgInt (uint (b :: u8))) = Some (hex2 b)"
proof -
  have u: "uint b < 256" "unat b < 256" using uint_lt2p [of b] unsigned_less [of b] by simp_all
  have "uint b mod 2 ^ 32 = uint b" "uint b mod 2 ^ 8 = uint b" using u by simp_all
  then show "convert True 2 [] CHR ''X'' (ArgInt (uint b)) = Some (hex2 b)"
    "convert True 2 ''hh'' CHR ''X'' (ArgInt (uint b)) = Some (hex2 b)"
    using digits_hex [OF u(2)] by (simp_all add: convert_def unsigned_text_def hex2_def nat_uint_eq)
qed

lemma convert_string [simp]: "convert False 0 [] CHR ''s'' (ArgStr s) = Some s"
  by (simp add: convert_def pad_def)

subsection \<open>Formats of this program\<close>

text \<open>What the specifications in the formats are read as.\<close>

lemma read_specs [simp]:
  "read_spec (CHR ''0'' # CHR ''2'' # CHR ''X'' # cs) = Some (True, 2, [], CHR ''X'', cs)"
  "read_spec (CHR ''0'' # CHR ''2'' # CHR ''h'' # CHR ''h'' # CHR ''X'' # cs) = Some (True, 2, ''hh'', CHR ''X'', cs)"
  "read_spec (CHR ''0'' # CHR ''2'' # CHR ''d'' # cs) = Some (True, 2, [], CHR ''d'', cs)"
  "read_spec (CHR ''d'' # cs) = Some (False, 0, [], CHR ''d'', cs)"
  "read_spec (CHR ''u'' # cs) = Some (False, 0, [], CHR ''u'', cs)"
  "read_spec (CHR ''c'' # cs) = Some (False, 0, [], CHR ''c'', cs)"
  "read_spec (CHR ''s'' # cs) = Some (False, 0, [], CHR ''s'', cs)"
  "read_spec (CHR ''%'' # cs) = Some (False, 0, [], CHR ''%'', cs)"
  "read_spec (CHR ''z'' # CHR ''u'' # cs) = Some (False, 0, ''z'', CHR ''u'', cs)"
  "read_spec (CHR ''l'' # CHR ''u'' # cs) = Some (False, 0, ''l'', CHR ''u'', cs)"
  by (simp_all add: read_spec_def is_digit_def is_modifier_def of_char_def)

lemma printf_plain: "CHR ''%'' \<notin> set s \<Longrightarrow> printf_text (s @ cs) args = map_option (\<lambda>t. s @ t) (printf_text cs args)"
  by (induction s) (auto simp: option.map_comp o_def option.map_ident cong: option.map_cong)

end
