(* ===== verification/App_Text.thy ===== *)
theory App_Text
  imports Printf App_Entry Crypto_Posix Crypto_Zephyr
begin

text \<open>
  The text of the application's log: what the callbacks of src/application/AppEntry.cpp and the
  driver print, after formatting (Printf) and the buffer of \<open>LogDispatch\<close> (Logging).
\<close>

subsection \<open>Presses\<close>

fun addr_text :: "u8 list \<Rightarrow> string" where
  "addr_text [] = []"
| "addr_text [b] = hex2 b"
| "addr_text (b # bs) = hex2 b @ '':'' @ addr_text bs"

definition button_text :: "u8 list \<Rightarrow> ButtonAction \<Rightarrow> u8 \<Rightarrow> string" where
  "button_text addr action changed =
     ''EnOcean button '' @ (if action = Press then ''PRESS'' else ''RELEASE'') @
     '' | addr '' @ addr_text (rev addr) @ '' | buttons 0x'' @ hex2 changed"

lemma list6:
  assumes "length xs = 6" obtains a b c d e f where "xs = [a, b, c, d, e, f]"
  using assms by (auto simp: eval_nat_numeral length_Suc_conv)

text \<open>A line that is formatted and fits the buffer is handed to plog whole.\<close>

definition prints :: "log_call \<Rightarrow> string \<Rightarrow> bool" where
  "prints l t \<longleftrightarrow> log_text l = Some t \<and> length t < k_log_buf_size"

lemma dispatch_prints:
  "prints (LogCall sev fmt args) t \<Longrightarrow> sev \<le> level \<Longrightarrow>
     dispatch_log format_text (Some level) (LogCall sev fmt args) = Some (sev, t)"
  by (auto simp: prints_def dispatch_log_def log_text_def format_text_def snprintf_trunc_def split: if_splits)

lemma dispatch_notice:
  "prints (LOGGER_NOTICE fmt args) t \<Longrightarrow>
     dispatch_log format_text (Some sev_info) (LOGGER_NOTICE fmt args) = Some (sev_info, t)"
  unfolding LOGGER_NOTICE_def by (erule dispatch_prints) simp

lemma button_prints:
  assumes "length (dev_addr d) = 6"
  obtains fmt args where "on_button d action changed = Some [LOGGER_NOTICE fmt args]"
    "prints (LOGGER_NOTICE fmt args) (button_text (dev_addr d) action changed)"
proof -
  have "prints (LOGGER_NOTICE (''EnOcean button %s | addr %02X:%02X:%02X:%02X:%02X:%02X'' @ '' | buttons 0x%02X'')
      (ArgStr (if action = Press then ''PRESS'' else ''RELEASE'') #
       map (\<lambda>a. ArgInt (uint a)) (rev (dev_addr d)) @ [ArgInt (uint changed)]))
    (button_text (dev_addr d) action changed)"
    using assms
    by (rule list6) (simp add: prints_def log_text_def button_text_def LOGGER_NOTICE_def k_log_buf_size_def)
  moreover have "length (dev_addr d) = k_addr_len" using assms by (simp add: size_constants)
  ultimately show thesis using that by (simp add: on_button_def addr_args_eq)
qed

lemma hex2_append: "hex2 a @ us = hex2 b @ vs \<longleftrightarrow> a = b \<and> us = vs"
  by (simp add: append_eq_append_conv)

lemma addr_text_inject:
  "length xs = 6 \<Longrightarrow> length ys = 6 \<Longrightarrow> addr_text xs @ us = addr_text ys @ vs \<longleftrightarrow> xs = ys \<and> us = vs"
  by (elim list6) (simp add: hex2_append conj_ac)

text \<open>
  C21: What the application prints of a press or release is its action, the address from the last
  byte to the first and the buttons in hexadecimal, whole; two reports are printed as the same text
  exactly when action, address and buttons are the same, so that the log identifies them. (The
  README shows the line of a PTM215B with \<open>addr DA:03:...\<close>; the code prints \<open>addr 03:DA:...\<close>, as
  the witness shows.)
\<close>

theorem button_text_identifies:
  assumes "length (dev_addr d) = 6" and "length (dev_addr d') = 6"
  shows "\<exists>l l'. on_button d action changed = Some [l] \<and> on_button d' action' changed' = Some [l'] \<and>
    dispatch_log format_text (Some sev_info) l =
      Some (sev_info, ''EnOcean button '' @ (if action = Press then ''PRESS'' else ''RELEASE'') @
        '' | addr '' @ addr_text (rev (dev_addr d)) @ '' | buttons 0x'' @ hex2 changed) \<and>
    (dispatch_log format_text (Some sev_info) l = dispatch_log format_text (Some sev_info) l') =
      (dev_addr d = dev_addr d' \<and> action = action' \<and> changed = changed')"
proof -
  obtain fmt args where l: "on_button d action changed = Some [LOGGER_NOTICE fmt args]"
    "prints (LOGGER_NOTICE fmt args) (button_text (dev_addr d) action changed)"
    using button_prints [OF assms(1)] .
  obtain fmt' args' where l': "on_button d' action' changed' = Some [LOGGER_NOTICE fmt' args']"
    "prints (LOGGER_NOTICE fmt' args') (button_text (dev_addr d') action' changed')"
    using button_prints [OF assms(2)] .
  have "button_text (dev_addr d) action changed = button_text (dev_addr d') action' changed' \<longleftrightarrow>
      dev_addr d = dev_addr d' \<and> action = action' \<and> changed = changed'"
    using assms addr_text_inject [of "rev (dev_addr d)" "rev (dev_addr d')"]
    by (cases action; cases action') (auto simp: button_text_def)
  then show ?thesis
    using l l' dispatch_notice by (simp add: button_text_def [of "dev_addr d" action])
qed

theorem button_text_identifies_witness:
  "\<exists>l. on_button example_switch Press 1 = Some [l] \<and>
     dispatch_log format_text (Some sev_info) l =
       Some (sev_info, ''EnOcean button PRESS | addr 03:DA:04:03:02:01 | buttons 0x01'')"
proof -
  have a: "length (dev_addr example_switch) = 6" by code_simp
  have t: "''EnOcean button '' @ (if Press = Press then ''PRESS'' else ''RELEASE'') @ '' | addr '' @
      addr_text (rev (dev_addr example_switch)) @ '' | buttons 0x'' @ hex2 1 =
      ''EnOcean button PRESS | addr 03:DA:04:03:02:01 | buttons 0x01''"
    by code_simp
  from button_text_identifies [OF a a, of Press 1 Press 1] show ?thesis unfolding t by blast
qed

subsection \<open>Temperatures\<close>

text \<open>Decimal digits read back.\<close>

definition read_dec :: "string \<Rightarrow> nat" where
  "read_dec s = foldl (\<lambda>n c. 10 * n + (of_char c - 48)) 0 s"

lemma read_dec_snoc [simp]: "read_dec (s @ [c]) = 10 * read_dec s + (of_char c - 48)"
  by (simp add: read_dec_def)

lemma digit_value: "n < 10 \<Longrightarrow> of_char (digit n) - (48 :: nat) = n \<and> is_digit (digit n)"
proof -
  have "\<forall>n \<in> set [0..<10]. of_char (digit n) - (48 :: nat) = n \<and> is_digit (digit n)" by code_simp
  then show "n < 10 \<Longrightarrow> of_char (digit n) - (48 :: nat) = n \<and> is_digit (digit n)" by simp
qed

lemma read_digits: "read_dec (digits 10 n) = n \<and> (\<forall>c \<in> set (digits 10 n). is_digit c)"
proof (induction n rule: less_induct)
  case (less n)
  show ?case
  proof (cases "n < 10")
    case True
    then show ?thesis
      using digit_value [of n] by (simp add: digits.simps [of 10 n] read_dec_def)
  next
    case False
    then have "n div 10 < n" by simp
    then show ?thesis
      using less.IH [of "n div 10"] digit_value [of "n mod 10"] False
      by (simp add: digits.simps [of 10 n])
  qed
qed

lemma two_digits:
  assumes "n < 100"
  shows "pad CHR ''0'' 2 (digits 10 n) = [digit (n div 10), digit (n mod 10)]"
proof (cases "n < 10")
  case True
  then show ?thesis by (simp add: digits.simps [of 10 n] pad_def digit_def numeral_2_eq_2)
next
  case False
  then have "n div 10 < 10" using assms by simp
  then show ?thesis
    using False by (simp add: digits.simps [of 10 n] digits.simps [of 10 "n div 10"] pad_def)
qed

lemma length_digits: "n < 10 ^ Suc k \<Longrightarrow> length (digits 10 n) \<le> Suc k"
proof (induction k arbitrary: n)
  case 0
  then show ?case by (simp add: digits.simps [of 10 n])
next
  case (Suc k)
  have "n div 10 < 10 ^ Suc k" using Suc.prems by (simp add: less_mult_imp_div_less mult.commute)
  from Suc.IH [OF this] show ?case by (simp add: digits.simps [of 10 n])
qed

definition temperature_label :: string where
  "temperature_label = ''  Temp ('' @ [CHR 0xC2, CHR 0xB0] @ ''C)    : ''"

lemma temperature_log_text:
  "log_text (LOGGER_NOTICE temperature_format [ArgInt c, ArgInt w, ArgInt h]) =
     Some (temperature_label @ [char_of (nat (c mod 256))] @ signed_text False 0 w @ ''.'' @ signed_text True 2 h)"
  by (simp add: log_text_def LOGGER_NOTICE_def temperature_format_def temperature_label_def convert_def pad_def)

lemma temperature_prints_min:
  assumes "sint t = - 32768"
  shows "prints (LOGGER_NOTICE temperature_format (temperature_args t)) (temperature_label @ ''--327.-68'')"
proof -
  have "char_of (nat (45 mod 256)) = CHR ''-''"
    "signed_text False 0 (- 327) = ''-327''" "signed_text True 2 (- 68) = ''-68''"
    by code_simp+
  then show ?thesis
    by (simp add: prints_def temperature_args_min [OF assms] temperature_log_text temperature_label_def
        k_log_buf_size_def)
qed

lemma temperature_parts:
  obtains w h where "\<bar>sint (t :: i16)\<bar> div 100 = int w" "\<bar>sint t\<bar> mod 100 = int h" "w < 10 ^ Suc 2" "h < 100"
    "sint t = (if sint t < 0 then - 1 else 1) * int (100 * w + h)"
proof -
  define w where "w = nat (\<bar>sint t\<bar> div 100)"
  define h where "h = nat (\<bar>sint t\<bar> mod 100)"
  have b: "- 32768 \<le> sint t" "sint t < 32768" using sint_ge [of t] sint_lt [of t] by simp_all
  have wh: "\<bar>sint t\<bar> div 100 = int w" "\<bar>sint t\<bar> mod 100 = int h" "h < 100"
    by (simp_all add: w_def h_def pos_imp_zdiv_nonneg_iff nat_less_iff)
  have w: "w < 10 ^ Suc 2" using b by (simp add: w_def nat_less_iff div_less_iff_less_mult abs_less_iff)
  have "\<bar>sint t\<bar> = 100 * (\<bar>sint t\<bar> div 100) + \<bar>sint t\<bar> mod 100" by simp
  then have "\<bar>sint t\<bar> = int (100 * w + h)" unfolding wh by simp
  then have "sint t = (if sint t < 0 then - 1 else 1) * int (100 * w + h)"
    by (auto simp: abs_if split: if_splits)
  then show thesis using that wh w by blast
qed

lemma temperature_prints:
  assumes "sint t \<noteq> - 32768" and "\<bar>sint t\<bar> div 100 = int w" "\<bar>sint t\<bar> mod 100 = int h"
    and "w < 10 ^ Suc 2" "h < 100"
  shows "prints (LOGGER_NOTICE temperature_format (temperature_args t))
    (temperature_label @ [if sint t < 0 then CHR ''-'' else CHR ''+''] @ digits 10 w @ ''.'' @
      [digit (h div 10), digit (h mod 10)])"
proof -
  have sgn: "char_of (nat (45 mod 256)) = CHR ''-''" "char_of (nat (43 mod 256)) = CHR ''+''" by code_simp+
  have "signed_text False 0 (int w) = digits 10 w" "signed_text True 2 (int h) = [digit (h div 10), digit (h mod 10)]"
    using two_digits [OF assms(5)] by (simp_all add: signed_text_def pad_def)
  then show ?thesis
    unfolding temperature_args_abs [OF assms(1)] assms(2,3) prints_def temperature_log_text
    using length_digits [OF assms(4)] sgn by (simp add: temperature_label_def k_log_buf_size_def)
qed

text \<open>
  The text printed for a temperature in hundredths of a degree. For every value but -32768 it is
  the sign, the whole degrees, a point and exactly two digits, and read as a decimal number it
  is the value. For -32768, whose negation does not fit 16 bits, it is \<open>--327.-68\<close>.
\<close>

theorem temperature_text:
  "if sint t = - 32768
   then dispatch_log format_text (Some sev_info) (LOGGER_NOTICE temperature_format (temperature_args t)) =
     Some (sev_info, temperature_label @ ''--327.-68'')
   else \<exists>whole hundredths.
     dispatch_log format_text (Some sev_info) (LOGGER_NOTICE temperature_format (temperature_args t)) =
       Some (sev_info, temperature_label @ [if sint t < 0 then CHR ''-'' else CHR ''+''] @
         whole @ ''.'' @ hundredths) \<and>
     length hundredths = 2 \<and> list_all is_digit (whole @ hundredths) \<and>
     sint t = (if sint t < 0 then - 1 else 1) * int (100 * read_dec whole + read_dec hundredths)"
proof (cases "sint t = - 32768")
  case True
  then show ?thesis using dispatch_notice [OF temperature_prints_min [OF True]] by simp
next
  case False
  obtain w h where wh: "\<bar>sint t\<bar> div 100 = int w" "\<bar>sint t\<bar> mod 100 = int h" "w < 10 ^ Suc 2" "h < 100"
    and val: "sint t = (if sint t < 0 then - 1 else 1) * int (100 * w + h)"
    using temperature_parts .
  let ?hund = "[digit (h div 10), digit (h mod 10)]"
  have "h div 10 < 10" using wh(4) by simp
  then have hund: "read_dec ?hund = h" "list_all is_digit ?hund"
    using digit_value [of "h div 10"] digit_value [of "h mod 10"] by (simp_all add: read_dec_def)
  have "sint t = (if sint t < 0 then - 1 else 1) * int (100 * read_dec (digits 10 w) + read_dec ?hund)"
    using val by (simp only: hund(1) read_digits simp_thms)
  moreover have "length ?hund = 2" "list_all is_digit (digits 10 w @ ?hund)"
    using hund(2) read_digits [of w] by (auto simp: list_all_iff)
  ultimately show ?thesis
    unfolding if_not_P [OF False] using dispatch_notice [OF temperature_prints [OF False wh]] by blast
qed

subsection \<open>Every line\<close>

text \<open>The line is well-formed for printf and fits the buffer.\<close>

definition line_prints :: "log_call \<Rightarrow> bool" where
  "line_prints l \<longleftrightarrow> (\<exists>t. prints l t)"

lemma line_printsI: "log_text l = Some t \<Longrightarrow> length t < 256 \<Longrightarrow> line_prints l"
  by (auto simp: line_prints_def prints_def k_log_buf_size_def)

lemma length_unsigned: "width \<le> 20 \<Longrightarrow> length (unsigned_text zero width modifier 10 n) \<le> 20"
proof -
  let ?m = "nat (n mod (if modifier = ''hh'' then 2 ^ 8 else if modifier = [] then 2 ^ 32 else 2 ^ 64))"
  have "n mod 2 ^ 8 < 2 ^ 8" "n mod 2 ^ 32 < 2 ^ 32" "n mod 2 ^ 64 < 2 ^ 64" by simp_all
  then have "n mod (if modifier = ''hh'' then 2 ^ 8 else if modifier = [] then 2 ^ 32 else 2 ^ 64) < 2 ^ 64"
    by (auto intro: less_trans)
  then have "?m < 2 ^ 64" by (simp add: nat_less_iff)
  then have "?m < 10 ^ Suc 19" by simp
  then have "length (digits 10 ?m) \<le> Suc 19" by (rule length_digits)
  then show "width \<le> 20 \<Longrightarrow> length (unsigned_text zero width modifier 10 n) \<le> 20"
    by (simp add: unsigned_text_def pad_def)
qed

lemma length_signed:
  assumes "\<bar>n\<bar> < 10 ^ 5" and "width \<le> 6"
  shows "length (signed_text zero width n) \<le> 6"
proof -
  have "nat \<bar>n\<bar> < 10 ^ Suc 4" using assms(1) by (simp add: nat_less_iff)
  then have "length (digits 10 (nat \<bar>n\<bar>)) \<le> Suc 4" by (rule length_digits)
  then show ?thesis using assms(2) by (auto simp: signed_text_def pad_def abs_if split: if_splits)
qed

lemma i16_small: "\<bar>sint (x :: i16)\<bar> < 10 ^ 5"
  using sint_ge [of x] sint_lt [of x] by simp

lemma convert_u [simp]: "convert zero w m CHR ''u'' (ArgInt n) = Some (unsigned_text zero w m 10 n)"
  by (simp add: convert_def)

lemma convert_d [simp]: "convert zero w m CHR ''d'' (ArgInt n) = Some (signed_text zero w n)"
  by (simp add: convert_def)

lemmas line_simps = line_prints_def prints_def log_text_def logger_defs k_log_buf_size_def

lemma length_unsigned_less [simp]: "20 < k \<Longrightarrow> length (unsigned_text zero 0 modifier 10 n) < k"
  using length_unsigned [of 0 zero modifier n] by simp

lemma number_lines [simp]:
  "line_prints (LOGGER_NOTICE ''  Humidity (%%) : %u'' [ArgInt n])"
  "line_prints (LOGGER_NOTICE ''  Light (lx)   : %u'' [ArgInt n])"
  "line_prints (LOGGER_NOTICE ''  Solar (lx)   : %u'' [ArgInt n])"
  "line_prints (LOGGER_NOTICE ''  Energy (%%)   : %u'' [ArgInt n])"
  "line_prints (LOGGER_NOTICE ''  Battery (mV) : %u'' [ArgInt n])"
  "line_prints (LOGGER_NOTICE ''  Accel status : %u'' [ArgInt n])"
  "line_prints (LOGGER_NOTICE ''EnoceanDriver initialised (max %zu devices)'' [ArgInt n])"
  by (simp_all add: line_simps)

lemma word_lines [simp]:
  "line_prints (LOGGER_NOTICE ''  Occupancy    : %s'' [ArgStr (if b then ''yes'' else ''no'')])"
  "line_prints (LOGGER_NOTICE ''  Contact      : %s'' [ArgStr (if b then ''closed'' else ''open'')])"
  by (simp_all add: line_simps)

lemma axes_line [simp]:
  "line_prints (LOGGER_NOTICE ''  Accel (0.01g): X=%d Y=%d Z=%d''
     [ArgInt (sint (x :: i16)), ArgInt (sint (y :: i16)), ArgInt (sint (z :: i16))])"
  using length_signed [OF i16_small [of x], of 0 False] length_signed [OF i16_small [of y], of 0 False]
    length_signed [OF i16_small [of z], of 0 False]
  by (simp add: line_simps)

lemma temperature_line [simp]: "line_prints (LOGGER_NOTICE temperature_format (temperature_args t))"
proof -
  obtain c w h where a: "temperature_args t = [ArgInt c, ArgInt w, ArgInt h]" "\<bar>w\<bar> < 10 ^ 5" "\<bar>h\<bar> < 10 ^ 5"
  proof (cases "sint t = - 32768")
    case True
    then show thesis using that temperature_args_min by simp
  next
    case False
    have "\<bar>sint t\<bar> mod 100 < 100" "0 \<le> \<bar>sint t\<bar> div 100" "0 \<le> \<bar>sint t\<bar> mod 100"
      by (simp_all add: pos_imp_zdiv_nonneg_iff)
    moreover have "\<bar>sint t\<bar> div 100 < 10 ^ 5" using i16_small [of t] by linarith
    ultimately show thesis using that [OF temperature_args_abs [OF False]] i16_small [of t] by simp
  qed
  show ?thesis
    unfolding a(1) using length_signed [OF a(2), of 0 False] length_signed [OF a(3), of 2 True]
    by (intro line_printsI [OF temperature_log_text]) (simp add: temperature_label_def)
qed

lemma address_lines:
  fixes a :: "u8 list"
  assumes "length a = 6"
  shows "line_prints (LOGGER_NOTICE ''EnOcean sensor | addr %02X:%02X:%02X:%02X:%02X:%02X'' (map (\<lambda>a. ArgInt (uint a)) (rev a)))"
    "line_prints (LOGGER_NOTICE ''EnOcean device COMMISSIONED: %02X:%02X:%02X:%02X:%02X:%02X'' (map (\<lambda>a. ArgInt (uint a)) (rev a)))"
    "line_prints (LOGGER_NOTICE (''EnoceanDriver: device commissioned '' @
       ''%02hhX:%02hhX:%02hhX:%02hhX:%02hhX:%02hhX'') (map (\<lambda>a. ArgInt (uint a)) (rev a)))"
  by (rule list6 [OF assms], simp add: line_simps)+

lemma sensor_packet_line_prints:
  fixes a :: "u8 list"
  assumes "length a = 6"
  shows "line_prints (LOGGER_NOTICE (''EnoceanDriver: sensor pkt %02hhX:%02hhX:%02hhX:%02hhX:%02hhX:%02hhX '' @
      ''payload[%zu] seq=%lu'') (map (\<lambda>a. ArgInt (uint a)) (rev a) @ [ArgInt n, ArgInt m]))"
proof -
  obtain a0 a1 a2 a3 a4 a5 where a: "a = [a0, a1, a2, a3, a4, a5]" using assms by (rule list6)
  have "length (unsigned_text False 0 ''z'' 10 n) \<le> 20" "length (unsigned_text False 0 ''l'' 10 m) \<le> 20"
    by (simp_all add: length_unsigned)
  then show ?thesis unfolding a by (simp add: line_simps)
qed

lemma driver_line_prints: "driver_line l \<Longrightarrow> line_prints l"
proof -
  have "line_prints l" if "device_ok d" "sensor_packet_log d n s = Logged l" for d n s
    using that sensor_packet_line_prints [of "dev_addr d"]
    by (auto simp: sensor_packet_log_def device_ok_def size_constants)
  moreover have "line_prints (LOGGER_WARNING fmt [])" if "length fmt < 256" for fmt
    using that by (simp add: line_simps)
  ultimately show "driver_line l \<Longrightarrow> line_prints l" by (auto simp: driver_line_def)
qed

definition event_prints :: "driver_event \<Rightarrow> bool" where
  "event_prints e \<longleftrightarrow> (\<forall>ls. app_event e = Some ls \<longrightarrow> (\<forall>l \<in> set ls. line_prints l))"

lemma event_prints_Logged [simp]: "event_prints (Logged l) \<longleftrightarrow> line_prints l"
  by (simp add: event_prints_def app_event_def)

lemma event_prints_button: "device_ok d \<Longrightarrow> event_prints (CallButton f d action changed opt)"
proof -
  assume "device_ok d"
  then have "length (dev_addr d) = 6" by (simp add: device_ok_def size_constants)
  then show ?thesis
    by (rule button_prints [of d action changed]) (auto simp: event_prints_def app_event_def line_prints_def)
qed

lemma opt_line_prints:
  "l \<in> set (opt_line x f) \<Longrightarrow> (\<And>v. line_prints (f v)) \<Longrightarrow> line_prints l"
  by (auto simp: opt_line_def split: option.splits)

lemma event_prints_sensor: "device_ok d \<Longrightarrow> event_prints (CallSensor f d rep opt)"
proof -
  assume "device_ok d"
  then have len: "length (dev_addr d) = k_addr_len" by (simp add: device_ok_def)
  then have "line_prints (LOGGER_NOTICE ''EnOcean sensor | addr %02X:%02X:%02X:%02X:%02X:%02X''
      (map (\<lambda>a. ArgInt (uint a)) (rev (dev_addr d))))"
    using address_lines [of "dev_addr d"] by (simp add: size_constants)
  then show ?thesis
    using addr_args_eq [OF len]
    by (auto simp: event_prints_def app_event_def on_sensor_def split: option.splits if_splits bind_splits
        dest!: opt_line_prints)
qed

lemma event_prints_commissioned: "device_ok d \<Longrightarrow> event_prints (CallCommissioned f d)"
proof -
  assume "device_ok d"
  then have len: "length (dev_addr d) = k_addr_len" by (simp add: device_ok_def)
  then show ?thesis
    using addr_args_eq [OF len] address_lines [of "dev_addr d"]
    by (simp add: event_prints_def app_event_def on_commissioned_def size_constants)
qed

text \<open>A backend whose own lines, about a tag of a telegram, print.\<close>

definition backend_prints :: "crypto_impl \<Rightarrow> bool" where
  "backend_prints crypto \<longleftrightarrow>
     (\<forall>key nonce aad tag. length key = 16 \<longrightarrow> length nonce = 13 \<longrightarrow> length tag = 4 \<longrightarrow>
        list_all line_prints (snd (snd (crypto key nonce aad [] tag []))))"

lemma posix_backend_prints: "backend_prints (posix_backend evp)"
  by (simp add: backend_prints_def posix_log line_simps)

lemma list4:
  assumes "length xs = 4" obtains a b c d where "xs = [a, b, c, d]"
  using assms by (auto simp: eval_nat_numeral length_Suc_conv)

lemma list13:
  assumes "length xs = 13" obtains a b c d e f g h i j k l m where "xs = [a, b, c, d, e, f, g, h, i, j, k, l, m]"
  using assms by (auto simp: eval_nat_numeral length_Suc_conv)

lemma length_int_text: "\<bar>n\<bar> < 2 ^ 31 \<Longrightarrow> length (signed_text False 0 n) \<le> 11"
proof -
  assume "\<bar>n\<bar> < 2 ^ 31"
  then have "nat \<bar>n\<bar> < 10 ^ Suc 9" by (simp add: nat_less_iff)
  then have "length (digits 10 (nat \<bar>n\<bar>)) \<le> Suc 9" by (rule length_digits)
  then show ?thesis by (auto simp: signed_text_def pad_def abs_if split: if_splits)
qed

lemma ccm_failed_prints:
  assumes "length nonce = 13" "length tag = 4" "length key = 16" "\<bar>err\<bar> < 2 ^ 31"
  shows "line_prints (ccm_failed_log err key nonce aad n tag)"
proof -
  have "length (take 4 key) = 4" using assms(3) by simp
  then obtain k0 k1 k2 k3 where k: "take 4 key = [k0, k1, k2, k3]" by (rule list4)
  obtain t0 t1 t2 t3 where t: "tag = [t0, t1, t2, t3]" using assms(2) by (rule list4)
  obtain a b c d e f g h i j l m z where nn: "nonce = [a, b, c, d, e, f, g, h, i, j, l, m, z]"
    using assms(1) by (rule list13)
  have "length (signed_text False 0 err) \<le> 11" using assms(4) by (rule length_int_text)
  moreover have "length (unsigned_text False 0 ''z'' 10 x) \<le> 20" for x by (simp add: length_unsigned)
  note this [of "int n"] this [of "int (length aad)"]
  ultimately show ?thesis
    unfolding ccm_failed_log_def k t nn by (simp add: line_simps ccm_failed_format_def)
qed

text \<open>On Zephyr the library's error code is an \<open>int\<close> of 32 bits.\<close>

lemma zephyr_backend_prints:
  assumes "\<And>key nonce cipher n aad out tl. \<bar>fst (bt key nonce cipher n aad out tl)\<bar> < 2 ^ 31"
  shows "backend_prints (zephyr_backend bt)"
proof -
  have "line_prints (LOGGER_ERROR ''AesCcm: aad too large (%zu)'' [ArgInt n])" for n
    by (simp add: line_simps)
  then show ?thesis
    using assms ccm_failed_prints by (auto simp: backend_prints_def zephyr_log size_constants Let_def)
qed

lemma backend_printsD:
  "backend_prints crypto \<Longrightarrow> length key = 16 \<Longrightarrow> length nonce = 13 \<Longrightarrow> length tag = 4 \<Longrightarrow>
     l \<in> set (snd (snd (crypto key nonce aad [] tag []))) \<Longrightarrow> line_prints l"
  unfolding backend_prints_def list_all_iff by blast

lemma backend_line_prints:
  "backend_prints crypto \<Longrightarrow> device_ok d \<Longrightarrow> length tag = k_tag_len \<Longrightarrow>
     l \<in> set (backend_log crypto d s body tag) \<Longrightarrow> line_prints l"
  by (rule backend_printsD [of crypto "dev_key d" "dev_addr d @ seq_bytes s @ [0, 0, 0]" tag l "seq_bytes s @ body"])
    (auto simp: backend_log_def aes_ccm_decrypt_dispatch device_ok_def size_constants)

definition op_prints :: "driver_op \<Rightarrow> bool" where
  "op_prints op \<longleftrightarrow> (\<forall>crypto addr aty adv rssi data.
     op = OpAdvertise crypto addr aty adv rssi data \<longrightarrow> backend_prints crypto)"

lemma exec_prints:
  assumes bp: "op_prints op"
    and ok: "table_ok (drv_devices drv)" and x: "exec_op op drv = Some (drv', evs)" and e: "e \<in> set evs"
  shows "event_prints e"
proof (cases op)
  case OpInit
  then show ?thesis using x e by (auto simp: driver_init_def)
next
  case (OpAdvertise crypto addr aty adv rssi data)
  have p: "process_advertisement crypto drv addr aty adv rssi data = Some (drv', evs)" using x OpAdvertise by simp
  have b: "backend_prints crypto" using bp OpAdvertise by (simp add: op_prints_def)
  from ok p show ?thesis
  proof (cases rule: process_cases)
    case (handled p d ret d' devs)
    note bl = backend_line_prints [OF b handled(3)]
    from handled(3,6) e show ?thesis
    proof (rule handler_events)
      fix l s body tag
      assume "e = Logged l" "length tag = k_tag_len"
        "l \<in> set (backend_log crypto (d\<lparr>dev_rssi := rssi\<rparr>) s body tag)"
      then show ?thesis using bl [of tag l s body] by simp
    qed (simp_all add: driver_line_prints event_prints_button event_prints_sensor handled)
  next
    case (commissioned p s key devs)
    then have "length addr = 6" by (simp add: relevant_def size_constants)
    then show ?thesis
      using e commissioned address_lines [of addr]
      by (auto simp: commissioned_log_def call_if_def event_prints_commissioned split: option.splits)
  qed (use e in \<open>auto simp: full_log_def line_simps\<close>)
qed (use x e in \<open>auto simp: enable_commissioning_def disable_commissioning_def line_simps\<close>)

lemma app_print_lines:
  "app_print evs = Some ls \<Longrightarrow> \<forall>e \<in> set evs. event_prints e \<Longrightarrow> l \<in> set ls \<Longrightarrow> line_prints l"
  by (induction evs arbitrary: ls) (auto simp: event_prints_def split: bind_splits)

lemma run_prints:
  assumes "reachable cbs drv" and "run ops drv = Some (drv', evs)" and "e \<in> set evs"
    and "list_all op_prints ops"
  shows "event_prints e"
  using assms
proof (induction ops arbitrary: drv evs)
  case (Cons x xs)
  obtain drv1 evs1 evs2 where r: "exec_op x drv = Some (drv1, evs1)" "run xs drv1 = Some (drv', evs2)"
    "evs = evs1 @ evs2"
    using Cons.prems(2) by (auto split: bind_splits)
  show ?case
    using exec_prints [OF _ reachable_table_ok [OF Cons.prems(1)] r(1)]
      Cons.IH [OF reachable_step [OF Cons.prems(1) r(1)] r(2)] Cons.prems(3,4) r(3)
    by auto
qed simp

text \<open>
  C18: Every line of the log is printed whole. Whatever the scan thread receives, every line that
  driver, callbacks and crypto backend log has a format that fits its arguments - \<open>printf\<close> is never called with a
  missing argument or one of the wrong kind - and its text is shorter than the buffer of 256
  bytes, so that plog gets all of it. The
  hypothesis on the backend is that its own lines print: both backends satisfy it, the one of
  POSIX for every library (\<open>posix_backend_prints\<close>), the one of Zephyr for every library whose error
  code is an \<open>int\<close> of 32 bits (\<open>zephyr_backend_prints\<close>).
\<close>

theorem scan_lines_whole:
  assumes "reachable app_callbacks drv" and "app_scan crypto its drv = Some (drv', log)" and "l \<in> set log"
    and "backend_prints crypto"
  shows "\<exists>sev t. log_text l = Some t \<and> length t < 256 \<and>
    dispatch_log format_text (Some sev_verbose) l = Some (sev, t)"
proof -
  obtain reports evs where r: "deliver crypto reports drv = Some (drv', evs)" "app_print evs = Some log"
    using assms(2) by (auto simp: app_scan_def split: bind_splits)
  have "list_all op_prints (map (report_op crypto) reports)"
    using assms(4) by (simp add: list_all_iff op_prints_def report_op_def)
  then have "line_prints l"
    using app_print_lines [OF r(2) _ assms(3)] run_prints [OF assms(1) r(1) [unfolded deliver_run]] by blast
  then obtain t where t: "prints l t" by (auto simp: line_prints_def)
  obtain sev fmt args where l: "l = LogCall sev fmt args" by (cases l)
  have "sev \<le> sev_verbose" by (cases sev) (simp_all add: less_eq_severity_def)
  from dispatch_prints [OF t [unfolded l] this] t show ?thesis
    by (auto simp: l prints_def k_log_buf_size_def)
qed

theorem scan_lines_whole_witness:
  "\<exists>drv' log l t. app_scan (posix_backend rejecting_evp) [(True, Some (hci_packet \<lparr>ar_addr = [1, 2, 3, 4, 0xDA, 0x03],
      ar_addr_type = 0x01, ar_adv_type = 0x03, ar_rssi = -60,
      ar_data = adv_of (seq_bytes 42 @ [0x03] @ [9, 9, 9, 9])\<rparr>), True), (False, None, False)] app_driver
     = Some (drv', log) \<and> l \<in> set log \<and> log_text l = Some t \<and> length t < 256"
proof -
  let ?its = "[(True, Some (hci_packet \<lparr>ar_addr = [1, 2, 3, 4, 0xDA, 0x03],
      ar_addr_type = 0x01, ar_adv_type = 0x03, ar_rssi = -60,
      ar_data = adv_of (seq_bytes 42 @ [0x03] @ [9, 9, 9, 9])\<rparr>), True), (False, None, False)]"
  have "map_option (\<lambda>(d, ls). ls \<noteq> []) (app_scan (posix_backend rejecting_evp) ?its app_driver) = Some True" by code_simp
  then obtain drv' log where r: "app_scan (posix_backend rejecting_evp) ?its app_driver = Some (drv', log)" "log \<noteq> []" by auto
  have "hd log \<in> set log" using r(2) by simp
  from scan_lines_whole [OF app_driver_reachable r(1) this posix_backend_prints] r(1) this show ?thesis by blast
qed

end
