(* ===== verification/App_Session.thy ===== *)
theory App_Session
  imports App_Text
begin

text \<open>
  A session of the application on POSIX from its start to the first lines of its log: start-up
  (\<open>app_start\<close>), scan thread (\<open>scan_loop\<close>), driver, callbacks, formatting and log together.
\<close>

lemma commission_lines:
  assumes "length addr = 6"
  shows "log_text (LOGGER_NOTICE (''EnoceanDriver: device commissioned '' @
      ''%02hhX:%02hhX:%02hhX:%02hhX:%02hhX:%02hhX'') (map (\<lambda>a. ArgInt (uint a)) (rev addr))) =
      Some (''EnoceanDriver: device commissioned '' @ addr_text (rev (addr :: u8 list)))"
    and "log_text (LOGGER_NOTICE ''EnOcean device COMMISSIONED: %02X:%02X:%02X:%02X:%02X:%02X''
      (map (\<lambda>a. ArgInt (uint a)) (rev addr))) =
      Some (''EnOcean device COMMISSIONED: '' @ addr_text (rev addr))"
  by (rule list6 [OF assms], simp add: log_text_def LOGGER_NOTICE_def)+

lemma button_log_text:
  assumes "length addr = 6"
  shows "log_text (press_line addr st) =
    Some (button_text addr (if bit st 0 then Press else Release) (drop_bit 1 st AND 0x0F))"
  by (rule list6 [OF assms]) (simp add: log_text_def press_line_def button_text_def LOGGER_NOTICE_def)

lemma handle_whole_packet:
  assumes "report_ok r" and "ar_data r \<noteq> []" and "length (ar_data r) \<le> 40"
  shows "handle_packet (Some f) (take k_hci_buf_size (hci_packet r)) = Some [r]"
proof -
  have "length (hci_packet r) \<le> k_hci_buf_size"
    using assms(3) length_encode_report [OF assms(1)] by (simp add: hci_packet_def k_hci_buf_size_def k_report_hdr_def)
  then show ?thesis using handle_hci_packet [OF assms(1,2)] by simp
qed

lemma session_prints:
  assumes "length addr = 6"
  shows "\<exists>log. app_print
      ([commissioned_log addr, CallCommissioned ''on_commissioned'' (new_device addr aty rssi0 s0 key)] @
       map Logged bl @
       [CallButton ''on_button'' ((new_device addr aty rssi0 s0 key)\<lparr>dev_rssi := rssi, seq_num := s\<rparr>)
         (if bit st 0 then Press else Release) (drop_bit 1 st AND 0x0F) None]) = Some log \<and>
    map log_text log =
      [Some (''EnoceanDriver: device commissioned '' @ addr_text (rev addr)),
       Some (''EnOcean device COMMISSIONED: '' @ addr_text (rev addr))] @
      map log_text bl @
      [Some (''EnOcean button '' @ (if bit st 0 then ''PRESS'' else ''RELEASE'') @ '' | addr '' @
         addr_text (rev addr) @ '' | buttons 0x'' @ hex2 (drop_bit 1 st AND 0x0F))]"
proof (intro exI conjI)
  show "app_print
      ([commissioned_log addr, CallCommissioned ''on_commissioned'' (new_device addr aty rssi0 s0 key)] @
       map Logged bl @
       [CallButton ''on_button'' ((new_device addr aty rssi0 s0 key)\<lparr>dev_rssi := rssi, seq_num := s\<rparr>)
         (if bit st 0 then Press else Release) (drop_bit 1 st AND 0x0F) None]) =
      Some ([LOGGER_NOTICE (''EnoceanDriver: device commissioned '' @
          ''%02hhX:%02hhX:%02hhX:%02hhX:%02hhX:%02hhX'') (map (\<lambda>a. ArgInt (uint a)) (rev addr)),
        LOGGER_NOTICE ''EnOcean device COMMISSIONED: %02X:%02X:%02X:%02X:%02X:%02X''
          (map (\<lambda>a. ArgInt (uint a)) (rev addr))] @ bl @
        [press_line addr st])"
    using addr_args_eq [of addr] assms
    by (simp add: app_print_append app_print_logs app_event_def on_button_def on_commissioned_def press_line_def commissioned_log_def
        new_device_def size_constants)
qed (use commission_lines [OF assms] button_log_text [OF assms] in \<open>simp add: button_text_def\<close>)

lemma app_run_fresh:
  assumes "app_start api crypto driver_ptr early = Some (Some (drv, sc), log0, calls)" and "length addr = 6"
  shows "reachable app_callbacks drv" and "drv_initialised drv" and "commissioning_enabled drv"
    and "device_count drv = 0" and "lookup (drv_devices drv) addr = None"
proof -
  obtain sc0 log1 calls0 where "app_run (scanner_init_impl api) (scanner_start_scan_impl api) (scanner_dtor api)
      new_scanner crypto driver_ptr early = Some (Some drv, sc0, log1, calls0)"
    using assms(1) by (auto simp: app_start_def)
  note D = app_run_started [OF this]
  show "reachable app_callbacks drv" "drv_initialised drv" "commissioning_enabled drv" "device_count drv = 0"
    using D by blast+
  have ok: "table_ok (drv_devices drv)" using D reachable_table_ok by blast
  show "lookup (drv_devices drv) addr = None"
  proof (rule ccontr)
    assume "lookup (drv_devices drv) addr \<noteq> None"
    then obtain d where "lookup (drv_devices drv) addr = Some d" by auto
    then have "d \<in> set (filter active (drv_devices drv))"
      using lookup_SomeD [OF ok] assms(2) by (simp add: size_constants)
    then show False using D by (auto simp: device_count_eq filter_empty_conv)
  qed
qed

text \<open>
  C10: From the start of the program to the first press in the log. Once \<open>run_impl\<close> has started -
  whatever arrived before - let the controller deliver the commissioning telegram of a switch and
  then a telegram of it with a larger sequence number and clear reserved bits whose tag the
  backend confirms under the key just learned. Then the scan thread logs exactly:
  the driver's and the application's announcement of the device, what the backend logs about the
  tag (nothing, for both backends: \<open>posix_accepts_quietly\<close>, \<open>zephyr_accepts_quietly\<close>), and the press
  or release with the address and the buttons, in this text. The address is printed from its last
  byte to its first, so a PTM215B appears as \<open>03:DA:...\<close>; the README (step 6 of the quick start)
  shows \<open>DA:03:...\<close>, an order the code prints for no such switch.
\<close>

theorem session_first_press:
  assumes "app_start api crypto driver_ptr early = Some (Some (drv, sc), log0, calls)"
    and "length addr = 6" and "detect_device_type addr = Switch" and "length key = 16"
    and "length rest \<in> {2, 3, 4, 5, 6, 8}" and "s0 < s" and "st AND 0xE0 = 0" and "length tag = 4"
    and "fst (crypto key (addr @ seq_bytes s @ [0, 0, 0]) (seq_bytes s @ [st]) [] tag [])"
  shows "\<exists>drv' log. app_scan crypto
      [(True, Some (hci_packet \<lparr>ar_addr = addr, ar_addr_type = 0x01, ar_adv_type = 0x03, ar_rssi = rssi0,
          ar_data = adv_of (seq_bytes s0 @ key @ rest)\<rparr>), True),
       (True, Some (hci_packet \<lparr>ar_addr = addr, ar_addr_type = 0x01, ar_adv_type = 0x03, ar_rssi = rssi,
          ar_data = adv_of (seq_bytes s @ [st] @ tag)\<rparr>), True),
       (False, None, False)] drv = Some (drv', log) \<and>
    map log_text log =
      [Some (''EnoceanDriver: device commissioned '' @ addr_text (rev addr)),
       Some (''EnOcean device COMMISSIONED: '' @ addr_text (rev addr))] @
      map log_text (snd (snd (crypto key (addr @ seq_bytes s @ [0, 0, 0]) (seq_bytes s @ [st]) [] tag []))) @
      [Some (''EnOcean button '' @ (if bit st 0 then ''PRESS'' else ''RELEASE'') @ '' | addr '' @
         addr_text (rev addr) @ '' | buttons 0x'' @ hex2 (drop_bit 1 st AND 0x0F))]"
proof -
  let ?com = "\<lparr>ar_addr = addr, ar_addr_type = 0x01, ar_adv_type = 0x03, ar_rssi = rssi0,
      ar_data = adv_of (seq_bytes s0 @ key @ rest)\<rparr>"
  let ?rep = "\<lparr>ar_addr = addr, ar_addr_type = 0x01, ar_adv_type = 0x03, ar_rssi = rssi,
      ar_data = adv_of (seq_bytes s @ [st] @ tag)\<rparr>"
  note F = app_run_fresh [OF assms(1,2)]
  have "length rest \<le> 8" using assms(5) by auto
  then have pk: "handle_packet (Some ''advertisement_cb'') (take k_hci_buf_size (hci_packet ?com)) = Some [?com]"
    "handle_packet (Some ''advertisement_cb'') (take k_hci_buf_size (hci_packet ?rep)) = Some [?rep]"
    using assms(2,4,8) by (simp_all add: handle_whole_packet report_ok_def adv_of_def)
  obtain drv' where r: "run (map (report_op crypto) [?com, ?rep]) drv = Some (drv',
      [commissioned_log addr, CallCommissioned ''on_commissioned'' (new_device addr 0x01 rssi0 s0 key)] @
      map Logged (snd (snd (crypto key (addr @ seq_bytes s @ [0, 0, 0]) (seq_bytes s @ [st]) [] tag []))) @
      [CallButton ''on_button'' ((new_device addr 0x01 rssi0 s0 key)\<lparr>dev_rssi := rssi, seq_num := s\<rparr>)
         (if bit st 0 then Press else Release) (drop_bit 1 st AND 0x0F) None])"
    using commission_press_run [of app_callbacks drv addr key rest s0 s st tag crypto "''on_commissioned''"
        "''on_button''" crypto rssi0 rssi] F assms(2-9)
    by (auto simp: app_callbacks_def report_op_def simp del: run.simps append.simps)
  with session_prints [of addr "0x01" rssi0 s0 key "(snd (snd (crypto key (addr @ seq_bytes s @ [0, 0, 0]) (seq_bytes s @ [st]) [] tag [])))" s rssi st, OF assms(2)] pk show ?thesis
    by (auto simp: app_scan_def deliver_run simp del: run.simps app_print.simps)
qed

theorem session_first_press_witness:
  "\<exists>drv sc log0 calls drv' log. app_start example_hci example_backend 64 [] = Some (Some (drv, sc), log0, calls) \<and>
     app_scan example_backend
      [(True, Some (hci_packet \<lparr>ar_addr = example_addr 8, ar_addr_type = 0x01, ar_adv_type = 0x03, ar_rssi = -50,
          ar_data = adv_of (seq_bytes 1 @ replicate 16 7 @ [0, 0])\<rparr>), True),
       (True, Some (hci_packet \<lparr>ar_addr = example_addr 8, ar_addr_type = 0x01, ar_adv_type = 0x03, ar_rssi = -60,
          ar_data = adv_of (seq_bytes 2 @ [0x03] @ [9, 9, 9, 9])\<rparr>), True),
       (False, None, False)] drv = Some (drv', log) \<and>
     map log_text log =
      [Some (''EnoceanDriver: device commissioned '' @ addr_text (rev (example_addr 8))),
       Some (''EnOcean device COMMISSIONED: '' @ addr_text (rev (example_addr 8))),
       Some (''EnOcean button PRESS | addr '' @ addr_text (rev (example_addr 8)) @ '' | buttons 0x01'')]"
proof -
  have "map_option (\<lambda>(r, l, cs). r \<noteq> None) (app_start example_hci example_backend 64 []) = Some True" by code_simp
  then obtain drv sc log0 calls where a: "app_start example_hci example_backend 64 [] = Some (Some (drv, sc), log0, calls)"
    by (auto simp: map_option_case split: option.splits)
  have facts: "length (example_addr 8) = 6" "detect_device_type (example_addr 8) = Switch"
    "length (replicate 16 (7 :: u8)) = 16" "length [0 :: u8, 0] \<in> {2, 3, 4, 5, 6, 8}" "(1 :: u32) < 2"
    "(0x03 :: u8) AND 0xE0 = 0" "length [9 :: u8, 9, 9, 9] = 4"
    "fst (example_backend (replicate 16 7) (example_addr 8 @ seq_bytes 2 @ [0, 0, 0])
       (seq_bytes 2 @ [0x03]) [] [9, 9, 9, 9] [])"
    by code_simp+
  have t: "''EnOcean button '' @ (if bit (0x03 :: u8) 0 then ''PRESS'' else ''RELEASE'') @ '' | addr '' @ x @
      '' | buttons 0x'' @ hex2 (drop_bit 1 0x03 AND 0x0F) = ''EnOcean button PRESS | addr '' @ x @ '' | buttons 0x01''"
    for x
  proof -
    have "bit (0x03 :: u8) 0" "hex2 (drop_bit 1 0x03 AND 0x0F) = ''01''" by code_simp+
    then show ?thesis by simp
  qed
  have quiet: "snd (snd (example_backend (replicate 16 7) (example_addr 8 @ seq_bytes 2 @ [0, 0, 0])
       (seq_bytes 2 @ [0x03]) [] [9, 9, 9, 9] [])) = []"
    by code_simp
  note session_first_press [OF a facts, of "-50" "-60", unfolded t quiet]
  with a show ?thesis by (elim exE conjE) (intro exI conjI, assumption+, simp)
qed

end
