(* ===== verification/Ble_Posix_Threads.thy ===== *)
theory Ble_Posix_Threads
  imports Ble_Posix
begin

text \<open>
  The BlueZ scanner with its two threads (src/platform/posix_core/ble/Ble.cpp). The owner calls
  \<open>init\<close>, \<open>start_scan\<close>, \<open>stop_scan\<close> and the destructor; the scan thread runs \<open>scan_loop\<close>; the
  kernel queues packets on sockets. Both threads read and write the members of one object. Steps
  are the accesses to what they share: \<open>start_scan\<close> has two (the flag, then the thread), the
  destructor four (the flag, \<open>close\<close>, the descriptor, the join of the member \<open>scan_thread_\<close>), a
  round of the loop up to five. The steps of either thread interleave in any order.
\<close>

subsection \<open>The operations in steps\<close>

text \<open>\<open>start_scan_impl\<close> up to the store of the flag; \<open>None\<close>: it returns before.\<close>

definition start_flag :: "hci_api \<Rightarrow> Scanner \<Rightarrow> Scanner option" where
  "start_flag api s =
     (if sc_hci_fd s < 0 then None
      else if sc_running s then None
      else if \<not> fst (enable_le_scan api s) then None
      else Some (s\<lparr>sc_running := True\<rparr>))"

text \<open>The creation of the thread and, if it fails, the reset of the flag.\<close>

definition start_create :: "hci_api \<Rightarrow> Scanner \<Rightarrow> bool \<times> Scanner" where
  "start_create api s =
     (let stack = \<lparr>stack_size = 8192, stack_pointer = 0\<rparr>;
          params = ThreadParam1 (hci_this api);
          (result, th, tcalls) =
            thread_create (posix_os_create (hci_threads api) (ThreadFunction1 ''scan_thread_fn'')
              stack 5 params) stack 5 (sc_thread s);
          s = s\<lparr>sc_thread := th\<rparr>
      in if \<not> has_value (fst result) then (False, s\<lparr>sc_running := False\<rparr>) else (True, s))"

definition stop_flag :: "Scanner \<Rightarrow> Scanner" where
  "stop_flag s = (if \<not> sc_running s then s else s\<lparr>sc_running := False\<rparr>)"

definition dtor_flag :: "Scanner \<Rightarrow> Scanner" where
  "dtor_flag s = (if sc_running s then s\<lparr>sc_running := False\<rparr> else s)"

definition dtor_reset :: "Scanner \<Rightarrow> Scanner" where
  "dtor_reset s = (if sc_hci_fd s \<ge> 0 then s\<lparr>sc_hci_fd := -1\<rparr> else s)"

text \<open>One after the other, without interference, the steps are the operations.\<close>

lemma start_steps:
  "fst (snd (scanner_start_scan_impl api s)) =
     (case start_flag api s of None \<Rightarrow> s | Some s1 \<Rightarrow> snd (start_create api s1))"
  by (simp add: scanner_start_scan_impl_def start_flag_def start_create_def Let_def split: prod.splits)

lemma stop_steps: "fst (snd (scanner_stop_scan_impl s)) = stop_flag s"
  by (simp add: scanner_stop_scan_impl_def stop_flag_def Let_def split: prod.splits)

lemma dtor_steps:
  "scanner_dtor api s = Some (s', calls) \<Longrightarrow> sc_hci_fd s \<ge> -1 \<Longrightarrow>
     s'\<lparr>sc_thread := sc_thread s\<rparr> = dtor_reset (dtor_flag s)"
  by (auto simp: scanner_dtor_def dtor_reset_def dtor_flag_def Let_def split: bind_splits if_splits)

lemma start_create_thread:
  assumes "start_create api s = (ok, s')"
  shows "thread_active (sc_thread s) \<Longrightarrow> \<not> ok \<and> sc_thread s' = sc_thread s"
    and "\<not> thread_active (sc_thread s) \<Longrightarrow> thread_active (sc_thread s') = ok"
    and "sc_callback s' = sc_callback s" and "sc_running s' \<longleftrightarrow> ok \<and> sc_running s"
  using assms
  by (auto simp: start_create_def thread_create_def posix_os_create_def posix_create_with_def of_error_def
      of_value_def set_active_def set_thread_info_def set_stack_info_def set_thread_priority_def Let_def
      split: if_splits prod.splits option.splits)

subsection \<open>Two threads\<close>

datatype owner_pc = OwnIdle | OwnStarting hci_api | OwnClosing | OwnClosed | OwnJoining | OwnDone

text \<open>
  Where the scan thread is: not there, at the loop head, in front of \<open>read\<close>, waiting in \<open>read\<close>,
  behind a failed read, behind a read of a packet, calling the callback, returned.
\<close>

datatype thread_pc =
    ThNone | ThHead | ThRead | ThBlocked int | ThFailed | ThGot "u8 list"
  | ThDispatch "adv_report list" | ThExit

record scan_world =
  w_obj :: Scanner
  w_open :: "int set"
  w_queue :: "int \<Rightarrow> u8 list list"
  w_owner :: owner_pc
  w_thread :: thread_pc

datatype scan_label =
    OwnInit hci_api adv_callback u64
  | OwnStart hci_api | OwnCreate | OwnStop
  | OwnDtor | OwnClose | OwnReset | OwnJoin | OwnJoinFailed
  | ThStep | ThPacket "u8 list" | ThCall adv_report
  | EnvArrive int "u8 list" | EnvReadError

text \<open>
  \<open>own_join\<close> is a \<open>pthread_join\<close> that succeeds: it waits for the return of the thread. One that fails
  with an error other than EINTR (\<open>own_join_failed\<close>) waits for nothing, and the destructor ignores it:
  the object is gone and the thread, if there is one, goes on. After \<open>OwnDone\<close> the steps of the thread
  are still those of its code, on an object that no longer exists.
\<close>

inductive scan_step :: "scan_world \<Rightarrow> scan_label \<Rightarrow> scan_world \<Rightarrow> bool" where
  own_init: "w_owner w = OwnIdle \<Longrightarrow> scanner_init_impl api cb ctx (w_obj w) = (r, s, calls) \<Longrightarrow>
    (has_value (fst r) \<Longrightarrow> sc_hci_fd s \<notin> w_open w) \<Longrightarrow>
    scan_step w (OwnInit api cb ctx)
      (if has_value (fst r)
       then w\<lparr>w_obj := s, w_open := insert (sc_hci_fd s) (w_open w),
              w_queue := (w_queue w)(sc_hci_fd s := [])\<rparr>
       else w\<lparr>w_obj := s\<rparr>)"
| own_start: "w_owner w = OwnIdle \<Longrightarrow> start_flag api (w_obj w) = Some s \<Longrightarrow>
    scan_step w (OwnStart api) (w\<lparr>w_obj := s, w_owner := OwnStarting api\<rparr>)"
| own_start_refused: "w_owner w = OwnIdle \<Longrightarrow> start_flag api (w_obj w) = None \<Longrightarrow> scan_step w (OwnStart api) w"
| own_create: "w_owner w = OwnStarting api \<Longrightarrow> start_create api (w_obj w) = (True, s) \<Longrightarrow>
    scan_step w OwnCreate
      (w\<lparr>w_obj := s, w_owner := OwnIdle, w_thread := (if hci_this api = 0 then ThExit else ThHead)\<rparr>)"
| own_create_failed: "w_owner w = OwnStarting api \<Longrightarrow> start_create api (w_obj w) = (False, s) \<Longrightarrow>
    scan_step w OwnCreate (w\<lparr>w_obj := s, w_owner := OwnIdle\<rparr>)"
| own_stop: "w_owner w = OwnIdle \<Longrightarrow> scan_step w OwnStop (w\<lparr>w_obj := stop_flag (w_obj w)\<rparr>)"
| own_dtor: "w_owner w = OwnIdle \<Longrightarrow>
    scan_step w OwnDtor (w\<lparr>w_obj := dtor_flag (w_obj w), w_owner := OwnClosing\<rparr>)"
| own_close: "w_owner w = OwnClosing \<Longrightarrow>
    scan_step w OwnClose
      (w\<lparr>w_open := (if sc_hci_fd (w_obj w) \<ge> 0 then w_open w - {sc_hci_fd (w_obj w)} else w_open w),
         w_owner := OwnClosed\<rparr>)"
| own_reset: "w_owner w = OwnClosed \<Longrightarrow>
    scan_step w OwnReset (w\<lparr>w_obj := dtor_reset (w_obj w), w_owner := OwnJoining\<rparr>)"
| own_join: "w_owner w = OwnJoining \<Longrightarrow> thread_active (sc_thread (w_obj w)) \<longrightarrow> w_thread w = ThExit \<Longrightarrow>
    scan_step w OwnJoin
      (w\<lparr>w_obj := (w_obj w)\<lparr>sc_thread := set_active False (sc_thread (w_obj w))\<rparr>, w_owner := OwnDone\<rparr>)"
| own_join_failed: "w_owner w = OwnJoining \<Longrightarrow> thread_active (sc_thread (w_obj w)) \<Longrightarrow>
    scan_step w OwnJoinFailed (w\<lparr>w_owner := OwnDone\<rparr>)"
| th_head: "w_thread w = ThHead \<Longrightarrow>
    scan_step w ThStep (w\<lparr>w_thread := (if sc_running (w_obj w) then ThRead else ThExit)\<rparr>)"
| th_read: "w_thread w = ThRead \<Longrightarrow>
    scan_step w ThStep
      (w\<lparr>w_thread := (if sc_hci_fd (w_obj w) \<in> w_open w then ThBlocked (sc_hci_fd (w_obj w)) else ThFailed)\<rparr>)"
| th_packet: "w_thread w = ThBlocked fd \<Longrightarrow> w_queue w fd = p # ps \<Longrightarrow>
    scan_step w (ThPacket p)
      (w\<lparr>w_queue := (w_queue w)(fd := ps), w_thread := (if p = [] then ThFailed else ThGot p)\<rparr>)"
| th_failed: "w_thread w = ThFailed \<Longrightarrow>
    scan_step w ThStep (w\<lparr>w_thread := (if sc_running (w_obj w) then ThHead else ThExit)\<rparr>)"
| th_handle: "w_thread w = ThGot p \<Longrightarrow>
    handle_packet (sc_callback (w_obj w)) (take k_hci_buf_size p) = Some rs \<Longrightarrow>
    scan_step w ThStep (w\<lparr>w_thread := ThDispatch rs\<rparr>)"
| th_call: "w_thread w = ThDispatch (r # rs) \<Longrightarrow>
    scan_step w (ThCall r) (w\<lparr>w_thread := ThDispatch rs\<rparr>)"
| th_next: "w_thread w = ThDispatch [] \<Longrightarrow> scan_step w ThStep (w\<lparr>w_thread := ThHead\<rparr>)"
| env_arrive: "scan_step w (EnvArrive fd p) (w\<lparr>w_queue := (w_queue w)(fd := w_queue w fd @ [p])\<rparr>)"
| env_read_error: "w_thread w = ThBlocked fd \<Longrightarrow> scan_step w EnvReadError (w\<lparr>w_thread := ThFailed\<rparr>)"

inductive_cases scan_stepE: "scan_step w l w'"

inductive scan_run :: "scan_world \<Rightarrow> scan_label list \<Rightarrow> scan_world \<Rightarrow> bool" where
  run_nil: "scan_run w [] w"
| run_cons: "scan_step w l w1 \<Longrightarrow> scan_run w1 ls w2 \<Longrightarrow> scan_run w (l # ls) w2"

inductive_cases run_consE: "scan_run w (l # ls) w'"
inductive_cases run_nilE: "scan_run w [] w'"

lemmas scan_step_intros [intro] = scan_step.intros

lemma run_append: "scan_run w ls w1 \<Longrightarrow> scan_run w1 ms w2 \<Longrightarrow> scan_run w (ls @ ms) w2"
  by (induction rule: scan_run.induct) (auto intro: run_cons)

text \<open>A new scanner in a process with any open descriptors.\<close>

definition new_world :: "int set \<Rightarrow> scan_world" where
  "new_world fds = \<lparr>w_obj = new_scanner, w_open = fds, w_queue = (\<lambda>fd. []), w_owner = OwnIdle,
     w_thread = ThNone\<rparr>"

definition scan_reachable :: "scan_world \<Rightarrow> bool" where
  "scan_reachable w \<longleftrightarrow> (\<exists>fds ls. fds \<subseteq> {0..} \<and> scan_run (new_world fds) ls w)"

subsection \<open>The invariant\<close>

definition scan_inv :: "scan_world \<Rightarrow> bool" where
  "scan_inv w \<longleftrightarrow>
     (w_owner w \<noteq> OwnDone \<longrightarrow> thread_active (sc_thread (w_obj w)) = (w_thread w \<noteq> ThNone)) \<and>
     (w_owner w \<in> {OwnClosing, OwnClosed, OwnJoining, OwnDone} \<longrightarrow> \<not> sc_running (w_obj w)) \<and>
     (\<forall>rs. w_thread w = ThDispatch rs \<longrightarrow> length rs \<le> 15) \<and>
     w_open w \<subseteq> {0..} \<and>
     (w_owner w \<in> {OwnJoining, OwnDone} \<longrightarrow> sc_hci_fd (w_obj w) < 0)"

lemma init_keeps:
  "scanner_init_impl api cb ctx s = (r, s', calls) \<Longrightarrow>
     sc_thread s' = sc_thread s \<and> sc_running s' = sc_running s \<and> (has_value (fst r) \<longrightarrow> 0 \<le> sc_hci_fd s')"
  by (auto simp: scanner_init_impl_def Let_def of_error_def of_value_def split: if_splits prod.splits)

lemma flag_steps [simp]:
  "sc_thread (stop_flag s) = sc_thread s" "sc_thread (dtor_flag s) = sc_thread s"
  "sc_thread (dtor_reset s) = sc_thread s" "\<not> sc_running (dtor_flag s)" "\<not> sc_running (stop_flag s)"
  "sc_running (dtor_reset s) = sc_running s" "sc_callback (stop_flag s) = sc_callback s"
  "sc_callback (dtor_flag s) = sc_callback s" "sc_callback (dtor_reset s) = sc_callback s"
  "sc_hci_fd (dtor_reset s) < 0"
  by (simp_all add: stop_flag_def dtor_flag_def dtor_reset_def)

lemma start_flag_keeps:
  "start_flag api s = Some s' \<Longrightarrow> sc_thread s' = sc_thread s \<and> sc_callback s' = sc_callback s \<and> sc_running s'"
  by (auto simp: start_flag_def split: if_splits)

lemma scan_step_inv:
  assumes "scan_step w l w'" and "scan_inv w"
  shows "scan_inv w'"
  using assms
proof (induction rule: scan_step.induct)
  case (own_create w api s)
  then show ?case using start_create_thread [OF own_create(2)] by (auto simp: scan_inv_def)
next
  case (own_create_failed w api s)
  then show ?case using start_create_thread [OF own_create_failed(2)] by (auto simp: scan_inv_def)
next
  case (th_handle w p rs)
  then show ?case using handle_packet_count by (auto simp: scan_inv_def)
qed (auto simp: scan_inv_def set_active_def split: if_splits dest: init_keeps start_flag_keeps)

lemma scan_run_inv: "scan_run w ls w' \<Longrightarrow> scan_inv w \<Longrightarrow> scan_inv w'"
  by (induction rule: scan_run.induct) (auto dest: scan_step_inv)

lemma new_world_inv: "fds \<subseteq> {0..} \<Longrightarrow> scan_inv (new_world fds)"
  by (simp add: scan_inv_def new_world_def new_scanner_def)

lemma scan_reachable_inv: "scan_reachable w \<Longrightarrow> scan_inv w"
  using scan_run_inv new_world_inv by (auto simp: scan_reachable_def)


subsection \<open>What the thread computes\<close>

text \<open>The packets a run reads and the calls of the callback it makes.\<close>

definition packets_read :: "scan_label list \<Rightarrow> u8 list list" where
  "packets_read ls = concat (map (\<lambda>l. case l of ThPacket p \<Rightarrow> if p = [] then [] else [p] | _ \<Rightarrow> []) ls)"

definition callbacks_made :: "scan_label list \<Rightarrow> adv_report list" where
  "callbacks_made ls = concat (map (\<lambda>l. case l of ThCall r \<Rightarrow> [r] | _ \<Rightarrow> []) ls)"

lemma trace_simps [simp]:
  "packets_read [] = []" "callbacks_made [] = []"
  "packets_read (l # ls) = (case l of ThPacket p \<Rightarrow> if p = [] then [] else [p] | _ \<Rightarrow> []) @ packets_read ls"
  "callbacks_made (l # ls) = (case l of ThCall r \<Rightarrow> [r] | _ \<Rightarrow> []) @ callbacks_made ls"
  by (simp_all add: packets_read_def callbacks_made_def)

definition answers_of :: "scan_iteration list \<Rightarrow> u8 list list" where
  "answers_of its = concat (map (\<lambda>(r, a, s). case a of None \<Rightarrow> [] | Some p \<Rightarrow> [p]) its)"

lemma answers_simps [simp]:
  "answers_of [] = []"
  "answers_of ((r, a, s) # its) = (case a of None \<Rightarrow> [] | Some p \<Rightarrow> [p]) @ answers_of its"
  by (simp_all add: answers_of_def)

text \<open>What is left of \<open>scan_loop\<close> for a thread at a place.\<close>

fun rest_of_loop :: "adv_callback \<Rightarrow> thread_pc \<Rightarrow> u8 list list \<Rightarrow> adv_report list \<Rightarrow> bool" where
  "rest_of_loop cb ThNone ps cs = True"
| "rest_of_loop cb ThHead ps cs = (\<exists>its. scan_loop cb its = Some cs \<and> answers_of its = ps)"
| "rest_of_loop cb ThFailed ps cs =
     (\<exists>s its. scan_loop cb ((True, None, s) # its) = Some cs \<and> answers_of its = ps)"
| "rest_of_loop cb (ThGot p) ps cs =
     (\<exists>its. scan_loop cb ((True, Some p, True) # its) = Some cs \<and> answers_of its = ps)"
| "rest_of_loop cb (ThDispatch rs) ps cs =
     (\<exists>its cs'. cs = rs @ cs' \<and> scan_loop cb its = Some cs' \<and> answers_of its = ps)"
| "rest_of_loop cb ThExit ps cs = (ps = [] \<and> cs = [])"
| "rest_of_loop cb pc ps cs =
     (\<exists>a s its. scan_loop cb ((True, a, s) # its) = Some cs \<and> answers_of ((True, a, s) # its) = ps)"

definition no_init :: "scan_label \<Rightarrow> bool" where
  "no_init l = (case l of OwnInit api cb ctx \<Rightarrow> False | _ \<Rightarrow> True)"

lemma scan_step_callback: "scan_step w l w' \<Longrightarrow> no_init l \<Longrightarrow> sc_callback (w_obj w') = sc_callback (w_obj w)"
  by (erule scan_stepE) (auto simp: no_init_def dest: start_flag_keeps start_create_thread(3))

lemma rest_of_loop_steps:
  "rest_of_loop cb ThRead ps cs \<Longrightarrow> rest_of_loop cb ThHead ps cs"
  "rest_of_loop cb ThExit ps cs \<Longrightarrow> rest_of_loop cb ThHead ps cs"
  "rest_of_loop cb (ThBlocked fd) ps cs \<Longrightarrow> rest_of_loop cb ThRead ps cs"
  "rest_of_loop cb ThFailed ps cs \<Longrightarrow> rest_of_loop cb ThRead ps cs"
  "rest_of_loop cb ThFailed ps cs \<Longrightarrow> rest_of_loop cb (ThBlocked fd) ps cs"
  "rest_of_loop cb (ThGot p) ps cs \<Longrightarrow> rest_of_loop cb (ThBlocked fd) (p # ps) cs"
  "rest_of_loop cb ThHead ps cs \<Longrightarrow> rest_of_loop cb ThFailed ps cs"
  "rest_of_loop cb ThExit ps cs \<Longrightarrow> rest_of_loop cb ThFailed ps cs"
  "handle_packet cb (take k_hci_buf_size p) = Some rs \<Longrightarrow> rest_of_loop cb (ThDispatch rs) ps cs \<Longrightarrow>
     rest_of_loop cb (ThGot p) ps cs"
  "rest_of_loop cb (ThDispatch rs) ps cs \<Longrightarrow> rest_of_loop cb (ThDispatch (r # rs)) ps (r # cs)"
  "rest_of_loop cb ThHead ps cs \<Longrightarrow> rest_of_loop cb (ThDispatch []) ps cs"
proof -
  show "rest_of_loop cb ThRead ps cs \<Longrightarrow> rest_of_loop cb ThHead ps cs"
    unfolding rest_of_loop.simps by blast
  show "rest_of_loop cb ThExit ps cs \<Longrightarrow> rest_of_loop cb ThHead ps cs"
    by (simp, rule exI [where x = "[(False, None, False)]"], simp)
  show "rest_of_loop cb ThHead ps cs \<Longrightarrow> rest_of_loop cb ThFailed ps cs"
    by (simp, rule exI [where x = True], simp)
  show "rest_of_loop cb ThExit ps cs \<Longrightarrow> rest_of_loop cb ThFailed ps cs"
    by (simp, rule exI [where x = False], simp, rule exI [where x = "[]"], simp)
  show "rest_of_loop cb ThFailed ps cs \<Longrightarrow> rest_of_loop cb ThRead ps cs"
    and "rest_of_loop cb ThFailed ps cs \<Longrightarrow> rest_of_loop cb (ThBlocked fd) ps cs"
    by (fastforce simp del: scan_loop.simps)+
  show "rest_of_loop cb (ThGot p) ps cs \<Longrightarrow> rest_of_loop cb (ThBlocked fd) (p # ps) cs"
    by (fastforce simp del: scan_loop.simps)
  show "rest_of_loop cb (ThGot p) ps cs"
    if "handle_packet cb (take k_hci_buf_size p) = Some rs" and "rest_of_loop cb (ThDispatch rs) ps cs"
  proof -
    from that(2) obtain its cs' where "cs = rs @ cs'" "scan_loop cb its = Some cs'" "answers_of its = ps"
      by auto
    then have "scan_loop cb ((True, Some p, True) # its) = Some cs \<and> answers_of its = ps"
      using that(1) by simp
    then show ?thesis unfolding rest_of_loop.simps by blast
  qed
qed auto

lemma thread_computes:
  assumes "scan_run w ls w'" and "scan_inv w" and "w_thread w' = ThExit" and "list_all no_init ls"
  shows "rest_of_loop (sc_callback (w_obj w)) (w_thread w) (packets_read ls) (callbacks_made ls)"
  using assms
proof (induction rule: scan_run.induct)
  case (run_nil w)
  then show ?case by simp
next
  case (run_cons w l w1 ls w')
  have cb: "sc_callback (w_obj w1) = sc_callback (w_obj w)"
    using run_cons.hyps(1) run_cons.prems(3) scan_step_callback by simp
  have ih: "rest_of_loop (sc_callback (w_obj w)) (w_thread w1) (packets_read ls) (callbacks_made ls)"
    using run_cons.IH run_cons.prems scan_step_inv [OF run_cons.hyps(1)] by (simp add: cb)
  show ?case
    using run_cons.hyps(1)
  proof (cases rule: scan_step.cases)
    case (own_create api s)
    then show ?thesis
      using start_create_thread(1) [OF own_create(4)] run_cons.prems(1) by (auto simp: scan_inv_def)
  qed (use ih in \<open>auto intro: rest_of_loop_steps simp del: rest_of_loop.simps split: if_splits\<close>)
qed

text \<open>What a place still has to call for packets that are already read.\<close>

definition reports_of :: "adv_callback \<Rightarrow> u8 list \<Rightarrow> adv_report list" where
  "reports_of cb p = the (handle_packet cb (take k_hci_buf_size p))"

lemma reports_of_eq: "handle_packet cb (take k_hci_buf_size p) = Some rs \<Longrightarrow> reports_of cb p = rs"
  by (simp add: reports_of_def)

fun pending :: "adv_callback \<Rightarrow> thread_pc \<Rightarrow> adv_report list" where
  "pending cb (ThGot p) = reports_of cb p"
| "pending cb (ThDispatch rs) = rs"
| "pending cb pc = []"

lemma thread_dispatches:
  assumes "scan_run w ls w'" and "scan_inv w" and "w_thread w' \<noteq> ThNone" and "list_all no_init ls"
    and "w_thread w \<noteq> ThNone"
  shows "callbacks_made ls @ pending (sc_callback (w_obj w)) (w_thread w') =
     pending (sc_callback (w_obj w)) (w_thread w) @
     concat (map (reports_of (sc_callback (w_obj w))) (packets_read ls))"
  using assms
proof (induction rule: scan_run.induct)
  case (run_nil w)
  then show ?case by simp
next
  case (run_cons w l w1 ls w')
  have cb: "sc_callback (w_obj w1) = sc_callback (w_obj w)"
    using run_cons.hyps(1) run_cons.prems(3) scan_step_callback by simp
  have ih: "w_thread w1 \<noteq> ThNone \<Longrightarrow>
     callbacks_made ls @ pending (sc_callback (w_obj w)) (w_thread w') =
     pending (sc_callback (w_obj w)) (w_thread w1) @
     concat (map (reports_of (sc_callback (w_obj w))) (packets_read ls))"
    using run_cons.IH run_cons.prems scan_step_inv [OF run_cons.hyps(1)] by (simp add: cb)
  show ?case
    using run_cons.hyps(1)
  proof (cases rule: scan_step.cases)
    case (own_create api s)
    then show ?thesis
      using start_create_thread(1) [OF own_create(4)] run_cons.prems(1,4) by (auto simp: scan_inv_def)
  qed (use ih run_cons.prems(4) in \<open>auto simp: reports_of_eq split: if_splits\<close>)
qed

subsection \<open>Executing schedules\<close>

fun owner_place :: "owner_pc \<Rightarrow> nat" where
  "owner_place OwnIdle = 0"
| "owner_place (OwnStarting api) = 1"
| "owner_place OwnClosing = 2"
| "owner_place OwnClosed = 3"
| "owner_place OwnJoining = 4"
| "owner_place OwnDone = 5"

lemma owner_place_eq [simp]:
  "owner_place p = 0 \<longleftrightarrow> p = OwnIdle" "owner_place p = 2 \<longleftrightarrow> p = OwnClosing"
  "owner_place p = 3 \<longleftrightarrow> p = OwnClosed" "owner_place p = 4 \<longleftrightarrow> p = OwnJoining"
  "owner_place p = 5 \<longleftrightarrow> p = OwnDone"
  by (cases p; simp)+

fun scan_exec :: "scan_world \<Rightarrow> scan_label \<Rightarrow> scan_world option" where
  "scan_exec w (OwnInit api cb ctx) =
     (let (r, s, calls) = scanner_init_impl api cb ctx (w_obj w) in
      if owner_place (w_owner w) = 0 \<and> (has_value (fst r) \<longrightarrow> sc_hci_fd s \<notin> w_open w)
      then Some (if has_value (fst r)
             then w\<lparr>w_obj := s, w_open := insert (sc_hci_fd s) (w_open w),
                    w_queue := (w_queue w)(sc_hci_fd s := [])\<rparr>
             else w\<lparr>w_obj := s\<rparr>)
      else None)"
| "scan_exec w (OwnStart api) =
     (if owner_place (w_owner w) \<noteq> 0 then None
      else case start_flag api (w_obj w) of None \<Rightarrow> Some w
      | Some s \<Rightarrow> Some (w\<lparr>w_obj := s, w_owner := OwnStarting api\<rparr>))"
| "scan_exec w OwnCreate =
     (case w_owner w of OwnStarting api \<Rightarrow>
        (let (ok, s) = start_create api (w_obj w) in
         Some (if ok then w\<lparr>w_obj := s, w_owner := OwnIdle,
                        w_thread := (if hci_this api = 0 then ThExit else ThHead)\<rparr>
               else w\<lparr>w_obj := s, w_owner := OwnIdle\<rparr>))
      | _ \<Rightarrow> None)"
| "scan_exec w OwnStop =
     (if owner_place (w_owner w) = 0 then Some (w\<lparr>w_obj := stop_flag (w_obj w)\<rparr>) else None)"
| "scan_exec w OwnDtor =
     (if owner_place (w_owner w) = 0 then Some (w\<lparr>w_obj := dtor_flag (w_obj w), w_owner := OwnClosing\<rparr>) else None)"
| "scan_exec w OwnClose =
     (if owner_place (w_owner w) = 2
      then Some (w\<lparr>w_open := (if sc_hci_fd (w_obj w) \<ge> 0 then w_open w - {sc_hci_fd (w_obj w)} else w_open w),
             w_owner := OwnClosed\<rparr>)
      else None)"
| "scan_exec w OwnReset =
     (if owner_place (w_owner w) = 3 then Some (w\<lparr>w_obj := dtor_reset (w_obj w), w_owner := OwnJoining\<rparr>) else None)"
| "scan_exec w OwnJoin =
     (if owner_place (w_owner w) = 4 \<and> (thread_active (sc_thread (w_obj w)) \<longrightarrow> w_thread w = ThExit)
      then Some (w\<lparr>w_obj := (w_obj w)\<lparr>sc_thread := set_active False (sc_thread (w_obj w))\<rparr>,
             w_owner := OwnDone\<rparr>)
      else None)"
| "scan_exec w OwnJoinFailed =
     (if owner_place (w_owner w) = 4 \<and> thread_active (sc_thread (w_obj w))
      then Some (w\<lparr>w_owner := OwnDone\<rparr>) else None)"
| "scan_exec w ThStep =
     (case w_thread w of
        ThHead \<Rightarrow> Some (w\<lparr>w_thread := (if sc_running (w_obj w) then ThRead else ThExit)\<rparr>)
      | ThRead \<Rightarrow> Some (w\<lparr>w_thread :=
          (if sc_hci_fd (w_obj w) \<in> w_open w then ThBlocked (sc_hci_fd (w_obj w)) else ThFailed)\<rparr>)
      | ThFailed \<Rightarrow> Some (w\<lparr>w_thread := (if sc_running (w_obj w) then ThHead else ThExit)\<rparr>)
      | ThGot p \<Rightarrow> map_option (\<lambda>rs. w\<lparr>w_thread := ThDispatch rs\<rparr>)
          (handle_packet (sc_callback (w_obj w)) (take k_hci_buf_size p))
      | ThDispatch rs \<Rightarrow> if rs = [] then Some (w\<lparr>w_thread := ThHead\<rparr>) else None
      | _ \<Rightarrow> None)"
| "scan_exec w (ThPacket p) =
     (case w_thread w of
        ThBlocked fd \<Rightarrow>
          (case w_queue w fd of
             q # ps \<Rightarrow>
               if q = p then Some (w\<lparr>w_queue := (w_queue w)(fd := ps),
                                     w_thread := (if p = [] then ThFailed else ThGot p)\<rparr>)
               else None
           | [] \<Rightarrow> None)
      | _ \<Rightarrow> None)"
| "scan_exec w (ThCall r) =
     (case w_thread w of
        ThDispatch (q # rs) \<Rightarrow> if q = r then Some (w\<lparr>w_thread := ThDispatch rs\<rparr>) else None
      | _ \<Rightarrow> None)"
| "scan_exec w (EnvArrive fd p) = Some (w\<lparr>w_queue := (w_queue w)(fd := w_queue w fd @ [p])\<rparr>)"
| "scan_exec w EnvReadError =
     (case w_thread w of ThBlocked fd \<Rightarrow> Some (w\<lparr>w_thread := ThFailed\<rparr>) | _ \<Rightarrow> None)"

fun scan_execs :: "scan_world \<Rightarrow> scan_label list \<Rightarrow> scan_world option" where
  "scan_execs w [] = Some w"
| "scan_execs w (l # ls) = (case scan_exec w l of None \<Rightarrow> None | Some w1 \<Rightarrow> scan_execs w1 ls)"

lemma scan_step_exec: "scan_step w l w' \<Longrightarrow> scan_exec w l = Some w'"
  by (induction rule: scan_step.induct) auto

lemma scan_step_eq: "scan_step w l w1 \<Longrightarrow> w' = w1 \<Longrightarrow> scan_step w l w'"
  by simp

lemmas scan_step_eqs = scan_step.intros [THEN scan_step_eq]

lemma scan_exec_step: "scan_exec w l = Some w' \<Longrightarrow> scan_step w l w'"
  by (cases l)
    (auto intro: scan_step_eqs simp: Let_def split: prod.splits if_splits owner_pc.splits thread_pc.splits option.splits list.splits)

lemma scan_execs_run: "scan_execs w ls = Some w' \<Longrightarrow> scan_run w ls w'"
  by (induction ls arbitrary: w) (auto split: option.splits intro: scan_run.intros scan_exec_step)

subsection \<open>After the flag is cleared\<close>

definition no_start :: "scan_label \<Rightarrow> bool" where
  "no_start l = (case l of OwnStart api \<Rightarrow> False | _ \<Rightarrow> True)"

text \<open>Calls and reads a place can still lead to when the flag stays cleared.\<close>

fun calls_left :: "thread_pc \<Rightarrow> nat" where
  "calls_left ThRead = 15"
| "calls_left (ThBlocked fd) = 15"
| "calls_left (ThGot p) = 15"
| "calls_left (ThDispatch rs) = length rs"
| "calls_left pc = 0"

fun reads_left :: "thread_pc \<Rightarrow> nat" where
  "reads_left ThRead = 1"
| "reads_left (ThBlocked fd) = 1"
| "reads_left pc = 0"

lemma calls_left_bound: "scan_inv w \<Longrightarrow> calls_left (w_thread w) \<le> 15"
  by (cases "w_thread w") (auto simp: scan_inv_def)

lemma stopped_step:
  assumes "scan_step w l w1" and "\<not> sc_running (w_obj w)" and "no_start l"
  shows "\<not> sc_running (w_obj w1) \<and>
    length (callbacks_made [l]) + calls_left (w_thread w1) \<le> calls_left (w_thread w) \<and>
    length (packets_read [l]) + reads_left (w_thread w1) \<le> reads_left (w_thread w)"
  using assms
proof (induction rule: scan_step.induct)
  case (own_create w api s)
  then show ?case using start_create_thread(4) [OF own_create(2)] by (auto split: if_splits)
next
  case (own_create_failed w api s)
  then show ?case using start_create_thread(4) [OF own_create_failed(2)] by auto
next
  case (th_handle w p rs)
  then show ?case using handle_packet_count by auto
qed (auto simp: no_start_def dest: init_keeps)

lemma stopped_run:
  "scan_run w ls w' \<Longrightarrow> \<not> sc_running (w_obj w) \<Longrightarrow> list_all no_start ls \<Longrightarrow>
     length (callbacks_made ls) \<le> calls_left (w_thread w) \<and> length (packets_read ls) \<le> reads_left (w_thread w)"
proof (induction rule: scan_run.induct)
  case (run_cons w l w1 ls w2)
  then show ?case using stopped_step [OF run_cons.hyps(1)] by (force simp del: not_None_eq)
qed simp

subsection \<open>Destruction\<close>

definition of_environment :: "scan_label \<Rightarrow> bool" where
  "of_environment l =
     (case l of EnvArrive fd p \<Rightarrow> True | EnvReadError \<Rightarrow> True | OwnJoinFailed \<Rightarrow> True | _ \<Rightarrow> False)"

definition finishes :: "scan_world \<Rightarrow> bool" where
  "finishes w \<longleftrightarrow> (\<exists>ls w'. list_all (\<lambda>l. \<not> of_environment l) ls \<and> scan_run w ls w' \<and> w_owner w' = OwnDone)"

lemma finishes_step: "scan_step w l w1 \<Longrightarrow> \<not> of_environment l \<Longrightarrow> finishes w1 \<Longrightarrow> finishes w"
  unfolding finishes_def by (metis list.pred_inject(2) run_cons)

definition joining :: "scan_world \<Rightarrow> bool" where
  "joining w \<longleftrightarrow> w_owner w = OwnJoining \<and> \<not> sc_running (w_obj w) \<and> sc_hci_fd (w_obj w) \<notin> w_open w \<and>
     thread_active (sc_thread (w_obj w)) = (w_thread w \<noteq> ThNone)"

lemma inv_joining: "scan_inv w \<Longrightarrow> w_owner w = OwnJoining \<Longrightarrow> joining w"
  by (force simp: scan_inv_def joining_def)

lemma joining_exit: "joining w \<Longrightarrow> w_thread w \<in> {ThExit, ThNone} \<Longrightarrow> finishes w"
  by (rule finishes_step [OF own_join])
    (auto simp: joining_def of_environment_def finishes_def intro!: exI [where x = "[]"] run_nil)

lemma joining_move:
  assumes "joining w" and "w_thread w \<noteq> ThNone" and "scan_step w l w1" and "\<not> of_environment l"
    and "w1 = w\<lparr>w_queue := q, w_thread := pc\<rparr>" and "pc \<noteq> ThNone" and "joining w1 \<Longrightarrow> finishes w1"
  shows "finishes w"
  using assms by (auto simp: joining_def intro: finishes_step)

lemma of_environment_simps [simp]:
  "\<not> of_environment ThStep" "\<not> of_environment (ThCall r)" "\<not> of_environment (ThPacket p)"
  "\<not> of_environment OwnJoin"
  by (simp_all add: of_environment_def)

lemma joining_head:
  assumes "joining w" and "w_thread w = ThHead"
  shows "finishes w"
  by (rule joining_move [OF assms(1) _ th_head [OF assms(2)], of ThExit "w_queue w"])
    (use assms in \<open>auto simp: joining_def intro: joining_exit\<close>)

lemma joining_failed:
  assumes "joining w" and "w_thread w = ThFailed"
  shows "finishes w"
  by (rule joining_move [OF assms(1) _ th_failed [OF assms(2)], of ThExit "w_queue w"])
    (use assms in \<open>auto simp: joining_def intro: joining_exit\<close>)

lemma joining_read:
  assumes "joining w" and "w_thread w = ThRead"
  shows "finishes w"
  by (rule joining_move [OF assms(1) _ th_read [OF assms(2)], of ThFailed "w_queue w"])
    (use assms in \<open>auto simp: joining_def intro: joining_failed\<close>)

lemma joining_dispatch:
  assumes "joining w" and "w_thread w = ThDispatch rs"
  shows "finishes w"
  using assms
proof (induction rs arbitrary: w)
  case Nil
  show ?case
    by (rule joining_move [OF Nil(1) _ th_next [OF Nil(2)], of ThHead "w_queue w"])
      (use Nil in \<open>auto intro: joining_head\<close>)
next
  case (Cons r rs)
  show ?case
    by (rule joining_move [OF Cons(2) _ th_call [OF Cons(3)], of "ThDispatch rs" "w_queue w"])
      (use Cons in auto)
qed

lemma joining_got:
  assumes "joining w" and "w_thread w = ThGot p"
  shows "finishes w"
proof -
  obtain rs where "handle_packet (sc_callback (w_obj w)) (take k_hci_buf_size p) = Some rs"
    using handle_packet_total by auto
  from joining_move [OF assms(1) _ th_handle [OF assms(2) this], of "ThDispatch rs" "w_queue w"]
  show ?thesis using assms joining_dispatch by auto
qed

lemma joining_blocked:
  assumes "joining w" and "w_thread w = ThBlocked fd" and "w_queue w fd = p # ps"
  shows "finishes w"
  by (rule joining_move [OF assms(1) _ th_packet [OF assms(2,3)], of "if p = [] then ThFailed else ThGot p"
        "(w_queue w)(fd := ps)"])
    (use assms in \<open>auto intro: joining_failed joining_got\<close>)

text \<open>A thread that waits in \<open>read\<close> with nothing to read keeps the destructor waiting.\<close>

lemma blocked_stays:
  assumes "scan_run w ls w'" and "list_all (\<lambda>l. \<not> of_environment l) ls" and "joining w"
    and "w_thread w = ThBlocked fd" and "w_queue w fd = []"
  shows "w' = w"
proof (cases ls)
  case (Cons l ls')
  then obtain w1 where "scan_step w l w1" using assms(1) by (auto elim: run_consE)
  then show ?thesis
    by (rule scan_stepE) (use assms Cons in \<open>auto simp: joining_def of_environment_def\<close>)
qed (use assms in \<open>auto elim: run_nilE\<close>)

lemma joining_finishes_iff:
  assumes "joining w"
  shows "finishes w \<longleftrightarrow> \<not> (\<exists>fd. w_thread w = ThBlocked fd \<and> w_queue w fd = [])"
proof (cases "\<exists>fd. w_thread w = ThBlocked fd \<and> w_queue w fd = []")
  case True
  then show ?thesis
    using blocked_stays [OF _ _ assms] assms by (fastforce simp: finishes_def joining_def)
next
  case False
  have "finishes w"
  proof (cases "w_thread w")
    case (ThBlocked fd)
    then show ?thesis using False joining_blocked [OF assms] by (cases "w_queue w fd") auto
  qed (use assms in \<open>auto intro: joining_exit joining_head joining_read joining_failed joining_got
      joining_dispatch\<close>)
  then show ?thesis using False by simp
qed

text \<open>When the destructor is done, the thread has returned or was never there, unless the join failed.\<close>

definition thread_gone :: "scan_world \<Rightarrow> bool" where
  "thread_gone w \<longleftrightarrow> w_owner w = OwnDone \<longrightarrow> w_thread w \<in> {ThNone, ThExit}"

lemma gone_step:
  "scan_step w l w' \<Longrightarrow> l \<noteq> OwnJoinFailed \<Longrightarrow> scan_inv w \<Longrightarrow> thread_gone w \<Longrightarrow> thread_gone w'"
  by (induction rule: scan_step.induct) (auto simp: thread_gone_def scan_inv_def split: if_splits)

lemma gone_run:
  "scan_run w ls w' \<Longrightarrow> OwnJoinFailed \<notin> set ls \<Longrightarrow> scan_inv w \<Longrightarrow> thread_gone w \<Longrightarrow> thread_gone w'"
  by (induction rule: scan_run.induct) (auto dest: gone_step scan_step_inv)

lemma done_run:
  "scan_run w ls w' \<Longrightarrow> w_owner w = OwnDone \<Longrightarrow> w_thread w \<in> {ThNone, ThExit} \<Longrightarrow>
     list_all (\<lambda>l. case l of EnvArrive fd p \<Rightarrow> True | _ \<Rightarrow> False) ls \<and> w_thread w' = w_thread w"
  by (induction rule: scan_run.induct) (auto elim!: scan_stepE)

subsection \<open>Properties\<close>

text \<open>
  C26: The thread on the shared object is the loop of the sequential model: whatever the owner, the
  system and other threads do in between (except another \<open>init\<close>, which may exchange the callback),
  the calls a scan thread makes from its start to its end are a result of \<open>scan_loop\<close> on the
  packets it has read, and they are exactly the reports of these packets, in order.
\<close>

theorem scan_thread_refines_loop:
  assumes "scan_reachable w" and "w_thread w = ThHead" and "scan_run w ls w'"
    and "w_thread w' = ThExit" and "list_all no_init ls"
  shows "(\<exists>its. scan_loop (sc_callback (w_obj w)) its = Some (callbacks_made ls) \<and>
      answers_of its = packets_read ls) \<and>
    callbacks_made ls = concat (map (reports_of (sc_callback (w_obj w))) (packets_read ls))"
  using thread_computes [OF assms(3) _ assms(4,5)] thread_dispatches [OF assms(3) _ _ assms(5)]
    scan_reachable_inv [OF assms(1)] assms(2,4)
  by simp

text \<open>
  C28: No use after destruction: once the destructor of the scanner has returned, the scan
  thread has returned or was never started; nothing reads the socket, calls the callback or touches
  the object any more, whatever packets still arrive. The wait of the join is what gives this: the
  one hypothesis is that \<open>pthread_join\<close> did not fail, which for a joinable thread it does only when
  the thread joins itself, that is when the scanner is destroyed in its own callback; a failure is
  ignored and leaves the thread running (\<open>failed_join_leaves_thread\<close>).
\<close>

theorem no_use_after_destruction:
  assumes "fds \<subseteq> {0..}" and "scan_run (new_world fds) before w" and "OwnJoinFailed \<notin> set before"
    and "w_owner w = OwnDone" and "scan_run w ls w'"
  shows "w_thread w' \<in> {ThNone, ThExit} \<and> list_all (\<lambda>l. case l of EnvArrive fd p \<Rightarrow> True | _ \<Rightarrow> False) ls"
proof -
  have "thread_gone w"
    using gone_run [OF assms(2,3) new_world_inv [OF assms(1)]] by (simp add: thread_gone_def new_world_def)
  then have "w_thread w \<in> {ThNone, ThExit}" using assms(4) by (simp add: thread_gone_def)
  from done_run [OF assms(5,4) this] this show ?thesis by simp
qed

text \<open>
  C29: Stopping takes effect: from any moment at which the flag is cleared, until the next start, the
  scan thread reads at most one more packet and calls the callback at most 15 more times, in any
  interleaving, whatever arrives.
\<close>

theorem stop_bounds_callbacks:
  assumes "scan_reachable w" and "\<not> sc_running (w_obj w)" and "scan_run w ls w'" and "list_all no_start ls"
  shows "length (callbacks_made ls) \<le> 15 \<and> length (packets_read ls) \<le> 1"
proof -
  have "reads_left (w_thread w) \<le> 1" by (cases "w_thread w") simp_all
  then show ?thesis
    using stopped_run [OF assms(3,2,4)] calls_left_bound [OF scan_reachable_inv [OF assms(1)]] by linarith
qed

text \<open>
  C27: When the destructor returns: having cleared the flag and closed the socket, it waits for the
  scan thread, and without another packet, a failing read or a failing join both come to their end exactly if the
  thread is not waiting in \<open>read\<close> on an empty socket. Closing a descriptor does not wake a thread
  that reads from it, and the scan, which would send packets, has been disabled; so the destructor
  of a scanner that is listening in vain, the normal situation, does not return.
\<close>

theorem destructor_returns_iff:
  assumes "scan_reachable w" and "w_owner w = OwnJoining"
  shows "(\<exists>ls w'. list_all (\<lambda>l. \<not> of_environment l) ls \<and> scan_run w ls w' \<and> w_owner w' = OwnDone) \<longleftrightarrow>
    \<not> (\<exists>fd. w_thread w = ThBlocked fd \<and> w_queue w fd = [])"
  using joining_finishes_iff [OF inv_joining [OF scan_reachable_inv [OF assms(1)] assms(2)]]
  by (simp add: finishes_def)

subsection \<open>Witnesses\<close>

definition example_packet :: "u8 list" where
  "example_packet = [0x04, 0x3E, 20, 0x02, 1] @ encode_report example_report"

definition schedule_started :: "scan_label list" where
  "schedule_started = [OwnInit example_hci (Some ''advertisement_cb'') 0x6000, OwnStart example_hci, OwnCreate]"

definition schedule_received :: "scan_label list" where
  "schedule_received = [ThStep, ThStep, EnvArrive 5 example_packet, ThPacket example_packet, ThStep, OwnStop,
     ThCall example_report, ThStep, ThStep]"

definition schedule_hung :: "scan_label list" where
  "schedule_hung = [ThStep, ThStep, OwnDtor, OwnClose, OwnReset]"

definition schedule_destroyed :: "scan_label list" where
  "schedule_destroyed = [OwnDtor, OwnClose, OwnReset, ThStep, OwnJoin]"

lemma reachable_execs: "scan_execs (new_world {}) ls = Some w \<Longrightarrow> scan_reachable w"
  unfolding scan_reachable_def using scan_execs_run by blast

theorem scan_thread_refines_loop_witness:
  "\<exists>w w'. scan_run w schedule_received w' \<and> packets_read schedule_received = [example_packet] \<and>
     callbacks_made schedule_received = reports_of (sc_callback (w_obj w)) example_packet"
proof -
  have "map_option w_thread (scan_execs (new_world {}) schedule_started) = Some ThHead" by code_simp
  then obtain w where w: "scan_execs (new_world {}) schedule_started = Some w" "w_thread w = ThHead"
    by auto
  have "map_option w_thread (Option.bind (scan_execs (new_world {}) schedule_started)
      (\<lambda>w. scan_execs w schedule_received)) = Some ThExit" by code_simp
  then obtain w' where r: "scan_run w schedule_received w'" and e: "w_thread w' = ThExit"
    using w scan_execs_run by auto
  have n: "list_all no_init schedule_received" by (simp add: schedule_received_def no_init_def)
  have "packets_read schedule_received = [example_packet]"
    by (simp add: schedule_received_def example_packet_def)
  then show ?thesis
    using scan_thread_refines_loop [OF reachable_execs [OF w(1)] w(2) r e n] r by auto
qed

theorem no_use_after_destruction_witness:
  "\<exists>w w'. w_owner w = OwnDone \<and> scan_run w [EnvArrive 5 [1]] w' \<and> w_thread w' \<in> {ThNone, ThExit}"
proof -
  have "map_option (\<lambda>w. owner_place (w_owner w)) (scan_execs (new_world {}) (schedule_started @ schedule_destroyed)) = Some 5"
    by code_simp
  then obtain w where w: "scan_execs (new_world {}) (schedule_started @ schedule_destroyed) = Some w"
    "w_owner w = OwnDone" by auto
  obtain w' where "scan_execs w [EnvArrive 5 [1]] = Some w'" by simp
  then have r: "scan_run w [EnvArrive 5 [1]] w'" by (rule scan_execs_run)
  have "OwnJoinFailed \<notin> set (schedule_started @ schedule_destroyed)"
    by (simp add: schedule_started_def schedule_destroyed_def)
  from no_use_after_destruction [OF empty_subsetI scan_execs_run [OF w(1)] this w(2) r] w(2) r show ?thesis by blast
qed

theorem stop_bounds_callbacks_witness:
  "\<exists>w w'. scan_run w (drop 6 schedule_received) w' \<and> length (callbacks_made (drop 6 schedule_received)) \<le> 15"
proof -
  let ?ls = "schedule_started @ take 6 schedule_received"
  have "map_option (\<lambda>w. sc_running (w_obj w)) (scan_execs (new_world {}) ?ls) = Some False" by code_simp
  then obtain w where w: "scan_execs (new_world {}) ?ls = Some w" "\<not> sc_running (w_obj w)" by auto
  have "map_option w_thread (Option.bind (scan_execs (new_world {}) ?ls)
      (\<lambda>w. scan_execs w (drop 6 schedule_received))) = Some ThExit" by code_simp
  then obtain w' where r: "scan_run w (drop 6 schedule_received) w'" using w scan_execs_run by auto
  have n: "list_all no_start (drop 6 schedule_received)" by (simp add: schedule_received_def no_start_def)
  show ?thesis using stop_bounds_callbacks [OF reachable_execs [OF w(1)] w(2) r n] r by blast
qed

text \<open>The destructor of a scanner that waits for a packet hangs.\<close>

theorem destructor_returns_iff_witness:
  "\<exists>w. scan_reachable w \<and> w_owner w = OwnJoining \<and> w_open w = {} \<and>
     \<not> (\<exists>ls w'. list_all (\<lambda>l. \<not> of_environment l) ls \<and> scan_run w ls w' \<and> w_owner w' = OwnDone)"
proof -
  have "map_option (\<lambda>w. (owner_place (w_owner w), w_thread w, w_queue w 5, w_open w))
      (scan_execs (new_world {}) (schedule_started @ schedule_hung)) =
    Some (4, ThBlocked 5, [], {})" by code_simp
  then obtain w where w: "scan_execs (new_world {}) (schedule_started @ schedule_hung) = Some w"
    "w_owner w = OwnJoining" and "w_thread w = ThBlocked 5" "w_queue w 5 = []" "w_open w = {}"
    by (auto simp: map_option_case split: option.splits)
  then show ?thesis using destructor_returns_iff [OF reachable_execs [OF w(1)] w(2)] reachable_execs [OF w(1)] by blast
qed

text \<open>Behind a failing join the thread still calls the callback.\<close>

lemma failed_join_leaves_thread:
  "map_option (\<lambda>w. (owner_place (w_owner w), w_thread w))
     (scan_execs (new_world {}) (schedule_started @ take 5 schedule_received @
        [OwnDtor, OwnClose, OwnReset, OwnJoinFailed, ThCall example_report])) =
   Some (5, ThDispatch [])"
  by code_simp

text \<open>A thread in front of \<open>read\<close> may find its descriptor closed: it reads the member without a lock.\<close>

lemma thread_reads_closed_descriptor:
  "map_option (\<lambda>w. (owner_place (w_owner w), w_thread w))
     (scan_execs (new_world {}) (schedule_started @ [ThStep, OwnDtor, OwnClose, ThStep])) =
   Some (3, ThFailed)"
  by code_simp

end
