(* ===== verification/App_Threads.thy ===== *)
theory App_Threads
  imports App_Entry Ble_Posix_Threads
begin

text \<open>
  The application on POSIX with its two threads. Once \<open>start_scan\<close> has returned, the scan thread
  calls the driver with every report, while the application thread (\<open>run_impl\<close>) enables
  commissioning and then sleeps for good. Both work on the same driver without a lock, and
  everything they print goes through the same lines. A call of the driver is cut where the
  application thread can come between: at its entry, at the one access to what they share
  (\<open>commissioning_enabled_\<close>, which the driver reads once for an advertisement), at each event it
  causes, and at its return; \<open>enable_commissioning\<close> between its write of the flag and its log line.
\<close>

text \<open>Where the scan thread is in a call of \<open>advertisement_cb\<close>: the events it has still to cause.\<close>

datatype app_call = NoCall | Entered adv_report | Emitting "driver_event list"

datatype app_main = MainStarted | MainLogging | MainReady

datatype app_label = AppScan scan_label | AppFlag | AppEmit | AppReturn | AppEnable | AppLog

record app_world =
  aw_scan :: scan_world
  aw_driver :: EnoceanDriver
  aw_events :: "driver_event list"
  aw_call :: app_call
  aw_main :: app_main

definition background :: "scan_label \<Rightarrow> bool" where
  "background l = (case l of ThStep \<Rightarrow> True | ThPacket p \<Rightarrow> True | EnvArrive fd p \<Rightarrow> True
     | EnvReadError \<Rightarrow> True | _ \<Rightarrow> False)"

definition arrival :: "scan_label \<Rightarrow> bool" where
  "arrival l = (case l of EnvArrive fd p \<Rightarrow> True | _ \<Rightarrow> False)"

text \<open>A packet may arrive at any time; the scan thread goes on when the call has returned.\<close>

inductive app_step :: "crypto_impl \<Rightarrow> app_world \<Rightarrow> app_label \<Rightarrow> app_world \<Rightarrow> bool" for crypto where
  app_background: "scan_step (aw_scan a) l w \<Longrightarrow> background l \<Longrightarrow>
    aw_call a = NoCall \<or> arrival l \<Longrightarrow>
    app_step crypto a (AppScan l) (a\<lparr>aw_scan := w\<rparr>)"
| app_callback: "scan_step (aw_scan a) (ThCall r) w \<Longrightarrow> aw_call a = NoCall \<Longrightarrow>
    app_step crypto a (AppScan (ThCall r)) (a\<lparr>aw_scan := w, aw_call := Entered r\<rparr>)"
| app_flag: "aw_call a = Entered r \<Longrightarrow> deliver crypto [r] (aw_driver a) = Some (d, evs) \<Longrightarrow>
    app_step crypto a AppFlag (a\<lparr>aw_driver := d, aw_call := Emitting evs\<rparr>)"
| app_emit: "aw_call a = Emitting (e # evs) \<Longrightarrow>
    app_step crypto a AppEmit (a\<lparr>aw_events := aw_events a @ [e], aw_call := Emitting evs\<rparr>)"
| app_return: "aw_call a = Emitting [] \<Longrightarrow> app_step crypto a AppReturn (a\<lparr>aw_call := NoCall\<rparr>)"
| app_enable: "aw_main a = MainStarted \<Longrightarrow>
    app_step crypto a AppEnable
      (a\<lparr>aw_driver := fst (enable_commissioning (aw_driver a)), aw_main := MainLogging\<rparr>)"
| app_log: "aw_main a = MainLogging \<Longrightarrow>
    app_step crypto a AppLog
      (a\<lparr>aw_events := aw_events a @ snd (enable_commissioning (aw_driver a)), aw_main := MainReady\<rparr>)"

inductive_cases app_stepE: "app_step crypto a l a'"

inductive app_steps :: "crypto_impl \<Rightarrow> app_world \<Rightarrow> app_label list \<Rightarrow> app_world \<Rightarrow> bool" for crypto where
  app_nil: "app_steps crypto a [] a"
| app_cons: "app_step crypto a l a1 \<Longrightarrow> app_steps crypto a1 ls a2 \<Longrightarrow> app_steps crypto a (l # ls) a2"

definition scan_labels :: "app_label list \<Rightarrow> scan_label list" where
  "scan_labels ls = concat (map (\<lambda>l. case l of AppScan k \<Rightarrow> [k] | _ \<Rightarrow> []) ls)"

lemma scan_labels_simps [simp]:
  "scan_labels [] = []" "scan_labels (ks @ ls) = scan_labels ks @ scan_labels ls"
  "scan_labels (AppScan k # ls) = k # scan_labels ls"
  "scan_labels (AppFlag # ls) = scan_labels ls" "scan_labels (AppEmit # ls) = scan_labels ls"
  "scan_labels (AppReturn # ls) = scan_labels ls" "scan_labels (AppEnable # ls) = scan_labels ls"
  "scan_labels (AppLog # ls) = scan_labels ls"
  by (simp_all add: scan_labels_def)

text \<open>The report of a call that has not reached the flag, and the events a call has still to cause.\<close>

definition entered :: "app_world \<Rightarrow> adv_report list" where
  "entered a = (case aw_call a of Entered r \<Rightarrow> [r] | _ \<Rightarrow> [])"

definition unemitted :: "app_world \<Rightarrow> driver_event list" where
  "unemitted a = (case aw_call a of Emitting evs \<Rightarrow> evs | _ \<Rightarrow> [])"

subsection \<open>What a run does to the driver\<close>

lemma app_steps_scan:
  "app_steps crypto a ls a' \<Longrightarrow> scan_run (aw_scan a) (scan_labels ls) (aw_scan a')"
  by (induction rule: app_steps.induct) (auto elim!: app_stepE intro: scan_run.intros)

lemma app_steps_labels:
  "app_steps crypto a ls a' \<Longrightarrow> list_all (\<lambda>l. background l \<or> (\<exists>r. l = ThCall r)) (scan_labels ls)"
  by (induction rule: app_steps.induct) (auto elim!: app_stepE)

lemma background_call [simp]: "background l \<Longrightarrow> (case l of ThCall r \<Rightarrow> [r] | _ \<Rightarrow> []) = []"
  by (cases l) (simp_all add: background_def)

lemma callbacks_made_append [simp]: "callbacks_made (ks @ ls) = callbacks_made ks @ callbacks_made ls"
  by (simp add: callbacks_made_def)

lemma deliver_snoc:
  "deliver crypto rs d = Some (d1, e1) \<Longrightarrow> deliver crypto [r] d1 = Some (d2, e2) \<Longrightarrow>
     deliver crypto (rs @ [r]) d = Some (d2, e1 @ e2)"
proof (induction rs arbitrary: d e1)
  case (Cons q rs)
  then obtain ctx dq eq er where q: "advertisement_cb crypto (Some d) (ar_addr q) (ar_addr_type q) (ar_adv_type q)
      (ar_rssi q) (ar_data q) = Some (ctx, eq)" "ctx = Some dq" "deliver crypto rs dq = Some (d1, er)" "e1 = eq @ er"
    by (auto split: bind_splits)
  then show ?case using Cons.IH [OF q(3) Cons.prems(2)] by simp
qed simp

text \<open>
  How far the application thread is, against the reports \<open>rs\<close> the driver has worked on since it was
  in state \<open>d0\<close>: the driver has worked on them one after the other, with commissioning enabled
  between two of them, and what was caused and is still to be caused is what they cause, with the
  line of \<open>enable_commissioning\<close> somewhere behind the call during which it was enabled began.
\<close>

definition caused :: "app_world \<Rightarrow> driver_event list \<Rightarrow> bool" where
  "caused a evs =
     (if aw_main a = MainReady
      then \<exists>l1 l2. aw_events a = l1 @ Logged (LOGGER_NOTICE ''EnOcean commissioning enabled'' []) # l2 \<and>
        l1 @ l2 @ unemitted a = evs
      else aw_events a @ unemitted a = evs)"

definition app_progress ::
    "crypto_impl \<Rightarrow> EnoceanDriver \<Rightarrow> adv_report list \<Rightarrow> app_world \<Rightarrow> bool" where
  "app_progress crypto d0 rs a =
     (if aw_main a = MainStarted
      then deliver crypto rs d0 = Some (aw_driver a, aw_events a @ unemitted a)
      else \<exists>early late d1 e1 e2. rs = early @ late \<and> deliver crypto early d0 = Some (d1, e1) \<and>
        deliver crypto late (fst (enable_commissioning d1)) = Some (aw_driver a, e2) \<and> caused a (e1 @ e2))"

lemma app_progress_startedI:
  "aw_main a = MainStarted \<Longrightarrow> deliver crypto rs d0 = Some (aw_driver a, evs) \<Longrightarrow> caused a evs \<Longrightarrow>
     app_progress crypto d0 rs a"
  by (simp add: app_progress_def caused_def)

lemma app_progress_enabledI:
  "aw_main a \<noteq> MainStarted \<Longrightarrow> deliver crypto early d0 = Some (d1, e1) \<Longrightarrow>
     deliver crypto late (fst (enable_commissioning d1)) = Some (aw_driver a, e2) \<Longrightarrow> caused a (e1 @ e2) \<Longrightarrow>
     app_progress crypto d0 (early @ late) a"
  unfolding app_progress_def by (simp only: if_False) blast

lemma app_progressE:
  assumes "app_progress crypto d0 rs a"
  obtains (started) evs where "aw_main a = MainStarted" "deliver crypto rs d0 = Some (aw_driver a, evs)" "caused a evs"
  | (enabled) early late d1 e1 e2 where "aw_main a \<noteq> MainStarted" "rs = early @ late"
      "deliver crypto early d0 = Some (d1, e1)"
      "deliver crypto late (fst (enable_commissioning d1)) = Some (aw_driver a, e2)" "caused a (e1 @ e2)"
proof (cases "aw_main a = MainStarted")
  case True
  then show thesis using assms started by (simp add: app_progress_def caused_def)
next
  case False
  then show thesis using assms enabled unfolding app_progress_def by auto
qed

text \<open>A step that neither works on a report nor enables commissioning changes nothing of this.\<close>

lemma app_progress_keep:
  assumes "app_progress crypto d0 rs a" and "\<And>evs. caused a evs \<Longrightarrow> caused a' evs"
    and "aw_driver a' = aw_driver a" and "aw_main a' = MainStarted \<longleftrightarrow> aw_main a = MainStarted"
  shows "app_progress crypto d0 rs a'"
  using assms(1)
proof (cases rule: app_progressE)
  case (started evs)
  then show ?thesis using assms by (intro app_progress_startedI [of _ _ _ _ evs]) simp_all
next
  case (enabled early late d1 e1 e2)
  then show ?thesis using assms app_progress_enabledI [of a' crypto early d0 d1 e1 late e2] by simp
qed

lemma app_progress_quiet:
  "app_progress crypto d0 rs a \<Longrightarrow> aw_driver a' = aw_driver a \<Longrightarrow> aw_main a' = aw_main a \<Longrightarrow>
     aw_events a' = aw_events a \<Longrightarrow> unemitted a' = unemitted a \<Longrightarrow> app_progress crypto d0 rs a'"
  by (rule app_progress_keep) (simp_all add: caused_def)

lemma app_progress_step:
  assumes "app_step crypto a l a'" and "app_progress crypto d0 rs a"
    and "callbacks_made (scan_labels ks) = rs @ entered a"
  shows "\<exists>rs'. app_progress crypto d0 rs' a' \<and> callbacks_made (scan_labels (ks @ [l])) = rs' @ entered a'"
  using assms(1)
proof (cases rule: app_step.cases)
  case (app_flag r d evs)
  have c: "caused a' (es @ evs)" if "caused a es" for es using that app_flag by (auto simp: caused_def unemitted_def)
  have "app_progress crypto d0 (rs @ [r]) a'"
    using assms(2)
  proof (cases rule: app_progressE)
    case (started es)
    then show ?thesis using app_flag(2) c deliver_snoc [OF started(2) app_flag(4)]
      by (intro app_progress_startedI [of _ _ _ _ "es @ evs"]) (simp_all del: deliver.simps)
  next
    case (enabled early late d1 e1 e2)
    show ?thesis using enabled app_flag(2) c [of "e1 @ e2"] deliver_snoc [OF enabled(4) app_flag(4)]
        app_progress_enabledI [of a' crypto early d0 d1 e1 "late @ [r]" "e2 @ evs"]
      by (simp del: deliver.simps)
  qed
  then show ?thesis using app_flag assms(3) by (auto simp: entered_def)
next
  case app_enable
  have c: "caused a' es" if "caused a es" for es using that app_enable by (auto simp: caused_def unemitted_def)
  have "app_progress crypto d0 (rs @ []) a'"
    using assms(2)
  proof (cases rule: app_progressE)
    case (started es)
    then show ?thesis using app_enable(2) c by (intro app_progress_enabledI [of _ _ _ _ "aw_driver a" es _ "[]"]) simp_all
  qed (use app_enable in simp)
  then show ?thesis using assms(3) app_enable by (auto simp: entered_def)
next
  case app_log
  have "caused a' es" if "caused a es" for es
    using that app_log
    by (simp add: caused_def unemitted_def enable_commissioning_def) blast
  then show ?thesis using app_log assms(3) app_progress_keep [OF assms(2), of a'] by (auto simp: entered_def)
next
  case (app_emit e evs)
  then have "caused a' es" if "caused a es" for es
    using that by (auto simp: caused_def unemitted_def) blast
  then show ?thesis using app_emit assms(3) app_progress_keep [OF assms(2), of a'] by (auto simp: entered_def)
qed (use assms(3) app_progress_quiet [OF assms(2), of a'] in \<open>auto simp: unemitted_def entered_def\<close>)

lemma app_progress_steps:
  "app_steps crypto a ls a' \<Longrightarrow> app_progress crypto d0 rs a \<Longrightarrow>
     callbacks_made (scan_labels ks) = rs @ entered a \<Longrightarrow>
     \<exists>rs'. app_progress crypto d0 rs' a' \<and> callbacks_made (scan_labels (ks @ ls)) = rs' @ entered a'"
proof (induction arbitrary: rs ks rule: app_steps.induct)
  case (app_cons a l a1 ls a2)
  then show ?case using app_progress_step [OF app_cons.hyps(1) app_cons.prems] app_cons.IH [of _ "ks @ [l]"]
    by fastforce
qed auto

subsection \<open>The start\<close>

lemma init_ready:
  "scanner_init_impl api cb ctx s = (r, s1, c) \<Longrightarrow> sc_hci_fd s < 0 \<Longrightarrow>
     has_value (fst r) = (0 \<le> sc_hci_fd s1) \<and> sc_callback s1 = cb"
  by (auto simp: scanner_init_impl_def of_error_def of_value_def Let_def split: if_splits prod.splits)

lemma start_result:
  assumes "start_flag api s = Some s1" and "start_create api s1 = (ok, s2)"
  shows "\<exists>r c. scanner_start_scan_impl api s = (r, s2, c) \<and> has_value (fst r) = ok"
  using assms
  by (auto simp: start_flag_def start_create_def scanner_start_scan_impl_def of_error_def of_value_def Let_def
      split: if_splits prod.splits)

definition start_labels :: "hci_api \<Rightarrow> u64 \<Rightarrow> scan_label list" where
  "start_labels api ptr = [OwnInit api (Some ''advertisement_cb'') ptr, OwnStart api, OwnCreate]"

text \<open>The steps of \<open>run_impl\<close> that leave a scan thread behind are a successful start.\<close>

lemma start_steps_run:
  assumes "scan_run (new_world fds) (start_labels api ptr) w" and "w_thread w = ThHead"
  obtains r1 s1 c1 r2 c2 where
    "ble_init (scanner_init_impl api) (Some ''advertisement_cb'') ptr new_scanner = (r1, s1, c1)"
    "has_value (fst r1)"
    "ble_start_scan (scanner_start_scan_impl api) s1 = (r2, w_obj w, c2)" "has_value (fst r2)"
    "sc_callback (w_obj w) = Some ''advertisement_cb''"
proof -
  obtain w1 w2 where st: "scan_step (new_world fds) (OwnInit api (Some ''advertisement_cb'') ptr) w1"
    "scan_step w1 (OwnStart api) w2" "scan_step w2 OwnCreate w"
    using assms(1) by (auto simp: start_labels_def elim!: run_consE run_nilE)
  obtain r1 s1 c1 where i: "scanner_init_impl api (Some ''advertisement_cb'') ptr new_scanner = (r1, s1, c1)"
    and w1: "w_obj w1 = s1" "w_thread w1 = ThNone" "w_owner w1 = OwnIdle"
    using st(1) by (auto simp: new_world_def elim!: scan_stepE)
  obtain s2 where f: "start_flag api s1 = Some s2" and w2: "w_obj w2 = s2" "w_thread w2 = ThNone"
      "w_owner w2 = OwnStarting api"
    using st(2,3) w1 by (auto elim!: scan_stepE)
  have c: "start_create api s2 = (True, w_obj w)"
    using st(3) w2 assms(2) by (auto elim!: scan_stepE)
  have "sc_hci_fd s1 \<ge> 0" using f by (auto simp: start_flag_def split: if_splits)
  then have v: "has_value (fst r1)" "sc_callback s1 = Some ''advertisement_cb''"
    using init_ready [OF i] by (simp_all add: new_scanner_def)
  obtain r2 c2 where r2: "scanner_start_scan_impl api s1 = (r2, w_obj w, c2)" "has_value (fst r2)"
    using start_result [OF f c] by auto
  have "sc_callback (w_obj w) = Some ''advertisement_cb''"
    using start_create_thread(3) [OF c] start_flag_keeps [OF f] v(2) by simp
  with i v r2 show thesis by (intro that [of r1 s1 c1 r2 c2]) (simp_all add: ble_init_def ble_start_scan_def)
qed

definition app_world_started :: "scan_world \<Rightarrow> app_world" where
  "app_world_started w = \<lparr>aw_scan = w, aw_driver = fst (driver_init (new_driver app_callbacks)),
     aw_events = [], aw_call = NoCall, aw_main = MainStarted\<rparr>"

lemma start_progress:
  "app_steps crypto (app_world_started w) ls a \<Longrightarrow>
     \<exists>rs. app_progress crypto (fst (driver_init (new_driver app_callbacks))) rs a \<and>
       callbacks_made (scan_labels ls) = rs @ entered a"
  using app_progress_steps [of crypto "app_world_started w" ls a _ "[]" "[]"]
  by (simp add: app_world_started_def app_progress_def unemitted_def entered_def)

lemma app_run_succeeds:
  assumes "ble_init init_impl (Some ''advertisement_cb'') ptr sc0 = (r1, s1, c1)" and "has_value (fst r1)"
    and "ble_start_scan start_impl s1 = (r2, s2, c2)" and "has_value (fst r2)"
    and "deliver crypto early (fst (driver_init (new_driver app_callbacks))) = Some (d, [])"
  shows "\<exists>log calls. app_run init_impl start_impl dtor sc0 crypto ptr early =
    Some (Some (fst (enable_commissioning d)), s2, log, calls)"
  using assms
  by (simp add: app_run_def driver_init_def of_value_def Let_def enable_commissioning_def app_event_def)


lemma init_events: "deliver crypto rs (fst (driver_init (new_driver app_callbacks))) = Some (d, evs) \<Longrightarrow>
    d = fst (driver_init (new_driver app_callbacks)) \<and> evs = []"
  using deliver_closed [of "fst (driver_init (new_driver app_callbacks))" crypto rs d evs]
  by (simp add: driver_init_def new_driver_def map_replicate_const)

lemma thread_stays:
  "scan_run w ls w' \<Longrightarrow> list_all (\<lambda>l. background l \<or> (\<exists>r. l = ThCall r)) ls \<Longrightarrow> w_thread w \<noteq> ThNone \<Longrightarrow>
     w_thread w' \<noteq> ThNone \<and> list_all no_init ls"
  by (induction rule: scan_run.induct) (auto simp: background_def no_init_def elim!: scan_stepE split: if_splits)

lemma reachable_deliver:
  "reachable app_callbacks d \<Longrightarrow> deliver crypto rs d = Some (d', evs) \<Longrightarrow> reachable app_callbacks d'"
  unfolding deliver_run by (rule reachable_run)

subsection \<open>The two threads against the sequential program\<close>

text \<open>What the scan thread has called and has still to call is what it has read.\<close>

lemma app_steps_dispatch:
  assumes "app_steps crypto a ls a'" and "scan_inv (aw_scan a)" and "w_thread (aw_scan a) \<noteq> ThNone"
    and "sc_callback (w_obj (aw_scan a)) = cb"
  shows "callbacks_made (scan_labels ls) @ pending cb (w_thread (aw_scan a')) =
    pending cb (w_thread (aw_scan a)) @ concat (map (reports_of cb) (packets_read (scan_labels ls)))"
proof -
  note run = app_steps_scan [OF assms(1)]
  show ?thesis
    using thread_dispatches [OF run assms(2)] thread_stays [OF run app_steps_labels [OF assms(1)] assms(3)]
      assms(3,4) by blast
qed

text \<open>
  C12: The concurrent application is the sequential model. From a successful start, in every
  interleaving of the application thread, the scan thread and the arriving packets, also in the
  middle of a call of the driver and between the two halves of \<open>enable_commissioning\<close>: the driver
  and what it causes are those of \<open>app_run\<close> with the reports it took before commissioning was
  enabled, and of delivering those it took after that, one by one; the only trace of the
  interleaving is where among these events the line of \<open>enable_commissioning\<close> stands. The reports
  are, in order, those of the packets read so far, short of the ones still to be delivered. So the
  driver stays in a state it can reach and every property of its runs holds here.
\<close>

theorem app_threads_sequential:
  assumes "scan_run (new_world {}) (start_labels api ptr) w" and "w_thread w = ThHead"
    and "app_steps crypto (app_world_started w) ls a" and "aw_main a = MainReady"
  shows "\<exists>early late drv log calls evs evs'.
    app_start api crypto ptr early = Some (Some (drv, w_obj w), log, calls) \<and>
    deliver crypto late drv = Some (aw_driver a, evs @ evs' @ unemitted a) \<and>
    aw_events a = evs @ Logged (LOGGER_NOTICE ''EnOcean commissioning enabled'' []) # evs' \<and>
    (early @ late) @ entered a @ pending (Some ''advertisement_cb'') (w_thread (aw_scan a)) =
      concat (map (reports_of (Some ''advertisement_cb'')) (packets_read (scan_labels ls))) \<and>
    reachable app_callbacks (aw_driver a)"
proof -
  let ?d0 = "fst (driver_init (new_driver app_callbacks))"
  obtain r1 s1 c1 r2 c2 where S:
    "ble_init (scanner_init_impl api) (Some ''advertisement_cb'') ptr new_scanner = (r1, s1, c1)"
    "has_value (fst r1)" "ble_start_scan (scanner_start_scan_impl api) s1 = (r2, w_obj w, c2)"
    "has_value (fst r2)" "sc_callback (w_obj w) = Some ''advertisement_cb''"
    by (rule start_steps_run [OF assms(1,2)])
  obtain early late d1 e1 e2 where D: "callbacks_made (scan_labels ls) = (early @ late) @ entered a"
    "deliver crypto early ?d0 = Some (d1, e1)"
    "deliver crypto late (fst (enable_commissioning d1)) = Some (aw_driver a, e2)"
    "caused a (e1 @ e2)"
    using start_progress [OF assms(3)] assms(4) by (auto simp: app_progress_def)
  have e: "d1 = ?d0" "e1 = []" using init_events [OF D(2)] by auto
  obtain l1 l2 where L: "aw_events a = l1 @ Logged (LOGGER_NOTICE ''EnOcean commissioning enabled'' []) # l2"
    "l1 @ l2 @ unemitted a = e2"
    using D(4) assms(4) e by (auto simp: caused_def)
  let ?d2 = "fst (enable_commissioning ?d0)"
  obtain log calls where R: "app_run (scanner_init_impl api) (scanner_start_scan_impl api) (scanner_dtor api)
      new_scanner crypto ptr early = Some (Some ?d2, w_obj w, log, calls)"
    using app_run_succeeds [OF S(1-4), of crypto early d1 "scanner_dtor api"] D(2) e by auto
  then have start: "app_start api crypto ptr early = Some (Some (?d2, w_obj w), log, calls)"
    and "reachable app_callbacks ?d2"
    using app_run_started [OF R] by (auto simp: app_start_def)
  then have r: "reachable app_callbacks (aw_driver a)" using reachable_deliver D(3) e by blast
  have "scan_inv w" using scan_run_inv [OF assms(1) new_world_inv] by simp
  then have "callbacks_made (scan_labels ls) @ pending (Some ''advertisement_cb'') (w_thread (aw_scan a)) =
      concat (map (reports_of (Some ''advertisement_cb'')) (packets_read (scan_labels ls)))"
    using app_steps_dispatch [OF assms(3)] assms(2) S(5) by (simp add: app_world_started_def)
  with start D e L r show ?thesis
    by (intro exI [of _ early] exI [of _ late] exI [of _ ?d2] exI [of _ log] exI [of _ calls] exI [of _ l1]
        exI [of _ l2] conjI) simp_all
qed

text \<open>The steps as a function, for examples.\<close>

fun app_exec :: "crypto_impl \<Rightarrow> app_world \<Rightarrow> app_label \<Rightarrow> app_world option" where
  "app_exec crypto a (AppScan (ThCall r)) =
     (if aw_call a = NoCall
      then map_option (\<lambda>w. a\<lparr>aw_scan := w, aw_call := Entered r\<rparr>) (scan_exec (aw_scan a) (ThCall r))
      else None)"
| "app_exec crypto a (AppScan l) =
     (if background l \<and> (aw_call a = NoCall \<or> arrival l)
      then map_option (\<lambda>w. a\<lparr>aw_scan := w\<rparr>) (scan_exec (aw_scan a) l) else None)"
| "app_exec crypto a AppFlag =
     (case aw_call a of
        Entered r \<Rightarrow> map_option (\<lambda>(d, evs). a\<lparr>aw_driver := d, aw_call := Emitting evs\<rparr>)
          (deliver crypto [r] (aw_driver a))
      | _ \<Rightarrow> None)"
| "app_exec crypto a AppEmit =
     (case aw_call a of
        Emitting (e # evs) \<Rightarrow> Some (a\<lparr>aw_events := aw_events a @ [e], aw_call := Emitting evs\<rparr>)
      | _ \<Rightarrow> None)"
| "app_exec crypto a AppReturn = (if aw_call a = Emitting [] then Some (a\<lparr>aw_call := NoCall\<rparr>) else None)"
| "app_exec crypto a AppEnable =
     (if aw_main a = MainStarted
      then Some (a\<lparr>aw_driver := fst (enable_commissioning (aw_driver a)), aw_main := MainLogging\<rparr>)
      else None)"
| "app_exec crypto a AppLog =
     (if aw_main a = MainLogging
      then Some (a\<lparr>aw_events := aw_events a @ snd (enable_commissioning (aw_driver a)), aw_main := MainReady\<rparr>)
      else None)"

fun app_execs :: "crypto_impl \<Rightarrow> app_world \<Rightarrow> app_label list \<Rightarrow> app_world option" where
  "app_execs crypto a [] = Some a"
| "app_execs crypto a (l # ls) =
     (case app_exec crypto a l of None \<Rightarrow> None | Some a1 \<Rightarrow> app_execs crypto a1 ls)"

lemma app_exec_step: "app_exec crypto a l = Some a' \<Longrightarrow> app_step crypto a l a'"
  by (induction crypto a l rule: app_exec.induct)
    (auto intro: app_step.intros scan_exec_step split: if_splits option.splits prod.splits app_call.splits list.splits
      simp del: deliver.simps scan_exec.simps)

lemma app_execs_steps: "app_execs crypto a ls = Some a' \<Longrightarrow> app_steps crypto a ls a'"
  by (induction ls arbitrary: a) (auto split: option.splits intro: app_steps.intros app_exec_step)

text \<open>
  A schedule in which a packet arrives and commissioning is enabled in the middle of the call for
  it, and its line is printed after the next packet has been read.
\<close>

definition schedule_app :: "app_label list" where
  "schedule_app = map AppScan [ThStep, ThStep, EnvArrive 5 example_packet, ThPacket example_packet, ThStep,
       ThCall example_report] @ [AppEnable, AppFlag, AppReturn] @
     map AppScan [EnvArrive 5 example_packet, ThStep, ThStep, ThStep, ThPacket example_packet, ThStep] @ [AppLog]"

theorem app_threads_sequential_witness:
  "\<exists>w a. app_steps example_backend (app_world_started w) schedule_app a \<and> reachable app_callbacks (aw_driver a) \<and>
     (\<exists>early late. (early @ late) @ entered a @ pending (Some ''advertisement_cb'') (w_thread (aw_scan a)) =
        concat (map (reports_of (Some ''advertisement_cb'')) [example_packet, example_packet]))"
proof -
  have "map_option w_thread (scan_execs (new_world {}) (start_labels example_hci 64)) = Some ThHead" by code_simp
  then obtain w where w: "scan_execs (new_world {}) (start_labels example_hci 64) = Some w" "w_thread w = ThHead"
    by auto
  have "map_option aw_main (Option.bind (scan_execs (new_world {}) (start_labels example_hci 64))
      (\<lambda>w. app_execs example_backend (app_world_started w) schedule_app)) = Some MainReady" by code_simp
  then obtain a where a: "app_execs example_backend (app_world_started w) schedule_app = Some a" "aw_main a = MainReady"
    using w(1) by auto
  have "packets_read (scan_labels schedule_app) = [example_packet, example_packet]"
    by (simp add: schedule_app_def example_packet_def)
  then show ?thesis
    using app_threads_sequential [OF scan_execs_run [OF w(1)] w(2) app_execs_steps [OF a(1)] a(2)]
      app_execs_steps [OF a(1)] by metis
qed

end
