(* ===== verification/Enocean_Runs.thy ===== *)
theory Enocean_Runs
  imports Enocean_Safety Enocean_Reference
begin

text \<open>
  More of what holds in every run of the driver (src/enocean/EnoceanDriver.ipp): the types and
  ranges of everything it hands to the application, independence of devices from the order in
  which their advertisements arrive, repeated advertisements, and the table once it is full.
\<close>

subsection \<open>Types and ranges of the reports\<close>

text \<open>
  The ranges the fields of a report can have, where they are narrower than those of their C++
  types. They are those of the encoding: nothing checks that a humidity or an energy level, which
  \<open>SensorData\<close> documents in per cent, is at most 100 (\<open>percentages_unchecked\<close>).
\<close>

definition opt_all :: "('a \<Rightarrow> bool) \<Rightarrow> 'a option \<Rightarrow> bool" where
  "opt_all p x = (case x of None \<Rightarrow> True | Some v \<Rightarrow> p v)"

definition axis_ok :: "i16 option \<Rightarrow> bool" where
  "axis_ok x = opt_all (\<lambda>v. sint v \<in> {-512..511}) x"

definition report_typed :: "SensorData \<Rightarrow> bool" where
  "report_typed d \<longleftrightarrow>
     opt_all (\<lambda>h. h \<le> 127) (humidity d) \<and>
     axis_ok (accel_x_cg d) \<and> axis_ok (accel_y_cg d) \<and> axis_ok (accel_z_cg d) \<and>
     opt_all (\<lambda>st. st \<le> 3) (accel_status d) \<and>
     (accel_status d = None \<longleftrightarrow> accel_x_cg d = None) \<and>
     (accel_status d = None \<longleftrightarrow> accel_y_cg d = None) \<and>
     (accel_status d = None \<longleftrightarrow> accel_z_cg d = None)"

definition event_typed :: "driver_event \<Rightarrow> bool" where
  "event_typed e = (case e of
     Logged l \<Rightarrow> True
   | CallButton f d a b opt \<Rightarrow>
       dev_type d = Switch \<and> detect_device_type (dev_addr d) = Switch \<and> b \<le> 15 \<and> opt_all (\<lambda>bs. length bs \<in> {1, 2, 4}) opt
   | CallSensor f d rep opt \<Rightarrow>
       dev_type d \<noteq> Switch \<and> detect_device_type (dev_addr d) = dev_type d \<and> report_typed rep \<and> opt = None
   | CallCommissioned f d \<Rightarrow> active d \<and> detect_device_type (dev_addr d) = dev_type d)"

lemma opt_all_simps [simp]: "opt_all p None" "opt_all p (Some v) = p v"
  by (simp_all add: opt_all_def)

lemma axis_range: "axis_ok (Some (word_of_int (uint (w AND 0x3FF) - 512)))" for w :: u32
proof -
  have "uint (w AND 0x3FF) = uint w mod 1024"
    using take_bit_eq_mask [of 10 "uint w"]
    by (simp add: unsigned_and_eq mask_eq_exp_minus_1 take_bit_eq_mod)
  moreover have "sint (word_of_int k :: i16) = k" if "-512 \<le> k" "k \<le> 511" for k
    using that by (simp add: sint_sbintrunc' signed_take_bit_int_eq_self)
  moreover have "-512 \<le> uint w mod 1024 - 512" "uint w mod 1024 - 512 \<le> 511" by simp_all
  ultimately show ?thesis unfolding axis_ok_def opt_all_simps atLeastAtMost_iff by presburger
qed

lemma status_range: "(ucast (drop_bit 30 w) :: u8) \<le> 3" for w :: u32
proof -
  have "unat w < 2 ^ 32" using unsigned_less [of w] by simp
  moreover have "unat (drop_bit 30 w) = unat w div 2 ^ 30"
    unfolding unat_drop_bit_eq by (rule drop_bit_eq_div)
  ultimately have "unat (drop_bit 30 w) \<le> 3" by simp
  then show ?thesis by (simp add: word_le_nat_alt unsigned_ucast_eq take_bit_nat_eq_self)
qed

lemma humidity_range: "(ucast ((w AND 0xFF) div 2) :: u8) \<le> 127" for w :: u32
proof -
  have "w AND 0xFF \<le> 0xFF" by (rule word_and_le1)
  then have "unat (w AND 0xFF) \<le> 255" by (simp add: word_le_nat_alt)
  then have "unat ((w AND 0xFF) div 2) \<le> 127" by (simp only: unat_div) simp
  then show ?thesis by (simp add: word_le_nat_alt unsigned_ucast_eq take_bit_nat_eq_self)
qed

lemma apply_tlv_typed: "report_typed d \<Longrightarrow> report_typed (apply_tlv ty n v d)"
  using axis_range [of "drop_bit 20 v"] axis_range [of "drop_bit 10 v"] axis_range [of v]
    status_range [of v] humidity_range [of v]
  by (auto simp: report_typed_def apply_tlv_def)

lemma read_report_typed: "report_typed d \<Longrightarrow> report_typed (read_report bs d)"
  unfolding read_report_def
  by (rule fold_invariant [where Q = "\<lambda>x. True"]) (auto simp: apply_tlv_typed)

lemma sensor_report_typed: "report_typed (sensor_report body)"
proof -
  have "sensor_report body = read_report body empty_sensor_data"
    using sensor_report [of body] parse_tlv_reference [of body 0 empty_sensor_data] by simp
  moreover have "report_typed empty_sensor_data"
    by (simp add: report_typed_def empty_sensor_data_def axis_ok_def)
  ultimately show ?thesis by (simp add: read_report_typed)
qed

lemma percentages_unchecked:
  "humidity (sensor_report [0x06, 0xFF]) = Some 127" "energy_lvl (sensor_report [0x02, 0xFF]) = Some 127"
  "energy_lvl (sensor_report [0x42, 0xFF, 0x01]) = Some 255"
proof -
  have "tlv_values [0x06, 0xFF] = [(0x06, [0xFF])]" "tlv_values [0x02, 0xFF] = [(0x02, [0xFF])]"
    "tlv_values [0x42, 0xFF, 0x01] = [(0x02, [0xFF, 0x01])]"
    by code_simp+
  then show "humidity (sensor_report [0x06, 0xFF]) = Some 127" "energy_lvl (sensor_report [0x02, 0xFF]) = Some 127"
    "energy_lvl (sensor_report [0x42, 0xFF, 0x01]) = Some 255"
    by (simp_all add: sensor_report_measured measured_def last_value_def)
qed

lemma switch_buttons_range: "switch_buttons st \<le> 15"
  unfolding switch_buttons_def using word_and_le1 [of "drop_bit 1 st" "0x0F"] by simp

text \<open>The type of a device is the one its address shows.\<close>

definition types_ok :: "EnoceanDevice list \<Rightarrow> bool" where
  "types_ok devs \<longleftrightarrow> (\<forall>addr d. table_map devs addr = Some d \<longrightarrow> dev_type d = detect_device_type addr)"

lemma process_typed:
  assumes ok: "table_ok (drv_devices drv)" and ty: "types_ok (drv_devices drv)"
    and x: "process_advertisement crypto drv addr aty adv rssi data = Some (drv', evs)"
  shows "types_ok (drv_devices drv') \<and> (\<forall>e \<in> set evs. event_typed e)"
  using ok x
proof (cases rule: process_cases)
  case (handled p d ret d' devs)
  have "table_map (drv_devices drv) addr = Some d"
    using handled(1,2) by (simp add: relevant_def table_map_def)
  then have kind: "detect_device_type addr = dev_type d" using ty unfolding types_ok_def by metis
  then have "types_ok devs"
    using ty table_map_store [OF ok handled(8,9,11)] handled(7,10) by (simp add: types_ok_def)
  moreover have "event_typed e" if "e \<in> set evs" for e
    using handled(3,6) that
    by (rule handler_events)
      (auto simp: kind event_typed_def handled switch_buttons_range sensor_report_typed opt_all_def
        split: option.splits)
  ultimately show ?thesis by (simp add: handled(12))
next
  case (commissioned p s key devs)
  then have "types_ok devs"
    using ty table_map_store [OF ok commissioned(5) _ commissioned(6)]
    by (simp add: types_ok_def new_device_def)
  then show ?thesis
    using commissioned
    by (auto simp: event_typed_def commissioned_log_def call_if_def new_device_def)
qed (use ty in \<open>auto simp: event_typed_def full_log_def\<close>)

lemma exec_typed:
  assumes "table_ok (drv_devices drv)" "types_ok (drv_devices drv)" "exec_op op drv = Some (drv', evs)"
  shows "types_ok (drv_devices drv') \<and> (\<forall>e \<in> set evs. event_typed e)"
proof (cases op)
  case OpInit
  have "map (\<lambda>dev. default_device) (drv_devices drv) = replicate (length (drv_devices drv)) default_device"
    by (simp add: map_replicate_const)
  then show ?thesis
    using assms(3) by (auto simp: OpInit driver_init_def types_ok_def event_typed_def)
next
  case (OpAdvertise crypto addr aty adv rssi data)
  then show ?thesis using process_typed [OF assms(1,2)] assms(3) by simp
qed (use assms in \<open>auto simp: enable_commissioning_def disable_commissioning_def event_typed_def\<close>)

lemma reachable_types_ok: "reachable cbs drv \<Longrightarrow> types_ok (drv_devices drv)"
proof (induction rule: reachable.induct)
  case (reachable_step drv x drv' evs)
  then show ?case using exec_typed [OF reachable_table_ok] by blast
qed (simp add: new_driver_def types_ok_def)

text \<open>
  C9: Everything the driver hands to the application is well typed, in every run: the device of a
  button report is a switch and the one of a sensor report is not, by its stored type and by its
  address; button bits are four bits, optional data has 1, 2 or 4 bytes; an acceleration is between
  -512 and 511 with a status of at most 3, and status and axes come together; a humidity is at most
  127. The other measurements have no range but that of their C++ types, the energy level too.
  Every device in the table has the type of its address.
\<close>

theorem run_well_typed:
  assumes "reachable cbs drv" and "run ops drv = Some (drv', evs)"
  shows "(\<forall>e \<in> set evs. event_typed e) \<and>
    (\<forall>addr d. length addr = 6 \<longrightarrow> lookup (drv_devices drv') addr = Some d \<longrightarrow>
       dev_type d = detect_device_type addr)"
proof -
  have "\<forall>e \<in> set evs. event_typed e"
    using assms
  proof (induction ops arbitrary: drv evs)
    case (Cons x xs)
    obtain drv1 evs1 evs2 where r: "exec_op x drv = Some (drv1, evs1)" "run xs drv1 = Some (drv', evs2)"
      "evs = evs1 @ evs2"
      using Cons.prems(2) by (auto split: bind_splits)
    show ?case
      using exec_typed [OF reachable_table_ok reachable_types_ok r(1)] Cons.prems(1)
        Cons.IH [OF reachable_step [OF Cons.prems(1) r(1)] r(2)]
      by (auto simp: r(3))
  qed simp
  moreover have "types_ok (drv_devices drv')"
    using reachable_types_ok [OF reachable_run [OF assms]] .
  ultimately show ?thesis by (simp add: types_ok_def table_map_def size_constants)
qed

theorem run_well_typed_witness:
  "\<exists>drv' evs. run [example_press 42 [9, 9, 9, 9]] example_driver = Some (drv', evs) \<and>
     evs \<noteq> [] \<and> (\<forall>e \<in> set evs. event_typed e)"
proof -
  have "map_option (\<lambda>(d, es). es \<noteq> []) (run [example_press 42 [9, 9, 9, 9]] example_driver) = Some True"
    by code_simp
  then obtain drv' evs where r: "run [example_press 42 [9, 9, 9, 9]] example_driver = Some (drv', evs)" "evs \<noteq> []"
    by auto
  from run_well_typed [OF example_reachable r(1)] r show ?thesis by blast
qed

subsection \<open>Devices do not notice each other\<close>

text \<open>The advertisements of one address, and the events that report on it.\<close>

fun comes_from :: "u8 list \<Rightarrow> driver_op \<Rightarrow> bool" where
  "comes_from a (OpAdvertise crypto addr aty adv rssi data) \<longleftrightarrow> addr = a"
| "comes_from a _ \<longleftrightarrow> False"

definition reports_on :: "u8 list \<Rightarrow> driver_event \<Rightarrow> bool" where
  "reports_on a e \<longleftrightarrow> (\<exists>d. event_device e = Some d \<and> dev_addr d = a)"

text \<open>Two drivers that agree on one device and on what all devices share.\<close>

definition agree_on :: "u8 list \<Rightarrow> EnoceanDriver \<Rightarrow> EnoceanDriver \<Rightarrow> bool" where
  "agree_on a drv drv2 \<longleftrightarrow> table_ok (drv_devices drv) \<and> table_ok (drv_devices drv2) \<and>
     drv_initialised drv2 = drv_initialised drv \<and> drv_callbacks drv2 = drv_callbacks drv \<and>
     lookup (drv_devices drv) a \<noteq> None \<and> lookup (drv_devices drv2) a = lookup (drv_devices drv) a"

lemma process_irrelevant_any:
  assumes "\<nexists>p. relevant drv addr aty adv data p"
    and "process_advertisement crypto drv addr aty adv rssi data = Some x"
    and "drv_initialised drv2 = drv_initialised drv"
  shows "process_advertisement crypto drv2 addr aty adv rssi data = Some (drv2, [])"
  using assms unfolding process_advertisement_def
  by (auto simp: relevant_def split: if_splits bind_splits)

lemma agree_same:
  assumes ag: "agree_on a drv drv2" and len: "length a = k_addr_len"
    and x: "process_advertisement crypto drv a aty adv rssi data = Some (drv', evs)"
  shows "\<exists>drv2'. process_advertisement crypto drv2 a aty adv rssi data = Some (drv2', evs) \<and> agree_on a drv' drv2'"
proof (cases "\<exists>p. relevant drv a aty adv data p")
  case False
  then have "drv' = drv" "evs = []" using process_irrelevant x by blast+
  then show ?thesis
    using process_irrelevant_any [OF False x, of drv2] ag by (auto simp: agree_on_def)
next
  case True
  then obtain p where r: "relevant drv a aty adv data p" by blast
  have r2: "relevant drv2 a aty adv data p" using r ag by (simp add: relevant_def agree_on_def)
  obtain d where d: "lookup (drv_devices drv) a = Some d" using ag by (auto simp: agree_on_def)
  have d2: "lookup (drv_devices drv2) a = Some d" using d ag by (simp add: agree_on_def)
  have ok: "table_ok (drv_devices drv)" "table_ok (drv_devices drv2)"
    and cb: "drv_callbacks drv2 = drv_callbacks drv" using ag by (auto simp: agree_on_def)
  note D = lookup_SomeD [OF ok(1) len d]
  have okd: "device_ok (d\<lparr>dev_rssi := rssi\<rparr>)" using D(4) by simp
  obtain ret d' evs0 where h: "handler_of d crypto (drv_callbacks drv) (d\<lparr>dev_rssi := rssi\<rparr>) p
      = Some (ret, d', evs0)"
    using handler_returns [OF okd] by blast
  from okd h have d': "dev_addr d' = a" "device_ok d'" "active d'"
    using D okd by (cases rule: handler_outcome; simp)+
  obtain devs where s: "store_device (drv_devices drv) d' = Some devs"
    "drv' = drv\<lparr>drv_devices := devs\<rparr>" "evs = evs0"
    using process_known [OF ok(1) r d h d'(1)] x by auto
  obtain devs2 where s2: "store_device (drv_devices drv2) d' = Some devs2"
    "process_advertisement crypto drv2 a aty adv rssi data = Some (drv2\<lparr>drv_devices := devs2\<rparr>, evs0)"
    using process_known [OF ok(2) r2 d2 h [folded cb] d'(1)] by blast
  have "lookup devs a = Some d'" "lookup devs2 a = Some d'"
    using tab.get_put [OF ok(1) _ s(1)] tab.get_put [OF ok(2) _ s2(1)] d' len by simp_all
  then show ?thesis
    using s s2 ag store_ok [OF ok(1) d'(2,3) s(1)] store_ok [OF ok(2) d'(2,3) s2(1)]
    by (simp add: agree_on_def)
qed

lemma agree_other:
  assumes ag: "agree_on a drv drv2" and len: "length a = k_addr_len"
    and x: "exec_op op drv = Some (drv', evs)" and op: "op \<noteq> OpInit" "\<not> comes_from a op"
  shows "agree_on a drv' drv2 \<and> filter (reports_on a) evs = []"
proof (cases op)
  case (OpAdvertise crypto addr aty adv rssi data)
  have ne: "addr \<noteq> a" using op OpAdvertise by simp
  have ok: "table_ok (drv_devices drv)" using ag by (simp add: agree_on_def)
  have p: "process_advertisement crypto drv addr aty adv rssi data = Some (drv', evs)"
    using x OpAdvertise by simp
  have frame: "lookup devs a = lookup (drv_devices drv) a" "table_ok devs"
    if "store_device (drv_devices drv) d' = Some devs" "dev_addr d' = addr" "device_ok d'" "active d'" for devs d'
    using tab.put_frame [OF ok _ that(1), of a] store_ok [OF ok that(3,4,1)] that ne len by auto
  from ok p show ?thesis
  proof (cases rule: process_cases)
    case (handled q d ret d' devs)
    have "\<not> reports_on a e" if "e \<in> set evs" for e
      using handled(3,6) that by (rule handler_events) (auto simp: reports_on_def handled(7) ne)
    then show ?thesis
      using ag frame [OF handled(11,7,8,9)] by (simp add: agree_on_def handled(12))
  next
    case (commissioned q s key devs)
    then show ?thesis
      using ag frame [OF commissioned(6) _ commissioned(5)] ne
      by (auto simp: agree_on_def reports_on_def commissioned_log_def call_if_def split: option.splits)
  qed (use ag in \<open>auto simp: reports_on_def full_log_def\<close>)
qed (use ag x op(1) in \<open>auto simp: enable_commissioning_def disable_commissioning_def agree_on_def reports_on_def\<close>)

lemma agree_run:
  assumes "agree_on a drv drv2" and "length a = k_addr_len" and "OpInit \<notin> set ops"
    and "run ops drv = Some (drv', evs)"
  shows "\<exists>drv2' evs2. run (filter (comes_from a) ops) drv2 = Some (drv2', evs2) \<and> agree_on a drv' drv2' \<and>
    filter (reports_on a) evs2 = filter (reports_on a) evs"
  using assms
proof (induction ops arbitrary: drv drv2 evs)
  case (Cons x xs)
  obtain drv1 evs1 evs2 where r: "exec_op x drv = Some (drv1, evs1)" "run xs drv1 = Some (drv', evs2)"
    "evs = evs1 @ evs2"
    using Cons.prems(4) by (auto split: bind_splits)
  have ni: "x \<noteq> OpInit" "OpInit \<notin> set xs" using Cons.prems(3) by auto
  show ?case
  proof (cases "comes_from a x")
    case False
    then show ?thesis
      using agree_other [OF Cons.prems(1,2) r(1) ni(1) False] Cons.IH [OF _ Cons.prems(2) ni(2) r(2)] r(3)
      by simp
  next
    case True
    then obtain crypto aty adv rssi data where x: "x = OpAdvertise crypto a aty adv rssi data"
      by (cases x) auto
    obtain drv21 where s: "exec_op x drv2 = Some (drv21, evs1)" "agree_on a drv1 drv21"
      using agree_same [OF Cons.prems(1,2), of crypto aty adv rssi data drv1 evs1] r(1) x by auto
    obtain drv2' e2 where "run (filter (comes_from a) xs) drv21 = Some (drv2', e2)" "agree_on a drv' drv2'"
      "filter (reports_on a) e2 = filter (reports_on a) evs2"
      using Cons.IH [OF s(2) Cons.prems(2) ni(2) r(2)] by blast
    then show ?thesis using True s(1) r(3) by simp
  qed
qed simp

text \<open>
  C8: Devices do not notice each other. In any run without a reset, what becomes of a
  commissioned device and everything that is reported about it are the same as if its own
  advertisements had been the only operations: telegrams of other devices, commissioning of new
  ones, forged traffic and the opening and closing of commissioning mode in between make no
  difference, nor does the order in which they are interleaved.
\<close>

theorem devices_independent:
  assumes "reachable cbs drv" and "OpInit \<notin> set ops" and "run ops drv = Some (drv', evs)"
    and "length addr = 6" and "lookup (drv_devices drv) addr = Some d"
  shows "\<exists>drv2 evs2. run (filter (comes_from addr) ops) drv = Some (drv2, evs2) \<and>
    lookup (drv_devices drv2) addr = lookup (drv_devices drv') addr \<and>
    filter (reports_on addr) evs2 = filter (reports_on addr) evs"
proof -
  have "agree_on addr drv drv" using reachable_table_ok [OF assms(1)] assms(5) by (simp add: agree_on_def)
  from agree_run [OF this _ assms(2,3)] assms(4) show ?thesis
    by (auto simp: agree_on_def size_constants)
qed

theorem devices_independent_witness:
  "\<exists>drv' evs drv2 evs2. run [example_commission 1 (example_addr 8), example_press 42 [9, 9, 9, 9]] example_driver = Some (drv', evs) \<and>
     run [example_press 42 [9, 9, 9, 9]] example_driver = Some (drv2, evs2) \<and>
     lookup (drv_devices drv2) [1, 2, 3, 4, 0xDA, 0x03] = lookup (drv_devices drv') [1, 2, 3, 4, 0xDA, 0x03]"
proof -
  let ?ops = "[example_commission 1 (example_addr 8), example_press 42 [9, 9, 9, 9]]"
  have "run ?ops example_driver \<noteq> None" by code_simp
  then obtain drv' evs where r: "run ?ops example_driver = Some (drv', evs)" by auto
  have l: "lookup (drv_devices example_driver) [1, 2, 3, 4, 0xDA, 0x03] = Some example_switch" by code_simp
  have f: "filter (comes_from [1, 2, 3, 4, 0xDA, 0x03]) ?ops = [example_press 42 [9, 9, 9, 9]]"
    by (simp add: example_commission_def example_press_def example_addr_def)
  have "OpInit \<notin> set ?ops" by (simp add: example_commission_def example_press_def)
  from devices_independent [OF example_reachable this r _ l] r f show ?thesis by auto
qed

subsection \<open>Repeated advertisements\<close>

lemma spec_step_reported:
  assumes "spec_step \<sigma> (OpAdvertise crypto addr aty adv rssi data) vis \<sigma>'"
    and "filter is_data_event vis \<noteq> []"
  shows "\<exists>p s d d'. extract_manufacturer_data data = Some p \<and> read_seq p = Some s \<and>
    known \<sigma> addr = Some d \<and> seq_num d < s \<and> known \<sigma>' addr = Some d' \<and> seq_num d' = s"
  using assms(1)
proof (cases rule: spec_step.cases)
  case (spec_accept d s body tag d')
  then show ?thesis by (auto simp: accepts_def)
qed (use assms(2) in auto)

text \<open>
  An advertisement is reported at most once. BLE repeats every advertisement many times; once
  a telegram has been reported, its repetitions are silent, however much later they come, with
  whatever signal strength, whatever the backend says then, and whatever happened in between
  short of a reset.
\<close>

theorem repetition_silent:
  assumes "reachable cbs drv"
    and "process_advertisement crypto drv addr aty adv rssi data = Some (drv1, evs1)"
    and "filter is_data_event evs1 \<noteq> []"
    and "OpInit \<notin> set ops" and "run ops drv1 = Some (drv2, evs2)"
    and "process_advertisement crypto' drv2 addr aty' adv' rssi' data = Some (drv3, evs3)"
  shows "filter is_data_event evs3 = []"
proof (rule ccontr)
  assume rep: "filter is_data_event evs3 \<noteq> []"
  note R1 = exec_refines [OF reachable_table_ok [OF assms(1)], of "OpAdvertise crypto addr aty adv rssi data", simplified,
      OF assms(2)]
  obtain p s d1 where s: "extract_manufacturer_data data = Some p" "read_seq p = Some s"
    "known (abs_driver drv1) addr = Some d1" "seq_num d1 = s"
    using spec_step_reported [OF conjunct2 [OF R1]] assms(3) by auto
  obtain d2 where d2: "known (abs_driver drv2) addr = Some d2" "s \<le> seq_num d2"
    using run_known [OF conjunct1 [OF R1] assms(4,5) s(3)] s(4) by auto
  note R3 = exec_refines [OF run_table_ok [OF conjunct1 [OF R1] assms(5)],
      of "OpAdvertise crypto' addr aty' adv' rssi' data", simplified, OF assms(6)]
  have "seq_num d2 < s"
    using spec_step_reported [OF conjunct2 [OF R3]] rep s(1,2) d2(1) by auto
  with d2(2) show False by simp
qed

theorem repetition_silent_witness:
  "\<exists>drv1 evs1 drv3 evs3. exec_op (example_press 42 [9, 9, 9, 9]) example_driver = Some (drv1, evs1) \<and>
     filter is_data_event evs1 \<noteq> [] \<and> exec_op (example_press 42 [9, 9, 9, 9]) drv1 = Some (drv3, evs3) \<and>
     filter is_data_event evs3 = []"
proof -
  let ?op = "example_press 42 [9, 9, 9, 9]"
  have "map_option (\<lambda>(d, es). filter is_data_event es \<noteq> []) (exec_op ?op example_driver) = Some True"
    by code_simp
  then obtain drv1 evs1 where a: "exec_op ?op example_driver = Some (drv1, evs1)" "filter is_data_event evs1 \<noteq> []"
    by auto
  have "run [?op, ?op] example_driver \<noteq> None" by code_simp
  then obtain drv3 evs3 where b: "exec_op ?op drv1 = Some (drv3, evs3)" using a(1) by (auto split: bind_splits)
  have "run [] drv1 = Some (drv1, [])" "OpInit \<notin> set ([] :: driver_op list)" by simp_all
  from repetition_silent [OF example_reachable a(1) [unfolded example_press_def exec_op.simps] a(2) this(2,1)
      b [unfolded example_press_def exec_op.simps]] a b
  show ?thesis by blast
qed

subsection \<open>A full table\<close>

lemma spec_step_full:
  assumes "spec_step \<sigma> op vis \<sigma>'" and "op \<noteq> OpInit" and "\<not> card (dom (known \<sigma>)) < k_max_devices"
  shows "dom (known \<sigma>') = dom (known \<sigma>) \<and> filter is_commissioned_event vis = []"
  using assms(1)
proof (cases rule: spec_step.cases)
  case (spec_accept addr d data s body tag crypto d' rssi aty adv)
  have "\<not> is_commissioned_event e" if "is_data_event e" for e using that by (cases e) simp_all
  then show ?thesis using spec_accept by auto
qed (use assms(2,3) in auto)

lemma commissioned_of_visible: "filter is_commissioned_event (visible evs) = filter is_commissioned_event evs"
  by (simp add: visible_def) (rule filter_cong; auto)

lemma run_full:
  assumes "table_ok (drv_devices drv)" and "OpInit \<notin> set ops" and "run ops drv = Some (drv', evs)"
    and "\<not> card (dom (known (abs_driver drv))) < k_max_devices"
  shows "dom (known (abs_driver drv')) = dom (known (abs_driver drv)) \<and> filter is_commissioned_event evs = []"
  using assms
proof (induction ops arbitrary: drv evs)
  case (Cons x xs)
  obtain drv1 evs1 evs2 where r: "exec_op x drv = Some (drv1, evs1)" "run xs drv1 = Some (drv', evs2)"
    "evs = evs1 @ evs2"
    using Cons.prems(3) by (auto split: bind_splits)
  note R = exec_refines [OF Cons.prems(1) r(1)]
  have "dom (known (abs_driver drv1)) = dom (known (abs_driver drv)) \<and> filter is_commissioned_event evs1 = []"
    using spec_step_full [OF conjunct2 [OF R] _ Cons.prems(4)] Cons.prems(2) commissioned_of_visible by auto
  then show ?case
    using Cons.IH [OF conjunct1 [OF R] _ r(2)] Cons.prems(2,4) r(3) by simp
qed simp

text \<open>
  C24: Once the table is full it stays as it is: in every run without a reset from a state with
  eight devices, no device is ever added, announced or replaced, so an unknown device stays
  unknown whatever it sends and however often commissioning is opened.
\<close>

theorem full_table_final:
  assumes "reachable cbs drv" and "device_count drv = 8"
    and "OpInit \<notin> set ops" and "run ops drv = Some (drv', evs)"
  shows "device_count drv' = 8 \<and> filter is_commissioned_event evs = [] \<and>
    (\<forall>addr. length addr = 6 \<longrightarrow>
       (lookup (drv_devices drv') addr = None) = (lookup (drv_devices drv) addr = None))"
proof -
  have ok: "table_ok (drv_devices drv)" "table_ok (drv_devices drv')"
    using reachable_table_ok [OF assms(1)] run_table_ok assms(4) by blast+
  have "\<not> card (dom (known (abs_driver drv))) < k_max_devices"
    using assms(2) by (simp add: abs_driver_def card_table_map [OF ok(1)] device_count_eq size_constants)
  from run_full [OF ok(1) assms(3,4) this]
  have D: "dom (table_map (drv_devices drv')) = dom (table_map (drv_devices drv))"
    "filter is_commissioned_event evs = []"
    by (simp_all add: abs_driver_def)
  have "(lookup (drv_devices drv') addr = None) = (lookup (drv_devices drv) addr = None)"
    if "length addr = 6" for addr
  proof -
    have "(table_map (drv_devices drv') addr = None) = (table_map (drv_devices drv) addr = None)"
      using D(1) by (metis domIff)
    then show ?thesis using that by (simp add: table_map_def size_constants)
  qed
  moreover have "device_count drv' = 8"
    using D(1) assms(2) card_table_map [OF ok(1)] card_table_map [OF ok(2)] by (simp add: device_count_eq)
  ultimately show ?thesis using D(2) by blast
qed

theorem full_table_final_witness:
  "\<exists>drv' evs. run [OpEnable, example_commission 1 (example_addr 8)] example_full = Some (drv', evs) \<and>
     device_count drv' = 8 \<and> lookup (drv_devices drv') (example_addr 8) = None"
proof -
  let ?ops = "OpInit # OpEnable # map (\<lambda>n. example_commission 1 (example_addr n)) [0, 1, 2, 3, 4, 5, 6, 7]"
  have "run ?ops (new_driver example_callbacks) \<noteq> None" by code_simp
  then obtain evs0 where "run ?ops (new_driver example_callbacks) = Some (example_full, evs0)"
    by (auto simp: example_full_def)
  then have r: "reachable example_callbacks example_full" by (rule reachable_run [OF reachable_new])
  let ?more = "[OpEnable, example_commission 1 (example_addr 8)]"
  have facts: "device_count example_full = 8" "lookup (drv_devices example_full) (example_addr 8) = None"
    "length (example_addr 8) = 6"
    by code_simp+
  have "run ?more example_full \<noteq> None" by code_simp
  then obtain drv' evs where x: "run ?more example_full = Some (drv', evs)" by auto
  have "OpInit \<notin> set ?more" by (simp add: example_commission_def)
  from full_table_final [OF r facts(1) this x] facts x show ?thesis by blast
qed

end
