(* ===== verification/Enocean_Trace.thy ===== *)
theory Enocean_Trace
  imports Enocean_Runs
begin

text \<open>
  Everything the driver reports about one device (src/enocean/EnoceanDriver.ipp), as a function of
  its advertisements alone: a reference that knows no table, no other device and no commissioning,
  and the equality with every run of the driver.
\<close>

subsection \<open>The reference\<close>

text \<open>A payload of at least nine bytes as sequence number, body and tag.\<close>

definition split_telegram :: "u8 list \<Rightarrow> (u32 \<times> u8 list \<times> u8 list) option" where
  "split_telegram p =
     (if length p < 9 then None
      else map_option (\<lambda>s. (s, take (length p - 8) (drop 4 p), drop (length p - 4) p)) (read_seq p))"

text \<open>What an operation lets the device at address \<open>a\<close> say.\<close>

fun hears :: "u8 list \<Rightarrow> driver_op \<Rightarrow> (crypto_impl \<times> i8 \<times> u32 \<times> u8 list \<times> u8 list) option" where
  "hears a (OpAdvertise crypto addr aty adv rssi data) =
     (if addr = a \<and> aty = 0x01 \<and> adv = 0x03
      then map_option (\<lambda>(s, body, tag). (crypto, rssi, s, body, tag))
             (Option.bind (extract_manufacturer_data data) split_telegram)
      else None)"
| "hears a _ = None"

definition understood :: "EnoceanDevice \<Rightarrow> u8 list \<Rightarrow> bool" where
  "understood d body \<longleftrightarrow> dev_type d = Switch \<longrightarrow> hd body AND 0xE0 = 0 \<and> length (tl body) \<le> 4"

definition device_report :: "EnoceanCallbacks \<Rightarrow> EnoceanDevice \<Rightarrow> u8 list \<Rightarrow> driver_event list" where
  "device_report cbs d body =
     (if dev_type d = Switch then
        if length (tl body) = 3 then []
        else call_if (button_cb cbs) (\<lambda>f. CallButton f d (if bit (hd body) 0 then Press else Release)
               (drop_bit 1 (hd body) AND 0x0F) (if tl body = [] then None else Some (tl body)))
      else call_if (sensor_cb cbs) (\<lambda>f. CallSensor f d (read_report body empty_sensor_data) None))"

definition device_step :: "EnoceanCallbacks \<Rightarrow> EnoceanDevice \<Rightarrow> driver_op \<Rightarrow> EnoceanDevice \<times> driver_event list" where
  "device_step cbs d op =
     (case hears (dev_addr d) op of
        None \<Rightarrow> (d, [])
      | Some (crypto, rssi, s, body, tag) \<Rightarrow>
          if seq_num d < s \<and> understood d body \<and> authentic crypto d s body tag
          then let d' = d\<lparr>dev_rssi := rssi, seq_num := s\<rparr> in (d', device_report cbs d' body)
          else (d\<lparr>dev_rssi := rssi\<rparr>, []))"

fun device_run :: "EnoceanCallbacks \<Rightarrow> EnoceanDevice \<Rightarrow> driver_op list \<Rightarrow> EnoceanDevice \<times> driver_event list" where
  "device_run cbs d [] = (d, [])"
| "device_run cbs d (op # ops) =
     (let (d1, evs1) = device_step cbs d op; (d2, evs2) = device_run cbs d1 ops in (d2, evs1 @ evs2))"

subsection \<open>The driver computes it\<close>

lemma split_telegram: "body \<noteq> [] \<Longrightarrow> length tag = k_tag_len \<Longrightarrow> split_telegram (telegram s body tag) = Some (s, body, tag)"
  by (cases body) (simp_all add: split_telegram_def telegram_def read_seq_of_bytes size_constants)

lemma split_telegram_short: "length p < k_data_payload_min \<Longrightarrow> split_telegram p = None"
  by (simp add: split_telegram_def payload_constants)

lemma hears_other: "\<not> comes_from a op \<Longrightarrow> hears a op = None"
  by (cases op) auto

lemma sensor_report_read: "sensor_report body = read_report body empty_sensor_data"
  using sensor_report [of body] parse_tlv_reference [of body 0 empty_sensor_data] by simp

lemma handler_step:
  assumes ok: "device_ok d" and tag: "length tag = k_tag_len" and body: "body \<noteq> []"
    and d': "d' = (if seq_num d < s \<and> understood d body \<and> authentic crypto d s body tag
       then d\<lparr>seq_num := s\<rparr> else d)"
  shows "\<exists>ret evs. handler_of d crypto cbs d (telegram s body tag) = Some (ret, d', evs) \<and>
    filter (reports_on (dev_addr d)) evs =
      (if seq_num d < s \<and> understood d body \<and> authentic crypto d s body tag
       then device_report cbs d' body else [])"
proof (cases "dev_type d = Switch")
  case True
  obtain st opt where b: "body = st # opt" using body by (cases body) auto
  show ?thesis
    using True handle_switch_telegram [OF ok tag, of crypto cbs s st opt]
    by (auto simp: b d' handler_of_def understood_def device_report_def call_if_def reports_on_def not_less
        switch_action_def switch_buttons_def k_status_reserved_mask_def split: option.splits)
next
  case False
  show ?thesis
    using False handle_sensor_telegram [OF ok tag body, of crypto cbs s]
    by (auto simp: d' handler_of_def understood_def device_report_def call_if_def reports_on_def not_less
        sensor_packet_log_def sensor_report_read split: option.splits)
qed


lemma process_step:
  assumes ag: "agree_on a drv drv" and len: "length a = k_addr_len" and init: "drv_initialised drv"
    and d: "lookup (drv_devices drv) a = Some d"
    and x: "process_advertisement crypto drv a aty adv rssi data = Some (drv', evs)"
  shows "\<exists>d'. device_step (drv_callbacks drv) d (OpAdvertise crypto a aty adv rssi data) =
      (d', filter (reports_on a) evs) \<and>
    lookup (drv_devices drv') a = Some d' \<and> agree_on a drv' drv' \<and> drv_initialised drv' \<and>
    drv_callbacks drv' = drv_callbacks drv"
proof (cases "\<exists>p. relevant drv a aty adv data p")
  case False
  then have "drv' = drv" "evs = []" using process_irrelevant x by blast+
  moreover have "hears a (OpAdvertise crypto a aty adv rssi data) = None"
    using False init len split_telegram_short
    by (cases "extract_manufacturer_data data")
      (auto simp: relevant_def k_adv_nonconn_ind_def k_addr_random_def not_le)
  ultimately show ?thesis using ag init d lookup_SomeD(2) [OF _ len d]
    by (auto simp: device_step_def agree_on_def)
next
  case True
  then obtain p where r: "relevant drv a aty adv data p" by blast
  have ok: "table_ok (drv_devices drv)" using ag by (simp add: agree_on_def)
  note D = lookup_SomeD [OF ok len d]
  let ?d1 = "d\<lparr>dev_rssi := rssi\<rparr>"
  have ok1: "device_ok ?d1" using D(4) by simp
  obtain s body tag where p: "p = telegram s body tag" "length tag = k_tag_len" "body \<noteq> []"
    using telegram_exists [of p] r by (auto simp: relevant_def)
  define d' where "d' = (if seq_num ?d1 < s \<and> understood ?d1 body \<and> authentic crypto ?d1 s body tag
       then ?d1\<lparr>seq_num := s\<rparr> else ?d1)"
  obtain ret evs0 where h: "handler_of ?d1 crypto (drv_callbacks drv) ?d1 p = Some (ret, d', evs0)"
    "filter (reports_on (dev_addr ?d1)) evs0 =
      (if seq_num ?d1 < s \<and> understood ?d1 body \<and> authentic crypto ?d1 s body tag
       then device_report (drv_callbacks drv) d' body else [])"
    using handler_step [OF ok1 p(2,3) d'_def] p(1) by blast
  have h1: "handler_of d crypto (drv_callbacks drv) ?d1 p = Some (ret, d', evs0)"
    using h(1) by (simp add: handler_of_def)
  have d': "dev_addr d' = a" "device_ok d'" "active d'" using D ok1 by (auto simp: d'_def)
  obtain devs where s: "store_device (drv_devices drv) d' = Some devs"
    "drv' = drv\<lparr>drv_devices := devs\<rparr>" "evs = evs0"
    using process_known [OF ok r d h1 d'(1)] x by auto
  have "lookup devs a = Some d'" using tab.get_put [OF ok _ s(1)] d' len by simp
  moreover have "hears a (OpAdvertise crypto a aty adv rssi data) = Some (crypto, rssi, s, body, tag)"
    using r p by (simp add: relevant_def split_telegram k_adv_nonconn_ind_def k_addr_random_def)
  ultimately show ?thesis
    using s ag store_ok [OF ok d'(2,3) s(1)] init h(2) D
    by (auto simp: device_step_def agree_on_def d'_def understood_def Let_def)
qed

lemma exec_step:
  assumes ag: "agree_on a drv drv" and len: "length a = k_addr_len" and init: "drv_initialised drv"
    and d: "lookup (drv_devices drv) a = Some d" and op: "op \<noteq> OpInit"
    and x: "exec_op op drv = Some (drv', evs)"
  shows "\<exists>d'. device_step (drv_callbacks drv) d op = (d', filter (reports_on a) evs) \<and>
    lookup (drv_devices drv') a = Some d' \<and> agree_on a drv' drv' \<and> drv_initialised drv' \<and>
    drv_callbacks drv' = drv_callbacks drv"
proof (cases "comes_from a op")
  case True
  then obtain crypto aty adv rssi data where o: "op = OpAdvertise crypto a aty adv rssi data"
    by (cases op) auto
  show ?thesis using process_step [OF ag len init d] x by (simp add: o)
next
  case False
  have "hears (dev_addr d) op = None"
    using hears_other [OF False] lookup_SomeD(2) [OF _ len d] ag by (simp add: agree_on_def)
  then show ?thesis
    using agree_other [OF ag len x op False] d init by (auto simp: device_step_def agree_on_def)
qed

lemma run_device:
  assumes "agree_on a drv drv" and "length a = k_addr_len" and "drv_initialised drv"
    and "lookup (drv_devices drv) a = Some d" and "OpInit \<notin> set ops" and "run ops drv = Some (drv', evs)"
  shows "\<exists>d'. device_run (drv_callbacks drv) d ops = (d', filter (reports_on a) evs) \<and>
    lookup (drv_devices drv') a = Some d'"
  using assms
proof (induction ops arbitrary: drv d evs)
  case (Cons op ops)
  obtain drv1 evs1 evs2 where r: "exec_op op drv = Some (drv1, evs1)" "run ops drv1 = Some (drv', evs2)"
    "evs = evs1 @ evs2"
    using Cons.prems(6) by (auto split: bind_splits)
  have ni: "op \<noteq> OpInit" "OpInit \<notin> set ops" using Cons.prems(5) by auto
  obtain d1 where d1: "device_step (drv_callbacks drv) d op = (d1, filter (reports_on a) evs1)"
    "lookup (drv_devices drv1) a = Some d1" "agree_on a drv1 drv1" "drv_initialised drv1"
    "drv_callbacks drv1 = drv_callbacks drv"
    using exec_step [OF Cons.prems(1-4) ni(1) r(1)] by blast
  obtain d2 where "device_run (drv_callbacks drv) d1 ops = (d2, filter (reports_on a) evs2)"
    "lookup (drv_devices drv') a = Some d2"
    using Cons.IH [OF d1(3) Cons.prems(2) d1(4,2) ni(2) r(2)] d1(5) by auto
  then show ?case using d1(1) r(3) by simp
qed simp

subsection \<open>The property\<close>

text \<open>
  C3: Everything about one device. In any run of the driver without a reset - any number of devices,
  any traffic, any interleaving - the reports about a commissioned device and its record at the
  end are those of the reference: it goes through the device's own telegrams in their order and
  reports exactly those that are newer than the last one it took, well formed and confirmed by the
  backend, each with its decoded contents, its sequence number and its signal strength.
\<close>

theorem device_trace_exact:
  assumes "reachable cbs drv" and "drv_initialised drv" and "length addr = 6"
    and "lookup (drv_devices drv) addr = Some d" and "OpInit \<notin> set ops" and "run ops drv = Some (drv', evs)"
  shows "(the (lookup (drv_devices drv') addr), filter (reports_on addr) evs) = device_run cbs d ops \<and>
    lookup (drv_devices drv') addr \<noteq> None"
proof -
  have "agree_on addr drv drv"
    using reachable_table_ok [OF assms(1)] assms(4) by (simp add: agree_on_def)
  from run_device [OF this _ assms(2,4,5,6)] show ?thesis
    using assms(3) reachable_callbacks [OF assms(1)] by (auto simp: size_constants)
qed

theorem device_trace_exact_witness:
  "\<exists>drv' evs. run [example_press 42 [9, 9, 9, 9], example_press 43 [0, 0, 0, 0], example_commission 1 (example_addr 8),
       example_press 42 [9, 9, 9, 9], example_press 44 [9, 9, 9, 9]] example_driver = Some (drv', evs) \<and>
     filter (reports_on [1, 2, 3, 4, 0xDA, 0x03]) evs =
       [CallButton ''on_button'' (example_switch\<lparr>dev_rssi := -60, seq_num := 42\<rparr>) Press 1 None,
        CallButton ''on_button'' (example_switch\<lparr>dev_rssi := -60, seq_num := 44\<rparr>) Press 1 None]"
proof -
  let ?ops = "[example_press 42 [9, 9, 9, 9], example_press 43 [0, 0, 0, 0], example_commission 1 (example_addr 8),
       example_press 42 [9, 9, 9, 9], example_press 44 [9, 9, 9, 9]]"
  have "run ?ops example_driver \<noteq> None" by code_simp
  then obtain drv' evs where r: "run ?ops example_driver = Some (drv', evs)" by auto
  have f: "drv_initialised example_driver"
    "lookup (drv_devices example_driver) [1, 2, 3, 4, 0xDA, 0x03] = Some example_switch"
    "length [1 :: u8, 2, 3, 4, 0xDA, 0x03] = 6"
    "snd (device_run example_callbacks example_switch ?ops) =
       [CallButton ''on_button'' (example_switch\<lparr>dev_rssi := -60, seq_num := 42\<rparr>) Press 1 None,
        CallButton ''on_button'' (example_switch\<lparr>dev_rssi := -60, seq_num := 44\<rparr>) Press 1 None]"
    by code_simp+
  have "OpInit \<notin> set ?ops" by (simp add: example_press_def example_commission_def)
  from device_trace_exact [OF example_reachable f(1,3,2) this r] show ?thesis using r f(4) by (metis snd_conv)
qed

end
