(* ===== verification/App_Trace.thy ===== *)
theory App_Trace
  imports App_Threads Enocean_Trace
begin

text \<open>
  The reference of one device (Enocean_Trace) against the concurrent application (App_Threads):
  what is reported about a device does not depend on how the threads interleave.
\<close>

subsection \<open>The driver stays initialised\<close>

lemma handle_commissioning_initialised:
  "handle_commissioning drv addr aty rssi p = Some (ok, drv', evs) \<Longrightarrow> drv_initialised drv' = drv_initialised drv"
  by (auto simp: handle_commissioning_def Let_def split: if_splits option.splits bind_splits)

lemma process_initialised:
  "process_advertisement crypto drv addr aty adv rssi data = Some (drv', evs) \<Longrightarrow>
     drv_initialised drv' = drv_initialised drv"
  by (auto simp: process_advertisement_def call_handler_def Let_def handle_commissioning_initialised
      split: if_splits option.splits bind_splits)

lemma deliver_initialised:
  "deliver crypto rs drv = Some (drv', evs) \<Longrightarrow> drv_initialised drv' = drv_initialised drv"
proof (induction rs arbitrary: drv evs)
  case (Cons r rs)
  then show ?case by (auto simp: advertisement_cb_def dest!: process_initialised split: bind_splits)
qed simp

lemma app_step_initialised: "app_step crypto a l a' \<Longrightarrow> drv_initialised (aw_driver a') = drv_initialised (aw_driver a)"
  by (cases rule: app_step.cases)
    (auto simp: enable_commissioning_def dest!: deliver_initialised simp del: deliver.simps)

lemma app_steps_initialised:
  "app_steps crypto a ls a' \<Longrightarrow> drv_initialised (aw_driver a') = drv_initialised (aw_driver a)"
  by (induction rule: app_steps.induct) (auto dest: app_step_initialised)

subsection \<open>One step, as the device sees it\<close>

lemma device_run_append:
  "device_run cbs d (xs @ ys) =
     (let (d1, e1) = device_run cbs d xs; (d2, e2) = device_run cbs d1 ys in (d2, e1 @ e2))"
  by (induction xs arbitrary: d) (auto simp: Let_def split: prod.splits)

definition device_seen ::
    "crypto_impl \<Rightarrow> EnoceanCallbacks \<Rightarrow> u8 list \<Rightarrow> app_world \<Rightarrow> adv_report list \<Rightarrow> app_world \<Rightarrow> bool" where
  "device_seen crypto cbs addr a rs a' \<longleftrightarrow>
     (\<exists>d d' new. lookup (drv_devices (aw_driver a)) addr = Some d \<and>
       lookup (drv_devices (aw_driver a')) addr = Some d' \<and>
       device_run cbs d (map (report_op crypto) rs) = (d', new) \<and>
       filter (reports_on addr) (aw_events a' @ unemitted a') =
         filter (reports_on addr) (aw_events a @ unemitted a) @ new)"

lemma device_seen_trans:
  "device_seen crypto cbs addr a rs1 a1 \<Longrightarrow> device_seen crypto cbs addr a1 rs2 a2 \<Longrightarrow>
     device_seen crypto cbs addr a (rs1 @ rs2) a2"
  by (auto simp: device_seen_def device_run_append)

lemma device_seen_same:
  "lookup (drv_devices (aw_driver a)) addr \<noteq> None \<Longrightarrow> aw_driver a' = aw_driver a \<Longrightarrow>
     filter (reports_on addr) (aw_events a' @ unemitted a') = filter (reports_on addr) (aw_events a @ unemitted a) \<Longrightarrow>
     device_seen crypto cbs addr a [] a'"
  by (auto simp: device_seen_def)

definition knows :: "u8 list \<Rightarrow> EnoceanDriver \<Rightarrow> bool" where
  "knows addr drv \<longleftrightarrow> length addr = k_addr_len \<and> agree_on addr drv drv \<and> drv_initialised drv \<and>
     drv_callbacks drv = app_callbacks"

lemma knows_lookup: "knows addr drv \<Longrightarrow> lookup (drv_devices drv) addr \<noteq> None"
  by (simp add: knows_def agree_on_def)

lemma reports_on_enabled [simp]: "\<not> reports_on addr (Logged m)"
  by (simp add: reports_on_def)

lemma app_step_device:
  assumes "app_step crypto a l a'" and "knows addr (aw_driver a)"
  shows "\<exists>rs. entered a @ callbacks_made (scan_labels [l]) = rs @ entered a' \<and>
    device_seen crypto app_callbacks addr a rs a' \<and> knows addr (aw_driver a')"
proof -
  have quiet: ?thesis if "aw_driver a' = aw_driver a" "entered a @ callbacks_made (scan_labels [l]) = entered a'"
    "filter (reports_on addr) (aw_events a' @ unemitted a') = filter (reports_on addr) (aw_events a @ unemitted a)"
    using that assms(2) device_seen_same [OF knows_lookup [OF assms(2)]] by (intro exI [of _ "[]"]) simp
  show ?thesis
    using assms(1)
  proof (cases rule: app_step.cases)
    case (app_flag r d evs)
    have x: "exec_op (report_op crypto r) (aw_driver a) = Some (d, evs)"
      using app_flag(4) by (simp add: deliver_run del: deliver.simps)
    obtain d0 where d0: "lookup (drv_devices (aw_driver a)) addr = Some d0" using knows_lookup [OF assms(2)] by auto
    obtain d1 where "device_step app_callbacks d0 (report_op crypto r) = (d1, filter (reports_on addr) evs)"
      "lookup (drv_devices d) addr = Some d1" "knows addr d"
      using exec_step [OF _ _ _ d0 _ x] assms(2) by (auto simp: knows_def report_op_def)
    then show ?thesis using app_flag d0
      by (intro exI [of _ "[r]"]) (auto simp: entered_def device_seen_def unemitted_def)
  next
    case app_enable
    have "knows addr (aw_driver a')" using assms(2) app_enable
      by (simp add: knows_def agree_on_def enable_commissioning_def)
    then show ?thesis using app_enable knows_lookup [OF assms(2)]
      by (intro exI [of _ "[]"]) (auto simp: entered_def device_seen_def unemitted_def enable_commissioning_def)
  qed (rule quiet; simp add: entered_def unemitted_def enable_commissioning_def split: app_call.split)+
qed

lemma app_steps_device:
  "app_steps crypto a ls a' \<Longrightarrow> knows addr (aw_driver a) \<Longrightarrow>
     \<exists>rs. entered a @ callbacks_made (scan_labels ls) = rs @ entered a' \<and>
       device_seen crypto app_callbacks addr a rs a'"
proof (induction rule: app_steps.induct)
  case (app_nil a)
  then show ?case using device_seen_same [OF knows_lookup, of addr a a] by (intro exI [of _ "[]"]) simp
next
  case (app_cons a l a1 ls a2)
  obtain rs1 where 1: "entered a @ callbacks_made (scan_labels [l]) = rs1 @ entered a1"
    "device_seen crypto app_callbacks addr a rs1 a1" "knows addr (aw_driver a1)"
    using app_step_device [OF app_cons.hyps(1) app_cons.prems] by blast
  obtain rs2 where 2: "entered a1 @ callbacks_made (scan_labels ls) = rs2 @ entered a2"
    "device_seen crypto app_callbacks addr a1 rs2 a2"
    using app_cons.IH [OF 1(3)] by blast
  have "scan_labels (l # ls) = scan_labels [l] @ scan_labels ls" by (simp add: scan_labels_def)
  then have "entered a @ callbacks_made (scan_labels (l # ls)) = (rs1 @ rs2) @ entered a2"
    using 1(1) 2(1) by (metis append.assoc callbacks_made_append)
  then show ?case using device_seen_trans [OF 1(2) 2(2)] by blast
qed

subsection \<open>The property\<close>

lemma start_knows:
  assumes "scan_run (new_world {}) (start_labels api ptr) w" and "w_thread w = ThHead"
    and "app_steps crypto (app_world_started w) ls a" and "length addr = 6"
    and "lookup (drv_devices (aw_driver a)) addr \<noteq> None"
  shows "knows addr (aw_driver a)"
proof -
  let ?d0 = "fst (driver_init (new_driver app_callbacks))"
  obtain rs where "app_progress crypto ?d0 rs a" using start_progress [OF assms(3)] by blast
  then have "reachable app_callbacks (aw_driver a)"
  proof (cases rule: app_progressE)
    case (started evs)
    then show ?thesis using reachable_deliver [OF driver_init_reachable] by blast
  next
    case (enabled early late d1 e1 e2)
    have "reachable app_callbacks (fst (enable_commissioning d1))"
      using reachable_step [OF reachable_deliver [OF driver_init_reachable enabled(3)], of OpEnable]
      by (simp add: enable_commissioning_def)
    then show ?thesis using reachable_deliver enabled(4) by blast
  qed
  moreover have "drv_initialised (aw_driver a)"
    using app_steps_initialised [OF assms(3)] by (simp add: app_world_started_def driver_init_def)
  ultimately show ?thesis
    using assms(4,5) reachable_table_ok reachable_callbacks by (simp add: knows_def agree_on_def size_constants)
qed

lemma scan_run_callback:
  "scan_run w ls w' \<Longrightarrow> list_all no_init ls \<Longrightarrow> sc_callback (w_obj w') = sc_callback (w_obj w)"
  by (induction rule: scan_run.induct) (auto simp: scan_step_callback)

lemma start_scanning:
  assumes "scan_run (new_world {}) (start_labels api ptr) w" and "w_thread w = ThHead"
    and "app_steps crypto (app_world_started w) ls a"
  shows "scan_inv (aw_scan a)" and "w_thread (aw_scan a) \<noteq> ThNone"
    and "sc_callback (w_obj (aw_scan a)) = Some ''advertisement_cb''"
proof -
  have run: "scan_run w (scan_labels ls) (aw_scan a)"
    using app_steps_scan [OF assms(3)] by (simp add: app_world_started_def)
  have i: "scan_inv w" using scan_run_inv [OF assms(1) new_world_inv] by simp
  then show "scan_inv (aw_scan a)" using scan_run_inv [OF run] by blast
  show "w_thread (aw_scan a) \<noteq> ThNone"
    using thread_stays [OF run app_steps_labels [OF assms(3)]] assms(2) by simp
  show "sc_callback (w_obj (aw_scan a)) = Some ''advertisement_cb''"
    using scan_run_callback [OF run] thread_stays [OF run app_steps_labels [OF assms(3)]] assms(2)
      start_steps_run [OF assms(1,2)] by (metis thread_pc.distinct(1))
qed

text \<open>
  C13: Everything about one device, in every interleaving. Take the running program at any moment at
  which a device is known, and any further steps of its threads and of the environment. The
  reports about this device that are caused in between, or are under way at the end, are those of the
  reference of one device over the advertisements in the packets read in between, in their order,
  short of the ones the scan thread has still to deliver; so is its record. No schedule loses,
  repeats, reorders or invents a report.
\<close>

theorem app_device_trace:
  assumes "scan_run (new_world {}) (start_labels api ptr) w" and "w_thread w = ThHead"
    and "app_steps crypto (app_world_started w) ks a" and "length addr = 6"
    and "lookup (drv_devices (aw_driver a)) addr = Some d" and "app_steps crypto a ls a'"
  shows "\<exists>worked d' new.
    worked @ entered a' @ pending (Some ''advertisement_cb'') (w_thread (aw_scan a')) =
      entered a @ pending (Some ''advertisement_cb'') (w_thread (aw_scan a)) @
        concat (map (reports_of (Some ''advertisement_cb'')) (packets_read (scan_labels ls))) \<and>
    device_run app_callbacks d (map (report_op crypto) worked) = (d', new) \<and>
    lookup (drv_devices (aw_driver a')) addr = Some d' \<and>
    filter (reports_on addr) (aw_events a' @ unemitted a') =
      filter (reports_on addr) (aw_events a @ unemitted a) @ new"
proof -
  have "knows addr (aw_driver a)" using start_knows [OF assms(1-4)] assms(5) by simp
  then obtain rs where rs: "entered a @ callbacks_made (scan_labels ls) = rs @ entered a'"
    "device_seen crypto app_callbacks addr a rs a'"
    using app_steps_device [OF assms(6)] by blast
  note S = start_scanning [OF assms(1-3)]
  have "rs @ entered a' @ pending (Some ''advertisement_cb'') (w_thread (aw_scan a')) =
      entered a @ pending (Some ''advertisement_cb'') (w_thread (aw_scan a)) @
        concat (map (reports_of (Some ''advertisement_cb'')) (packets_read (scan_labels ls)))"
    using app_steps_dispatch [OF assms(6) S] rs(1) by (metis append.assoc)
  then show ?thesis using rs(2) assms(5) unfolding device_seen_def by auto
qed

text \<open>Enabled, a switch commissioned, then a press of it in the middle of whose call the run ends.\<close>

definition trace_commission :: "u8 list" where
  "trace_commission = hci_packet \<lparr>ar_addr = example_addr 8, ar_addr_type = 0x01, ar_adv_type = 0x03, ar_rssi = -50,
     ar_data = adv_of (seq_bytes 1 @ replicate 16 7 @ [0, 0])\<rparr>"

definition trace_press :: adv_report where
  "trace_press = \<lparr>ar_addr = example_addr 8, ar_addr_type = 0x01, ar_adv_type = 0x03, ar_rssi = -60,
     ar_data = adv_of (seq_bytes 2 @ [0x03] @ [9, 9, 9, 9])\<rparr>"

definition schedule_commission :: "app_label list" where
  "schedule_commission = [AppScan ThStep, AppEnable, AppScan ThStep, AppScan (EnvArrive 5 trace_commission),
     AppScan (ThPacket trace_commission), AppScan ThStep,
     AppScan (ThCall \<lparr>ar_addr = example_addr 8, ar_addr_type = 0x01, ar_adv_type = 0x03, ar_rssi = -50,
       ar_data = adv_of (seq_bytes 1 @ replicate 16 7 @ [0, 0])\<rparr>), AppFlag, AppEmit]"

definition schedule_press :: "app_label list" where
  "schedule_press = [AppLog, AppEmit, AppReturn, AppScan ThStep, AppScan ThStep, AppScan ThStep,
     AppScan (EnvArrive 5 (hci_packet trace_press)), AppScan (ThPacket (hci_packet trace_press)),
     AppScan ThStep, AppScan (ThCall trace_press), AppFlag]"

text \<open>The two moments: the whole schedule runs, and what the model evaluates to there.\<close>

definition trace_moments :: "(app_world \<times> app_world) option" where
  "trace_moments = do {
     w \<leftarrow> scan_execs (new_world {}) (start_labels example_hci 64);
     a \<leftarrow> app_execs example_backend (app_world_started w) schedule_commission;
     a' \<leftarrow> app_execs example_backend a schedule_press;
     Some (a, a')
   }"

lemma trace_moments_values:
  "map_option (\<lambda>(a, a').
       (map_option seq_num (lookup (drv_devices (aw_driver a)) (example_addr 8)),
        entered a @ entered a', w_thread (aw_scan a), w_thread (aw_scan a'))) trace_moments =
     Some (Some 1, [], ThDispatch [], ThDispatch [])"
  by code_simp

theorem app_device_trace_witness:
  "\<exists>w a a' d. scan_run (new_world {}) (start_labels example_hci 64) w \<and>
     app_steps example_backend (app_world_started w) schedule_commission a \<and>
     app_steps example_backend a schedule_press a' \<and>
     lookup (drv_devices (aw_driver a)) (example_addr 8) = Some d \<and>
     filter (reports_on (example_addr 8)) (aw_events a' @ unemitted a') =
       filter (reports_on (example_addr 8)) (aw_events a @ unemitted a) @
         snd (device_run app_callbacks d [report_op example_backend trace_press])"
proof -
  have "map_option w_thread (scan_execs (new_world {}) (start_labels example_hci 64)) = Some ThHead" by code_simp
  moreover obtain m where m: "trace_moments = Some m" using trace_moments_values by auto
  ultimately obtain w a a' where w: "scan_execs (new_world {}) (start_labels example_hci 64) = Some w" "w_thread w = ThHead"
    and a: "app_execs example_backend (app_world_started w) schedule_commission = Some a"
    and a': "app_execs example_backend a schedule_press = Some a'" and "m = (a, a')"
    by (auto simp: trace_moments_def split: bind_splits)
  then have tm: "trace_moments = Some (a, a')" using m by simp
  obtain d where v: "lookup (drv_devices (aw_driver a)) (example_addr 8) = Some d" "entered a = []" "entered a' = []"
    "w_thread (aw_scan a) = ThDispatch []" "w_thread (aw_scan a') = ThDispatch []"
    using trace_moments_values by (auto simp: tm)
  have "packets_read (scan_labels schedule_press) = [hci_packet trace_press]"
    by (simp add: schedule_press_def hci_packet_def)
  moreover have "reports_of (Some ''advertisement_cb'') (hci_packet trace_press) = [trace_press]" by code_simp
  moreover have "length (example_addr 8) = 6" by code_simp
  ultimately show ?thesis
    using app_device_trace [OF scan_execs_run [OF w(1)] w(2) app_execs_steps [OF a] _ v(1) app_execs_steps [OF a']]
      scan_execs_run [OF w(1)] app_execs_steps [OF a] app_execs_steps [OF a'] v
    by (intro exI [of _ w] exI [of _ a] exI [of _ a'] exI [of _ d]) auto
qed

end
