(* ===== verification/App_Liveness.thy ===== *)
theory App_Liveness
  imports App_Trace
begin

text \<open>
  The running application delivers: what its socket has received is reported after finitely many
  steps of its threads, in every schedule in which no thread is held up for ever.
\<close>

subsection \<open>What cannot be avoided\<close>

text \<open>A step of one of the two threads, without the environment.\<close>

definition own_step :: "crypto_impl \<Rightarrow> app_world \<Rightarrow> app_world \<Rightarrow> bool" where
  "own_step crypto a a' \<longleftrightarrow>
     (\<exists>l. app_step crypto a l a' \<and> l \<noteq> AppScan EnvReadError \<and> (\<forall>fd p. l \<noteq> AppScan (EnvArrive fd p)))"

text \<open>
  Every schedule comes to a state with a property: either it is there, or the threads can go on
  and it is inevitable after each step they can take.
\<close>

inductive inevitably :: "crypto_impl \<Rightarrow> (app_world \<Rightarrow> bool) \<Rightarrow> app_world \<Rightarrow> bool" for crypto P where
  inev_now: "P a \<Longrightarrow> inevitably crypto P a"
| inev_step: "own_step crypto a a1 \<Longrightarrow> (\<And>a'. own_step crypto a a' \<Longrightarrow> inevitably crypto P a') \<Longrightarrow>
    inevitably crypto P a"

text \<open>A property that every step short of the goal keeps, with a step to take and a measure.\<close>

lemma inevitablyI:
  assumes "wf R" and "I a"
    and "\<And>a. I a \<Longrightarrow> P a \<or> (\<exists>a'. own_step crypto a a')"
    and "\<And>a a'. I a \<Longrightarrow> own_step crypto a a' \<Longrightarrow> I a' \<and> (a', a) \<in> R"
  shows "inevitably crypto P a"
  using assms(1,2)
proof (induction a rule: wf_induct_rule)
  case (less a)
  show ?case
  proof (cases "P a")
    case False
    then obtain a1 where "own_step crypto a a1" using assms(3) [OF less.prems] by blast
    then show ?thesis using less assms(4) by (blast intro: inev_step)
  qed (rule inev_now)
qed

subsection \<open>The measure\<close>

text \<open>
  No step of a thread leads further from the end of all work: the application thread's steps, the
  packets in the queue, the place in the loop, the reports to dispatch, the place in a call, its
  events.
\<close>

definition listening_fd :: "app_world \<Rightarrow> int" where
  "listening_fd a = sc_hci_fd (w_obj (aw_scan a))"

fun main_left :: "app_main \<Rightarrow> nat" where
  "main_left MainStarted = 2" | "main_left MainLogging = 1" | "main_left MainReady = 0"

fun loop_left :: "thread_pc \<Rightarrow> nat" where
  "loop_left (ThGot p) = 6" | "loop_left (ThDispatch rs) = 5" | "loop_left ThFailed = 5" | "loop_left ThHead = 4"
| "loop_left ThRead = 3" | "loop_left (ThBlocked fd) = 2" | "loop_left pc = 0"

fun dispatch_left :: "thread_pc \<Rightarrow> nat" where
  "dispatch_left (ThDispatch rs) = length rs" | "dispatch_left pc = 0"

fun call_left :: "app_call \<Rightarrow> nat" where
  "call_left (Entered r) = 2" | "call_left (Emitting evs) = 1" | "call_left NoCall = 0"

definition work_order :: "(app_world \<times> app_world) set" where
  "work_order = measures [\<lambda>a. main_left (aw_main a), \<lambda>a. length (w_queue (aw_scan a) (listening_fd a)),
     \<lambda>a. loop_left (w_thread (aw_scan a)), \<lambda>a. dispatch_left (w_thread (aw_scan a)),
     \<lambda>a. call_left (aw_call a), \<lambda>a. length (unemitted a)]"

lemma wf_work_order: "wf work_order"
  by (simp add: work_order_def)

definition listening :: "app_world \<Rightarrow> bool" where
  "listening a \<longleftrightarrow> sc_running (w_obj (aw_scan a)) \<and> listening_fd a \<in> w_open (aw_scan a) \<and>
     w_thread (aw_scan a) \<noteq> ThNone \<and> w_thread (aw_scan a) \<noteq> ThExit \<and>
     (\<forall>fd. w_thread (aw_scan a) = ThBlocked fd \<longrightarrow> fd = listening_fd a)"

lemma own_stepE:
  assumes "own_step crypto a a'"
  obtains l where "app_step crypto a l a'" "l \<noteq> AppScan EnvReadError" "\<forall>fd p. l \<noteq> AppScan (EnvArrive fd p)"
  using assms by (auto simp: own_step_def)

lemma own_step_listening:
  assumes "own_step crypto a a'" and "listening a"
  shows "listening a' \<and> (a', a) \<in> work_order"
proof -
  obtain l where l: "app_step crypto a l a'" "l \<noteq> AppScan EnvReadError" "\<forall>fd p. l \<noteq> AppScan (EnvArrive fd p)"
    using own_stepE [OF assms(1)] .
  show ?thesis
    using l(1)
  proof (cases rule: app_step.cases)
    case (app_background k w)
    from app_background(3) show ?thesis
      by (cases rule: scan_step.cases)
        (use app_background l assms(2) in \<open>auto simp: listening_def listening_fd_def work_order_def background_def\<close>)
  next
    case (app_callback w r)
    from app_callback(3) show ?thesis
      by (cases rule: scan_step.cases)
        (use app_callback assms(2) in \<open>auto simp: listening_def listening_fd_def work_order_def\<close>)
  qed (use assms(2) in \<open>auto simp: listening_def listening_fd_def work_order_def unemitted_def\<close>)
qed

subsection \<open>What has been received is delivered\<close>

text \<open>The reports the program has received and not worked on: in a call, read, or on the socket.\<close>

definition received :: "app_world \<Rightarrow> adv_report list" where
  "received a = entered a @ pending (sc_callback (w_obj (aw_scan a))) (w_thread (aw_scan a)) @
     concat (map (reports_of (sc_callback (w_obj (aw_scan a)))) (w_queue (aw_scan a) (listening_fd a)))"

lemma reports_of_Nil: "reports_of cb [] = []"
  by (simp add: reports_of_def handle_packet_def)

lemma app_step_received:
  assumes "app_step crypto a l a'" and "\<forall>fd p. l \<noteq> AppScan (EnvArrive fd p)" and "listening a"
    and "entered a @ callbacks_made (scan_labels [l]) = rs @ entered a'"
  shows "received a = rs @ received a'"
  using assms(1)
proof (cases rule: app_step.cases)
  case (app_background k w)
  from app_background(3) show ?thesis
    by (cases rule: scan_step.cases)
      (use app_background assms in \<open>auto simp: received_def listening_def listening_fd_def entered_def reports_of_Nil
         reports_of_eq background_def split: if_splits\<close>)
next
  case (app_callback w r)
  from app_callback(3) show ?thesis
    by (cases rule: scan_step.cases)
      (use app_callback assms in \<open>auto simp: received_def listening_def listening_fd_def entered_def\<close>)
qed (use assms in \<open>auto simp: received_def listening_fd_def entered_def\<close>)

text \<open>Nothing left to do: waiting for a packet, with nothing on the socket.\<close>

definition idle :: "app_world \<Rightarrow> bool" where
  "idle a \<longleftrightarrow> aw_main a = MainReady \<and> aw_call a = NoCall \<and>
     w_thread (aw_scan a) = ThBlocked (listening_fd a) \<and> w_queue (aw_scan a) (listening_fd a) = []"

definition well_formed :: "app_world \<Rightarrow> bool" where
  "well_formed a \<longleftrightarrow> list_all (\<lambda>r. extract_manufacturer_data (ar_data r) \<noteq> None) (received a)"

lemma own_stepI:
  "app_step crypto a l a' \<Longrightarrow> l \<noteq> AppScan EnvReadError \<Longrightarrow> (\<And>fd p. l \<noteq> AppScan (EnvArrive fd p)) \<Longrightarrow>
     own_step crypto a a'"
  by (auto simp: own_step_def)

lemma thread_can_step:
  assumes "listening a" and "aw_call a = NoCall"
    and "\<not> (w_thread (aw_scan a) = ThBlocked (listening_fd a) \<and> w_queue (aw_scan a) (listening_fd a) = [])"
  shows "\<exists>a'. own_step crypto a a'"
proof -
  have bg: ?thesis if "scan_step (aw_scan a) k w" "background k" "k \<noteq> EnvReadError" "\<And>fd p. k \<noteq> EnvArrive fd p" for k w
    using own_stepI [OF app_background [OF that(1,2)]] that(3,4) assms(2) by blast
  show ?thesis
  proof (cases "w_thread (aw_scan a)")
    case (ThBlocked fd)
    then obtain p ps where "w_queue (aw_scan a) fd = p # ps"
      using assms(1,3) by (cases "w_queue (aw_scan a) fd") (auto simp: listening_def)
    then show ?thesis using bg [OF th_packet [OF ThBlocked]] by (simp add: background_def)
  next
    case (ThGot p)
    obtain rs where "handle_packet (sc_callback (w_obj (aw_scan a))) (take k_hci_buf_size p) = Some rs"
      using handle_packet_total by fastforce
    then show ?thesis using bg [OF th_handle [OF ThGot]] by (simp add: background_def)
  next
    case (ThDispatch rs)
    show ?thesis
    proof (cases rs)
      case Nil
      then show ?thesis using bg [OF th_next] ThDispatch by (simp add: background_def)
    next
      case (Cons r rs')
      then have "w_thread (aw_scan a) = ThDispatch (r # rs')" using ThDispatch by simp
      then show ?thesis using own_stepI [OF app_callback [OF th_call assms(2)]] by blast
    qed
  qed (use assms(1) bg [OF th_head] bg [OF th_read] bg [OF th_failed] in \<open>auto simp: listening_def background_def\<close>)
qed

lemma can_step:
  assumes "listening a" and "well_formed a" and "table_ok (drv_devices (aw_driver a))" and "\<not> idle a"
  shows "\<exists>a'. own_step crypto a a'"
proof (cases "aw_call a")
  case (Entered r)
  then have "extract_manufacturer_data (ar_data r) \<noteq> None"
    using assms(2) by (simp add: well_formed_def received_def entered_def)
  then obtain d evs where "process_advertisement crypto (aw_driver a) (ar_addr r) (ar_addr_type r) (ar_adv_type r)
      (ar_rssi r) (ar_data r) = Some (d, evs)"
    using process_defined [OF assms(3)] by fastforce
  then have "deliver crypto [r] (aw_driver a) = Some (d, evs)" by (simp add: advertisement_cb_def)
  then show ?thesis using own_stepI [OF app_flag [OF Entered]] by blast
next
  case (Emitting evs)
  then show ?thesis using own_stepI [OF app_emit] own_stepI [OF app_return] by (cases evs) blast+
next
  case NoCall
  show ?thesis
  proof (cases "aw_main a")
    case MainStarted
    then show ?thesis using own_stepI [OF app_enable] by blast
  next
    case MainLogging
    then show ?thesis using own_stepI [OF app_log] by blast
  next
    case MainReady
    then show ?thesis using thread_can_step [OF assms(1) NoCall] assms(4) NoCall by (auto simp: idle_def)
  qed
qed

subsection \<open>The property\<close>

text \<open>What every step of the threads keeps, once a device is known, with the work done so far.\<close>

definition delivering ::
    "crypto_impl \<Rightarrow> u8 list \<Rightarrow> app_world \<Rightarrow> app_world \<Rightarrow> bool" where
  "delivering crypto addr a0 a \<longleftrightarrow> listening a \<and> well_formed a \<and> knows addr (aw_driver a) \<and>
     (\<exists>rs. received a0 = rs @ received a \<and> device_seen crypto app_callbacks addr a0 rs a)"

lemma own_step_delivering:
  assumes "own_step crypto a a'" and "delivering crypto addr a0 a"
  shows "delivering crypto addr a0 a'"
proof -
  obtain l where l: "app_step crypto a l a'" "\<forall>fd p. l \<noteq> AppScan (EnvArrive fd p)"
    using own_stepE [OF assms(1)] by metis
  obtain rs where rs: "received a0 = rs @ received a" "device_seen crypto app_callbacks addr a0 rs a"
    and d: "listening a" "well_formed a" "knows addr (aw_driver a)"
    using assms(2) by (auto simp: delivering_def)
  obtain rs' where rs': "entered a @ callbacks_made (scan_labels [l]) = rs' @ entered a'"
    "device_seen crypto app_callbacks addr a rs' a'" "knows addr (aw_driver a')"
    using app_step_device [OF l(1) d(3)] by blast
  have r: "received a = rs' @ received a'" using app_step_received [OF l d(1) rs'(1)] .
  then have "well_formed a'" using d(2) by (simp add: well_formed_def)
  moreover have "received a0 = (rs @ rs') @ received a'" using rs(1) r by simp
  ultimately show ?thesis
    using own_step_listening [OF assms(1) d(1)] rs'(3) device_seen_trans [OF rs(2) rs'(2)]
    unfolding delivering_def by blast
qed

lemma start_create_fd: "start_create api s = (ok, s') \<Longrightarrow> sc_hci_fd s' = sc_hci_fd s"
  by (auto simp: start_create_def Let_def split: if_splits prod.splits)

lemma start_open:
  "scan_step w1 (OwnStart api) w2 \<Longrightarrow> w_open w2 = w_open w1" "scan_step w1 OwnCreate w2 \<Longrightarrow> w_open w2 = w_open w1"
  by (auto elim!: scan_stepE)

lemma start_listening:
  assumes "scan_run (new_world {}) (start_labels api ptr) w" and "w_thread w = ThHead"
  shows "listening (app_world_started w)"
proof -
  obtain w1 w2 where st: "scan_step (new_world {}) (OwnInit api (Some ''advertisement_cb'') ptr) w1"
    "scan_step w1 (OwnStart api) w2" "scan_step w2 OwnCreate w"
    using assms(1) by (auto simp: start_labels_def elim!: run_consE run_nilE)
  obtain r1 s1 c1 where i: "scanner_init_impl api (Some ''advertisement_cb'') ptr new_scanner = (r1, s1, c1)"
    and w1: "w_obj w1 = s1" "w_thread w1 = ThNone" "w_owner w1 = OwnIdle"
      "has_value (fst r1) \<Longrightarrow> sc_hci_fd s1 \<in> w_open w1"
    using st(1) by (auto simp: new_world_def elim!: scan_stepE)
  obtain s2 where f: "start_flag api s1 = Some s2" and w2: "w_obj w2 = s2" "w_thread w2 = ThNone"
      "w_owner w2 = OwnStarting api"
    using st(2,3) w1 by (auto elim!: scan_stepE)
  have o: "w_open w = w_open w1" using start_open st(2,3) by metis
  have c: "start_create api s2 = (True, w_obj w)"
    using st(3) w2 assms(2) by (auto elim!: scan_stepE)
  have fd: "sc_hci_fd s2 = sc_hci_fd s1" "sc_hci_fd s1 \<ge> 0" using f by (auto simp: start_flag_def split: if_splits)
  have "sc_hci_fd (w_obj w) = sc_hci_fd s2"
    using start_create_fd [OF c] .
  moreover have "has_value (fst r1)" using init_ready [OF i] fd(2) by (simp add: new_scanner_def)
  ultimately show ?thesis
    using assms(2) start_flag_keeps [OF f] start_create_thread(4) [OF c] fd o w1(4)
    by (simp add: listening_def listening_fd_def app_world_started_def)
qed

lemma app_step_listening: "app_step crypto a l a' \<Longrightarrow> listening a \<Longrightarrow> listening a'"
proof (cases "own_step crypto a a'")
  case False
  assume s: "app_step crypto a l a'" and i: "listening a"
  then have "l = AppScan EnvReadError \<or> (\<exists>fd p. l = AppScan (EnvArrive fd p))" using False own_stepI by blast
  then show ?thesis using s i by (auto simp: listening_def listening_fd_def elim!: app_stepE scan_stepE)
qed (simp add: own_step_listening)

lemma app_steps_listening: "app_steps crypto a ls a' \<Longrightarrow> listening a \<Longrightarrow> listening a'"
  by (induction rule: app_steps.induct) (auto dest: app_step_listening)

text \<open>
  C14: Everything that has arrived is reported. Take the running program at any moment at which a
  device is known, with any packets read and on its socket, none of them with the malformation that
  over-reads. Whatever its threads do in whatever order, after finitely many steps without new
  packets and failing reads the program is ready again, with nothing left to read, to dispatch or
  to print, and has reported about the device exactly what the reference of one device says for all
  that had arrived.
\<close>

theorem app_reports_inevitable:
  assumes "scan_run (new_world {}) (start_labels api ptr) w" and "w_thread w = ThHead"
    and "app_steps crypto (app_world_started w) ks a" and "length addr = 6"
    and "lookup (drv_devices (aw_driver a)) addr = Some d"
    and "list_all (\<lambda>r. extract_manufacturer_data (ar_data r) \<noteq> None) (received a)"
  shows "inevitably crypto (\<lambda>a'. idle a' \<and>
      lookup (drv_devices (aw_driver a')) addr =
        Some (fst (device_run app_callbacks d (map (report_op crypto) (received a)))) \<and>
      filter (reports_on addr) (aw_events a') = filter (reports_on addr) (aw_events a @ unemitted a) @
        snd (device_run app_callbacks d (map (report_op crypto) (received a)))) a"
  (is "inevitably crypto ?P a")
proof (rule inevitablyI [OF wf_work_order, where I = "delivering crypto addr a"])
  have "knows addr (aw_driver a)" using start_knows [OF assms(1-4)] assms(5) by simp
  then show "delivering crypto addr a a"
    using app_steps_listening [OF assms(3) start_listening [OF assms(1,2)]] assms(5,6)
    by (auto simp: delivering_def well_formed_def device_seen_def)
next
  fix a' assume I: "delivering crypto addr a a'"
  show "?P a' \<or> (\<exists>a''. own_step crypto a' a'')"
  proof (cases "idle a'")
    case True
    then have "received a' = []" "unemitted a' = []"
      by (simp_all add: idle_def received_def entered_def unemitted_def)
    then show ?thesis using I True assms(5) by (auto simp: delivering_def device_seen_def)
  next
    case False
    then show ?thesis using I can_step [of a' crypto] by (auto simp: delivering_def knows_def agree_on_def)
  qed
next
  fix a1 a2 assume I: "delivering crypto addr a a1" and s: "own_step crypto a1 a2"
  then have "listening a1" by (simp add: delivering_def)
  then show "delivering crypto addr a a2 \<and> (a2, a1) \<in> work_order"
    using own_step_delivering [OF s I] own_step_listening [OF s] by blast
qed

text \<open>The press of the example, on the socket while the commissioning is still being printed.\<close>

theorem app_reports_inevitable_witness:
  "\<exists>a d. received a = [trace_press] \<and> aw_call a \<noteq> NoCall \<and>
     inevitably example_backend (\<lambda>a'. idle a' \<and>
       lookup (drv_devices (aw_driver a')) (example_addr 8) =
         Some (fst (device_run app_callbacks d [report_op example_backend trace_press])) \<and>
       filter (reports_on (example_addr 8)) (aw_events a') =
         filter (reports_on (example_addr 8)) (aw_events a @ unemitted a) @
         snd (device_run app_callbacks d [report_op example_backend trace_press])) a"
proof -
  let ?ls = "schedule_commission @ [AppScan (EnvArrive 5 (hci_packet trace_press))]"
  let ?r = "Option.bind (scan_execs (new_world {}) (start_labels example_hci 64))
      (\<lambda>w. app_execs example_backend (app_world_started w) ?ls)"
  have "map_option w_thread (scan_execs (new_world {}) (start_labels example_hci 64)) = Some ThHead" by code_simp
  then obtain w where w: "scan_execs (new_world {}) (start_labels example_hci 64) = Some w" "w_thread w = ThHead"
    by auto
  have "map_option (\<lambda>a. (map_option seq_num (lookup (drv_devices (aw_driver a)) (example_addr 8)), received a,
      aw_call a = NoCall, list_all (\<lambda>r. extract_manufacturer_data (ar_data r) \<noteq> None) (received a))) ?r =
    Some (Some 1, [trace_press], False, True)" by code_simp
  then obtain a d where a: "app_execs example_backend (app_world_started w) ?ls = Some a"
    "lookup (drv_devices (aw_driver a)) (example_addr 8) = Some d" "received a = [trace_press]" "aw_call a \<noteq> NoCall"
    "list_all (\<lambda>r. extract_manufacturer_data (ar_data r) \<noteq> None) (received a)"
    using w(1) by auto
  have "length (example_addr 8) = 6" by code_simp
  from app_reports_inevitable [OF scan_execs_run [OF w(1)] w(2) app_execs_steps [OF a(1)] this a(2,5)] a(3,4)
  show ?thesis by (intro exI [of _ a] exI [of _ d]) simp
qed

end
