(* ===== verification/App_Transports.thy ===== *)
theory App_Transports
  imports App_Zephyr App_Session
begin

text \<open>
  The two platforms against each other: the same advertisements as HCI packets through the scan
  thread of POSIX (src/platform/posix_core/ble/Ble.cpp) and as calls of the Bluetooth stack of
  Zephyr (src/platform/zephyr_core/ble/Ble.cpp).
\<close>







end
