(* ===== verification/App_Sensor.thy ===== *)
theory App_Sensor
  imports App_Session Enocean_Trace
begin

text \<open>
  What the application logs for a sensor (\<open>on_sensor\<close> in src/application/AppEntry.cpp), as text, and
  a session on POSIX from the start of the program to the lines of the first report.
\<close>

subsection \<open>Numbers\<close>

definition dec :: "int \<Rightarrow> string" where
  "dec n = (if n < 0 then CHR ''-'' # digits 10 (nat (- n)) else digits 10 (nat n))"

definition temperature_reading :: "i16 \<Rightarrow> string" where
  "temperature_reading t =
     (if sint t = - 32768 then ''--327.-68''
      else (if sint t < 0 then CHR ''-'' else CHR ''+'') # dec (\<bar>sint t\<bar> div 100) @ ''.'' @
        [digit (nat (\<bar>sint t\<bar> mod 100) div 10), digit (nat (\<bar>sint t\<bar> mod 100) mod 10)])"

lemma signed_dec [simp]: "signed_text False 0 n = dec n"
  by (simp add: signed_text_def dec_def pad_def)

lemma unsigned_dec: "0 \<le> n \<Longrightarrow> n < 2 ^ 32 \<Longrightarrow> unsigned_text False 0 m 10 n = dec n" if "m \<noteq> ''hh''"
  using that by (auto simp: unsigned_text_def dec_def pad_def)

lemma uint_small: "0 \<le> uint (w :: 'a::len word)" "LENGTH('a) \<le> 32 \<Longrightarrow> uint w < 2 ^ 32"
proof -
  show "0 \<le> uint w" by simp
  assume "LENGTH('a) \<le> 32"
  then have "(2 :: int) ^ LENGTH('a) \<le> 2 ^ 32" by (rule power_increasing) simp
  then show "uint w < 2 ^ 32" using uint_lt2p [of w] by linarith
qed

lemma unsigned_word [simp]:
  "unsigned_text False 0 [] 10 (uint (b :: u8)) = dec (uint b)"
  "unsigned_text False 0 [] 10 (uint (h :: 16 word)) = dec (uint h)"
  "unsigned_text False 0 [] 10 (uint (w :: u32)) = dec (uint w)"
  "unsigned_text False 0 ''l'' 10 (uint (w :: u32)) = dec (uint w)"
  using uint_small(2) [of b] uint_small(2) [of h] uint_small(2) [of w] by (simp_all add: unsigned_dec)

subsection \<open>The lines of a report\<close>

definition opt_text :: "'a option \<Rightarrow> ('a \<Rightarrow> string) \<Rightarrow> string list" where
  "opt_text x text_of = (case x of None \<Rightarrow> [] | Some v \<Rightarrow> [text_of v])"

definition accel_text :: "SensorData \<Rightarrow> string list" where
  "accel_text rep =
     (case accel_status rep of
        None \<Rightarrow> []
      | Some st \<Rightarrow> (''  Accel status : '' @ dec (uint st)) #
          (if st = 3 then []
           else [''  Accel (0.01g): X='' @ dec (sint (the (accel_x_cg rep))) @
                 '' Y='' @ dec (sint (the (accel_y_cg rep))) @ '' Z='' @ dec (sint (the (accel_z_cg rep)))]))"

definition sensor_text :: "u8 list \<Rightarrow> SensorData \<Rightarrow> string list" where
  "sensor_text addr rep =
     [''EnOcean sensor | addr '' @ addr_text (rev addr)] @
     opt_text (temperature_cdeg rep) (\<lambda>t. temperature_label @ temperature_reading t) @
     opt_text (humidity rep) (\<lambda>h. ''  Humidity (%) : '' @ dec (uint h)) @
     opt_text (occupancy rep) (\<lambda>b. ''  Occupancy    : '' @ (if b then ''yes'' else ''no'')) @
     opt_text (light_sensor rep) (\<lambda>l. ''  Light (lx)   : '' @ dec (uint l)) @
     opt_text (light_solar_cell rep) (\<lambda>l. ''  Solar (lx)   : '' @ dec (uint l)) @
     opt_text (energy_lvl rep) (\<lambda>e. ''  Energy (%)   : '' @ dec (uint e)) @
     opt_text (battery_voltage rep) (\<lambda>v. ''  Battery (mV) : '' @ dec (uint v)) @
     opt_text (contact rep) (\<lambda>b. ''  Contact      : '' @ (if b then ''closed'' else ''open'')) @
     accel_text rep"

lemma temperature_line_text:
  "log_text (LOGGER_NOTICE temperature_format (temperature_args t)) = Some (temperature_label @ temperature_reading t)"
proof (cases "sint t = - 32768")
  case True
  then show ?thesis using temperature_prints_min by (simp add: prints_def temperature_reading_def)
next
  case False
  obtain w h where "\<bar>sint t\<bar> div 100 = int w" "\<bar>sint t\<bar> mod 100 = int h" "w < 10 ^ Suc 2" "h < 100"
    using temperature_parts .
  from temperature_prints [OF False this] this show ?thesis
    using False by (simp add: prints_def temperature_reading_def dec_def)
qed

lemma number_line_texts:
  "log_text (LOGGER_NOTICE ''  Humidity (%%) : %u'' [ArgInt (uint (h :: u8))]) = Some (''  Humidity (%) : '' @ dec (uint h))"
  "log_text (LOGGER_NOTICE ''  Energy (%%)   : %u'' [ArgInt (uint (h :: u8))]) = Some (''  Energy (%)   : '' @ dec (uint h))"
  "log_text (LOGGER_NOTICE ''  Accel status : %u'' [ArgInt (uint (h :: u8))]) = Some (''  Accel status : '' @ dec (uint h))"
  "log_text (LOGGER_NOTICE ''  Light (lx)   : %u'' [ArgInt (uint (w :: 16 word))]) = Some (''  Light (lx)   : '' @ dec (uint w))"
  "log_text (LOGGER_NOTICE ''  Solar (lx)   : %u'' [ArgInt (uint (w :: 16 word))]) = Some (''  Solar (lx)   : '' @ dec (uint w))"
  "log_text (LOGGER_NOTICE ''  Battery (mV) : %u'' [ArgInt (uint (w :: 16 word))]) = Some (''  Battery (mV) : '' @ dec (uint w))"
  by (simp_all add: log_text_def LOGGER_NOTICE_def)

lemma other_line_texts:
  "log_text (LOGGER_NOTICE ''  Occupancy    : %s'' [ArgStr t]) = Some (''  Occupancy    : '' @ t)"
  "log_text (LOGGER_NOTICE ''  Contact      : %s'' [ArgStr t]) = Some (''  Contact      : '' @ t)"
  "log_text (LOGGER_NOTICE ''  Accel (0.01g): X=%d Y=%d Z=%d'' [ArgInt x, ArgInt y, ArgInt z]) =
     Some (''  Accel (0.01g): X='' @ dec x @ '' Y='' @ dec y @ '' Z='' @ dec z)"
  by (simp_all add: log_text_def LOGGER_NOTICE_def)

lemma sensor_address_text:
  assumes "length (addr :: u8 list) = 6"
  shows "log_text (LOGGER_NOTICE ''EnOcean sensor | addr %02X:%02X:%02X:%02X:%02X:%02X''
      (map (\<lambda>a. ArgInt (uint a)) (rev addr))) = Some (''EnOcean sensor | addr '' @ addr_text (rev addr))"
  by (rule list6 [OF assms]) (simp add: log_text_def LOGGER_NOTICE_def)

lemma opt_line_text:
  "(\<And>v. log_text (line v) = Some (text_of v)) \<Longrightarrow> map log_text (opt_line x line) = map Some (opt_text x text_of)"
  by (simp add: opt_line_def opt_text_def split: option.splits)

lemma sensor_lines:
  assumes "length (dev_addr d) = 6" and "accel_complete rep"
  shows "\<exists>ls. on_sensor d rep = Some ls \<and> map log_text ls = map Some (sensor_text (dev_addr d) rep)"
proof -
  have len: "length (dev_addr d) = k_addr_len" using assms(1) by (simp add: size_constants)
  show ?thesis
    using assms(2) sensor_address_text [OF assms(1)]
    by (auto simp: on_sensor_def addr_args_eq [OF len] sensor_text_def accel_text_def accel_complete_def
        opt_line_text temperature_line_text number_line_texts number_line_texts(3) [of 3, simplified]
        other_line_texts split: option.splits)
qed


lemma packet_line_text:
  assumes "length (addr :: u8 list) = 6" and "n < 2 ^ 32"
  shows "log_text (LOGGER_NOTICE (''EnoceanDriver: sensor pkt %02hhX:%02hhX:%02hhX:%02hhX:%02hhX:%02hhX '' @
      ''payload[%zu] seq=%lu'') (map (\<lambda>a. ArgInt (uint a)) (rev addr) @ [ArgInt (int n), ArgInt (uint (s :: u32))])) =
    Some (''EnoceanDriver: sensor pkt '' @ addr_text (rev addr) @ '' payload['' @ dec (int n) @ ''] seq='' @ dec (uint s))"
proof -
  have u: "unsigned_text False 0 ''z'' 10 (int n) = dec (int n)"
    using assms(2) by (intro unsigned_dec) simp_all
  show ?thesis by (rule list6 [OF assms(1)]) (simp add: log_text_def LOGGER_NOTICE_def u)
qed

subsection \<open>Commissioning and first report\<close>

lemma commission_fields_sensor:
  assumes "length key = 16" and "length rest = 6"
  shows "commission_fields addr (seq_bytes s @ [0x3E] @ key @ rest) = Some (s, key)"
  using assms by (simp add: commission_fields_def Let_def read_seq_of_bytes size_constants nth_append)

lemma commission_report_run:
  assumes "reachable app_callbacks drv" and "drv_initialised drv" and "commissioning_enabled drv"
    and "device_count drv = 0" and "lookup (drv_devices drv) addr = None" and "length addr = 6"
    and "detect_device_type addr = Sensor" and "length key = 16" and "length rest = 6"
    and "s0 < s" and "body \<noteq> []" and "length body \<le> 28" and "length tag = 4"
    and "fst (crypto key (addr @ seq_bytes s @ [0, 0, 0]) (seq_bytes s @ body) [] tag [])"
  shows "\<exists>drv'. run
      [OpAdvertise crypto addr 0x01 0x03 r0 (adv_of (seq_bytes s0 @ [0x3E] @ key @ rest)),
       OpAdvertise crypto addr 0x01 0x03 r (adv_of (seq_bytes s @ body @ tag))] drv = Some (drv',
      [commissioned_log addr, CallCommissioned ''on_commissioned'' (new_device addr 0x01 r0 s0 key),
       sensor_packet_log (new_device addr 0x01 r0 s0 key) (4 + length body + length tag) s] @
      map Logged (snd (snd (crypto key (addr @ seq_bytes s @ [0, 0, 0]) (seq_bytes s @ body) [] tag []))) @
      [CallSensor ''on_sensor'' ((new_device addr 0x01 r0 s0 key)\<lparr>dev_rssi := r, seq_num := s\<rparr>)
         (sensor_report body) None])"
proof -
  let ?bl = "map Logged (snd (snd (crypto key (addr @ seq_bytes s @ [0, 0, 0]) (seq_bytes s @ body) [] tag [])))"
  have ok: "table_ok (drv_devices drv)" using reachable_table_ok [OF assms(1)] .
  have cbs: "drv_callbacks drv = app_callbacks" using reachable_callbacks [OF assms(1)] .
  let ?p = "seq_bytes s0 @ [0x3E] @ key @ rest" and ?t = "telegram s body tag"
  let ?d = "new_device addr 0x01 r0 s0 key"
  have len: "length addr = k_addr_len" using assms(6) by (simp add: size_constants)
  have rel: "relevant d addr 0x01 0x03 (adv_of p) p"
    if "drv_initialised d" "9 \<le> length p" "length p \<le> 252" for d p
    using that len by (simp add: relevant_def extract_adv_of payload_constants k_adv_nonconn_ind_def k_addr_random_def)
  have rp: "relevant drv addr 0x01 0x03 (adv_of ?p) ?p" using assms(2,8,9) by (intro rel) simp_all
  have room: "length (filter active (drv_devices drv)) < k_max_devices"
    using assms(4) by (simp add: device_count_eq size_constants)
  obtain devs where devs: "store_device (drv_devices drv) ?d = Some devs"
    "process_advertisement crypto drv addr 0x01 0x03 r0 (adv_of ?p) = Some (drv\<lparr>drv_devices := devs\<rparr>,
      [commissioned_log addr, CallCommissioned ''on_commissioned'' ?d])"
    using process_commission [OF ok rp assms(5) _ _ commission_fields_sensor [OF assms(8,9)] room] assms(3,8,9)
    by (auto simp: commissioning_enabled_def payload_constants cbs call_if_def app_callbacks_def)
  have okd: "device_ok ?d" using assms(8) len by (simp add: device_ok_def new_device_def size_constants)
  have ok1: "table_ok devs" using store_ok [OF ok okd _ devs(1)] by simp
  have l1: "lookup devs addr = Some ?d" using store_lookup [OF ok okd _ devs(1) len] by simp
  let ?drv1 = "drv\<lparr>drv_devices := devs\<rparr>"
  have rt: "relevant ?drv1 addr 0x01 0x03 (adv_of ?t) ?t"
    using assms(2,11-13) by (intro rel) (cases body; simp)+
  have tag: "length tag = k_tag_len" using assms(13) by (simp add: size_constants)
  have auth: "authentic crypto (?d\<lparr>dev_rssi := r\<rparr>) s body tag" "map Logged (backend_log crypto ?d s body tag) = ?bl"
    using assms(6,8,13,14)
    by (simp_all add: authentic_def backend_log_def aes_ccm_decrypt_dispatch size_constants)
  have okd1: "device_ok (?d\<lparr>dev_rssi := r\<rparr>)" using okd by simp
  have kind: "dev_type ?d = Sensor" using assms(7) by (simp add: new_device_def)
  have pkt: "sensor_packet_log (?d\<lparr>dev_rssi := r\<rparr>) n s = sensor_packet_log ?d n s" for n
    by (simp add: sensor_packet_log_def)
  have sensor: "sensor_cb app_callbacks = Some ''on_sensor''" by (simp add: app_callbacks_def)
  have h: "handler_of ?d crypto (drv_callbacks ?drv1) (?d\<lparr>dev_rssi := r\<rparr>) ?t = Some (True,
      ?d\<lparr>dev_rssi := r, seq_num := s\<rparr>, [sensor_packet_log ?d (4 + length body + length tag) s] @ ?bl @
        [CallSensor ''on_sensor'' (?d\<lparr>dev_rssi := r, seq_num := s\<rparr>) (sensor_report body) None])"
    using handle_sensor_telegram [OF okd1 tag assms(11), of crypto app_callbacks s] auth assms(10,13)
    by (simp add: handler_of_def cbs call_if_def kind pkt sensor auth(2))
  obtain devs2 where "process_advertisement crypto ?drv1 addr 0x01 0x03 r (adv_of ?t) =
      Some (?drv1\<lparr>drv_devices := devs2\<rparr>, [sensor_packet_log ?d (4 + length body + length tag) s] @ ?bl @
        [CallSensor ''on_sensor'' (?d\<lparr>dev_rssi := r, seq_num := s\<rparr>) (sensor_report body) None])"
    using process_known [OF _ rt _ h] ok1 l1 by auto
  then show ?thesis using devs(2) by (simp add: telegram_def)
qed


lemma sensor_session_prints:
  assumes "length addr = 6" and "k < 2 ^ 32"
  shows "\<exists>log. app_print
      ([commissioned_log addr, CallCommissioned ''on_commissioned'' (new_device addr aty rssi0 s0 key),
       sensor_packet_log (new_device addr aty rssi0 s0 key) k s] @ map Logged bl @
      [CallSensor ''on_sensor'' ((new_device addr aty rssi0 s0 key)\<lparr>dev_rssi := rssi, seq_num := s\<rparr>)
         (sensor_report body) None]) = Some log \<and>
    map log_text log = map Some [''EnoceanDriver: device commissioned '' @ addr_text (rev addr),
       ''EnOcean device COMMISSIONED: '' @ addr_text (rev addr),
       ''EnoceanDriver: sensor pkt '' @ addr_text (rev addr) @ '' payload['' @ dec (int k) @ ''] seq='' @ dec (uint s)]
       @ map log_text bl @ map Some (sensor_text addr (read_report body empty_sensor_data))"
proof -
  let ?d = "(new_device addr aty rssi0 s0 key)\<lparr>dev_rssi := rssi, seq_num := s\<rparr>"
  obtain ls where ls: "on_sensor ?d (sensor_report body) = Some ls"
    "map log_text ls = map Some (sensor_text addr (sensor_report body))"
    using sensor_lines [of ?d "sensor_report body"] assms(1) sensor_report_complete by auto
  show ?thesis
  proof (intro exI conjI)
    show "app_print
      ([commissioned_log addr, CallCommissioned ''on_commissioned'' (new_device addr aty rssi0 s0 key),
       sensor_packet_log (new_device addr aty rssi0 s0 key) k s] @ map Logged bl @
       [CallSensor ''on_sensor'' ?d (sensor_report body) None]) =
      Some ([LOGGER_NOTICE (''EnoceanDriver: device commissioned '' @
          ''%02hhX:%02hhX:%02hhX:%02hhX:%02hhX:%02hhX'') (map (\<lambda>a. ArgInt (uint a)) (rev addr)),
        LOGGER_NOTICE ''EnOcean device COMMISSIONED: %02X:%02X:%02X:%02X:%02X:%02X''
          (map (\<lambda>a. ArgInt (uint a)) (rev addr)),
        LOGGER_NOTICE (''EnoceanDriver: sensor pkt %02hhX:%02hhX:%02hhX:%02hhX:%02hhX:%02hhX '' @
          ''payload[%zu] seq=%lu'') (map (\<lambda>a. ArgInt (uint a)) (rev addr) @ [ArgInt (int k), ArgInt (uint s)])] @ bl @ ls)"
      using addr_args_eq [of addr] assms(1) ls(1)
      by (simp add: app_print_append app_print_logs app_event_def on_commissioned_def commissioned_log_def sensor_packet_log_def size_constants)
  qed (use commission_lines [OF assms(1)] packet_line_text [OF assms] ls(2) sensor_report_read [of body]
      in \<open>simp del: append.simps\<close>)
qed

text \<open>
  C11: From the start of the program to the first measurement in the log. Once \<open>run_impl\<close> has started -
  whatever arrived before - let the controller deliver the commissioning telegram of a sensor (27
  bytes with the marker 0x3E) and then a telegram of it with a larger sequence number whose tag
  the backend confirms. Then the scan thread logs the two announcements of the device, a line for
  the packet, what the backend logs about the tag (nothing, for both backends), the address, and one line with label and decimal value for each measurement that
  the reference decoder finds in the body, in this order and in this text.
\<close>

theorem session_first_report:
  assumes "app_start api crypto driver_ptr early = Some (Some (drv, sc), log0, calls)"
    and "length addr = 6" and "detect_device_type addr = Sensor" and "length key = 16" and "length rest = 6"
    and "s0 < s" and "body \<noteq> []" and "length body \<le> 28" and "length tag = 4"
    and "fst (crypto key (addr @ seq_bytes s @ [0, 0, 0]) (seq_bytes s @ body) [] tag [])"
  shows "\<exists>drv' log. app_scan crypto
      [(True, Some (hci_packet \<lparr>ar_addr = addr, ar_addr_type = 0x01, ar_adv_type = 0x03, ar_rssi = rssi0,
          ar_data = adv_of (seq_bytes s0 @ [0x3E] @ key @ rest)\<rparr>), True),
       (True, Some (hci_packet \<lparr>ar_addr = addr, ar_addr_type = 0x01, ar_adv_type = 0x03, ar_rssi = rssi,
          ar_data = adv_of (seq_bytes s @ body @ tag)\<rparr>), True),
       (False, None, False)] drv = Some (drv', log) \<and>
    map log_text log = map Some [''EnoceanDriver: device commissioned '' @ addr_text (rev addr),
       ''EnOcean device COMMISSIONED: '' @ addr_text (rev addr),
       ''EnoceanDriver: sensor pkt '' @ addr_text (rev addr) @ '' payload['' @ dec (8 + int (length body)) @
         ''] seq='' @ dec (uint s)]
       @ map log_text (snd (snd (crypto key (addr @ seq_bytes s @ [0, 0, 0]) (seq_bytes s @ body) [] tag [])))
       @ map Some (sensor_text addr (read_report body empty_sensor_data))"
proof -
  let ?com = "\<lparr>ar_addr = addr, ar_addr_type = 0x01, ar_adv_type = 0x03, ar_rssi = rssi0,
      ar_data = adv_of (seq_bytes s0 @ [0x3E] @ key @ rest)\<rparr>"
  let ?rep = "\<lparr>ar_addr = addr, ar_addr_type = 0x01, ar_adv_type = 0x03, ar_rssi = rssi,
      ar_data = adv_of (seq_bytes s @ body @ tag)\<rparr>"
  let ?k = "4 + length body + length tag"
  note F = app_run_fresh [OF assms(1,2)]
  have pk: "handle_packet (Some ''advertisement_cb'') (take k_hci_buf_size (hci_packet ?com)) = Some [?com]"
    "handle_packet (Some ''advertisement_cb'') (take k_hci_buf_size (hci_packet ?rep)) = Some [?rep]"
    using assms(2,4,5,8,9) by (simp_all add: handle_whole_packet report_ok_def adv_of_def)
  obtain drv' where r: "run (map (report_op crypto) [?com, ?rep]) drv = Some (drv',
      [commissioned_log addr, CallCommissioned ''on_commissioned'' (new_device addr 0x01 rssi0 s0 key),
       sensor_packet_log (new_device addr 0x01 rssi0 s0 key) ?k s] @
      map Logged (snd (snd (crypto key (addr @ seq_bytes s @ [0, 0, 0]) (seq_bytes s @ body) [] tag []))) @
      [CallSensor ''on_sensor'' ((new_device addr 0x01 rssi0 s0 key)\<lparr>dev_rssi := rssi, seq_num := s\<rparr>)
         (sensor_report body) None])"
    using commission_report_run [of drv addr key rest s0 s body tag crypto rssi0 rssi, OF F assms(2-10)] by (auto simp: report_op_def simp del: run.simps append.simps)
  have "?k < 2 ^ 32" "int ?k = 8 + int (length body)" using assms(8,9) by simp_all
  with sensor_session_prints [of addr ?k "0x01" rssi0 s0 key s "(snd (snd (crypto key (addr @ seq_bytes s @ [0, 0, 0]) (seq_bytes s @ body) [] tag [])))" rssi body, OF assms(2)] r pk show ?thesis
    by (auto simp: app_scan_def deliver_run simp del: run.simps app_print.simps)
qed


definition example_sensor_addr :: "u8 list" where
  "example_sensor_addr = [1, 0, 0, 0, 0x00, 0xE5]"

theorem session_first_report_witness:
  "\<exists>drv sc log0 calls drv' log. app_start example_hci example_backend 64 [] = Some (Some (drv, sc), log0, calls) \<and>
     app_scan example_backend
      [(True, Some (hci_packet \<lparr>ar_addr = example_sensor_addr, ar_addr_type = 0x01, ar_adv_type = 0x03, ar_rssi = -50,
          ar_data = adv_of (seq_bytes 1 @ [0x3E] @ replicate 16 7 @ replicate 6 0)\<rparr>), True),
       (True, Some (hci_packet \<lparr>ar_addr = example_sensor_addr, ar_addr_type = 0x01, ar_adv_type = 0x03, ar_rssi = -60,
          ar_data = adv_of (seq_bytes 2 @ [0x40, 0x29, 0x09, 0x06, 0x64] @ [9, 9, 9, 9])\<rparr>), True),
       (False, None, False)] drv = Some (drv', log) \<and>
     drop 4 (map log_text log) = [Some (temperature_label @ ''+23.45''), Some ''  Humidity (%) : 50'']"
proof -
  have "map_option (\<lambda>(r, l, cs). r \<noteq> None) (app_start example_hci example_backend 64 []) = Some True" by code_simp
  then obtain drv sc log0 calls where a: "app_start example_hci example_backend 64 [] = Some (Some (drv, sc), log0, calls)"
    by (auto simp: map_option_case split: option.splits)
  have facts: "length example_sensor_addr = 6" "detect_device_type example_sensor_addr = Sensor"
    "length (replicate 16 (7 :: u8)) = 16" "length (replicate 6 (0 :: u8)) = 6" "(1 :: u32) < 2"
    "[0x40 :: u8, 0x29, 0x09, 0x06, 0x64] \<noteq> []" "length [0x40 :: u8, 0x29, 0x09, 0x06, 0x64] \<le> 28"
    "length [9 :: u8, 9, 9, 9] = 4"
    "fst (example_backend (replicate 16 7) (example_sensor_addr @ seq_bytes 2 @ [0, 0, 0])
       (seq_bytes 2 @ [0x40, 0x29, 0x09, 0x06, 0x64]) [] [9, 9, 9, 9] [])"
    by code_simp+
  have t: "drop 1 (sensor_text example_sensor_addr (read_report [0x40, 0x29, 0x09, 0x06, 0x64] empty_sensor_data)) =
      [temperature_label @ ''+23.45'', ''  Humidity (%) : 50'']"
    by code_simp
  have quiet: "snd (snd (example_backend (replicate 16 7) (example_sensor_addr @ seq_bytes 2 @ [0, 0, 0])
       (seq_bytes 2 @ [0x40, 0x29, 0x09, 0x06, 0x64]) [] [9, 9, 9, 9] [])) = []"
    by code_simp
  have d: "drop 4 log = map Some (drop 1 w)" if "log = map Some [x, y, z] @ map log_text [] @ map Some w"
    for x y z :: string and w log using that by (simp add: drop_map)
  from session_first_report [OF a facts, of "-50" "-60", unfolded quiet] obtain drv' log where
    x: "app_scan example_backend
      [(True, Some (hci_packet \<lparr>ar_addr = example_sensor_addr, ar_addr_type = 0x01, ar_adv_type = 0x03, ar_rssi = -50,
          ar_data = adv_of (seq_bytes 1 @ [0x3E] @ replicate 16 7 @ replicate 6 0)\<rparr>), True),
       (True, Some (hci_packet \<lparr>ar_addr = example_sensor_addr, ar_addr_type = 0x01, ar_adv_type = 0x03, ar_rssi = -60,
          ar_data = adv_of (seq_bytes 2 @ [0x40, 0x29, 0x09, 0x06, 0x64] @ [9, 9, 9, 9])\<rparr>), True),
       (False, None, False)] drv = Some (drv', log)"
    and l: "drop 4 (map log_text log) =
      map Some (drop 1 (sensor_text example_sensor_addr (read_report [0x40, 0x29, 0x09, 0x06, 0x64] empty_sensor_data)))"
    using d by blast
  from a x l show ?thesis unfolding t list.map by blast
qed

end
