(* ===== verification/App_Watchdog.thy ===== *)
theory App_Watchdog
  imports App_Main
begin

text \<open>
  The main function of Zephyr (src/platform/zephyr_core/zephyr_main.cpp) against its watchdog in
  time. \<open>os_watchdog\<close> is the documented behaviour of a watchdog with \<open>WDT_FLAG_RESET_SOC\<close>: once set
  up, it resets the system when the timeout of an installed channel passes without a successful feed
  of the channel. Time is in milliseconds: a call takes the time it is given as its delay, and
  \<open>k_msleep\<close> the time asked for in its argument and its delay on top (documented: it sleeps no
  shorter).
\<close>

record os_watchdog =
  ow_channels :: "(int \<times> nat \<times> nat) list"
  ow_running :: bool
  ow_fired :: bool

definition new_os_watchdog :: os_watchdog where
  "new_os_watchdog = \<lparr>ow_channels = [], ow_running = False, ow_fired = False\<rparr>"

text \<open>A channel has a number, a timeout and the time since its last feed.\<close>

fun os_wdt_call :: "main_call \<Rightarrow> os_watchdog \<Rightarrow> os_watchdog" where
  "os_wdt_call (MainWdt (WdtInstall t (Inr c))) w = w\<lparr>ow_channels := ow_channels w @ [(c, unat t, 0)]\<rparr>"
| "os_wdt_call (MainWdt (WdtSetup r)) w = (if r = os_ok then w\<lparr>ow_running := True\<rparr> else w)"
| "os_wdt_call (MainWdt (WdtFeed (Inr c) r)) w =
     (if r = os_ok then w\<lparr>ow_channels := map (\<lambda>(k, t, e). (k, t, if k = c then 0 else e)) (ow_channels w)\<rparr>
      else w)"
| "os_wdt_call call w = w"

definition os_wdt_pass :: "nat \<Rightarrow> os_watchdog \<Rightarrow> os_watchdog" where
  "os_wdt_pass n w =
     (if \<not> ow_running w then w
      else let cs = map (\<lambda>(k, t, e). (k, t, e + n)) (ow_channels w)
           in w\<lparr>ow_channels := cs, ow_fired := (ow_fired w \<or> list_ex (\<lambda>(k, t, e). t \<le> e) cs)\<rparr>)"

text \<open>The time a call takes.\<close>

fun call_time :: "main_call \<Rightarrow> nat \<Rightarrow> nat" where
  "call_time (MainSleep (KMsleep ms)) delay = nat ms + delay"
| "call_time (MainSleep (SleepFor ms)) delay = nat ms + delay"
| "call_time _ delay = delay"

fun os_wdt_run :: "(main_call \<times> nat) list \<Rightarrow> os_watchdog \<Rightarrow> os_watchdog" where
  "os_wdt_run [] w = w"
| "os_wdt_run ((call, n) # rest) w = os_wdt_run rest (os_wdt_pass (call_time call n) (os_wdt_call call w))"

lemma os_wdt_run_append [simp]: "os_wdt_run (xs @ ys) w = os_wdt_run ys (os_wdt_run xs w)"
  by (induction xs w rule: os_wdt_run.induct) simp_all

lemma fired_stays: "ow_fired w \<Longrightarrow> ow_fired (os_wdt_run xs w)"
proof (induction xs w rule: os_wdt_run.induct)
  case (2 call n rest w)
  have "ow_fired (os_wdt_call call w)" using "2.prems" by (induction call w rule: os_wdt_call.induct) simp_all
  then show ?case using "2.IH" by (simp add: os_wdt_pass_def Let_def)
qed simp

subsection \<open>One channel of ten seconds\<close>

abbreviation armed :: "int \<Rightarrow> nat \<Rightarrow> os_watchdog" where
  "armed c e \<equiv> \<lparr>ow_channels = [(c, 10000, e)], ow_running = True, ow_fired = False\<rparr>"

definition quiet :: "main_call \<Rightarrow> bool" where
  "quiet call = (case call of MainWdt k \<Rightarrow> False | MainSleep s \<Rightarrow> False | _ \<Rightarrow> True)"

lemma quiet_call [simp]: "quiet call \<Longrightarrow> os_wdt_call call w = w"
  by (cases call) (simp_all add: quiet_def)

lemma quiet_time [simp]: "quiet call \<Longrightarrow> call_time call n = n"
  by (cases call) (simp_all add: quiet_def)

lemma pass_armed: "e + n < 10000 \<Longrightarrow> os_wdt_pass n (armed c e) = armed c (e + n)"
  by (simp add: os_wdt_pass_def)

lemma pass_fires: "10000 \<le> e + n \<Longrightarrow> ow_fired (os_wdt_pass n (armed c e))"
  by (simp add: os_wdt_pass_def)

lemma run_quiet:
  "list_all (\<lambda>(call, n). quiet call) xs \<Longrightarrow> e + sum_list (map snd xs) < 10000 \<Longrightarrow>
     os_wdt_run xs (armed c e) = armed c (e + sum_list (map snd xs))"
  by (induction xs arbitrary: e) (auto simp: pass_armed add.assoc)

lemma watchdog_init_calls:
  assumes "watchdog_init api timeout channel = (r, channel', cs)" "has_value (fst r)"
  shows "\<exists>c pre. channel' = Inr c \<and> cs = pre @ [WdtInstall timeout (Inr c), WdtSetup os_ok] \<and>
    pre \<in> {[], [WdtInstall timeout (Inl ENOTSUP)]}"
  using assms
  by (auto simp: watchdog_init_def watchdog_init_impl_def of_error_def of_value_def Let_def
      split: if_splits sum.splits option.splits) metis+

lemma watchdog_init_fails:
  "watchdog_init api timeout channel = (r, channel', cs) \<Longrightarrow> \<not> has_value (fst r) \<Longrightarrow> WdtSetup os_ok \<notin> set cs"
  by (auto simp: watchdog_init_def watchdog_init_impl_def of_error_def of_value_def Let_def
      split: if_splits sum.splits option.splits)

lemma unarmed_call:
  "call \<noteq> MainWdt (WdtSetup os_ok) \<Longrightarrow> \<not> ow_running w \<Longrightarrow> \<not> ow_fired w \<Longrightarrow>
     \<not> ow_running (os_wdt_call call w) \<and> \<not> ow_fired (os_wdt_call call w)"
  by (induction call w rule: os_wdt_call.induct) auto

lemma unarmed_run:
  "MainWdt (WdtSetup os_ok) \<notin> fst ` set xs \<Longrightarrow> \<not> ow_running w \<Longrightarrow> \<not> ow_fired w \<Longrightarrow>
     \<not> ow_running (os_wdt_run xs w) \<and> \<not> ow_fired (os_wdt_run xs w)"
proof (induction xs w rule: os_wdt_run.induct)
  case (2 call n rest w)
  have "call \<noteq> MainWdt (WdtSetup os_ok)" using "2.prems"(1) by auto
  then show ?case using unarmed_call "2" by (simp add: os_wdt_pass_def)
qed simp

lemma quiet_zip: "list_all quiet qs \<Longrightarrow> list_all (\<lambda>(call, n). quiet call) (zip qs ds)"
  by (auto simp: list_all_iff dest: set_zip_leftD)

text \<open>A successful initialisation, followed by calls that have nothing to do with the watchdog.\<close>

lemma start_arms:
  assumes "watchdog_init api 10000 channel = (r, channel', cs)" and "has_value (fst r)"
    and "list_all quiet qs" and "length ds = length cs + length qs" and "sum_list ds < 10000"
  obtains c e where "channel' = Inr c" "e < 10000"
    "os_wdt_run (zip (map MainWdt cs @ qs) ds) new_os_watchdog = armed c e"
proof -
  obtain c pre where c: "channel' = Inr c" "cs = pre @ [WdtInstall 10000 (Inr c), WdtSetup os_ok]"
    and pre: "pre = [] \<or> pre = [WdtInstall 10000 (Inl ENOTSUP)]"
    using watchdog_init_calls [OF assms(1,2)] by auto
  obtain d0 d1 d2 rest where ds: "ds = d0 @ [d1, d2] @ rest" "length d0 = length pre" "length rest = length qs"
  proof
    show "ds = take (length pre) ds @ [ds ! length pre, ds ! Suc (length pre)] @ drop (length pre + 2) ds"
      using assms(4) c(2) by (simp add: Cons_nth_drop_Suc)
    show "length (take (length pre) ds) = length pre" "length (drop (length pre + 2) ds) = length qs"
      using assms(4) c(2) by simp_all
  qed
  have "os_wdt_run (zip (map MainWdt cs) (d0 @ [d1, d2])) new_os_watchdog = armed c d2"
    using pre ds(2) assms(5) by (auto simp: c(2) ds(1) new_os_watchdog_def os_wdt_pass_def length_Suc_conv)
  moreover have "zip (map MainWdt cs @ qs) ds = zip (map MainWdt cs) (d0 @ [d1, d2]) @ zip qs rest"
    using ds by (simp add: c(2) zip_append)
  moreover have "map snd (zip qs rest) = rest" using ds(3) by simp
  ultimately have "os_wdt_run (zip (map MainWdt cs @ qs) ds) new_os_watchdog = armed c (d2 + sum_list rest)"
    using run_quiet [OF quiet_zip [OF assms(3)], of d2 rest] assms(5) by (simp add: ds(1))
  then show thesis using that c(1) assms(5) by (simp add: ds(1))
qed

text \<open>The delays of the calls of the loop: of the feed and of the sleep of each round.\<close>

definition round_delays :: "(os_result \<times> nat \<times> nat) list \<Rightarrow> nat list" where
  "round_delays rounds = concat (map (\<lambda>(answer, feed, late). [feed, late]) rounds)"

definition timed_loop :: "errno + int \<Rightarrow> (os_result \<times> nat \<times> nat) list \<Rightarrow> (main_call \<times> nat) list" where
  "timed_loop channel rounds = zip (zephyr_main_loop channel (map fst rounds)) (round_delays rounds)"

lemma timed_loop_simps [simp]:
  "timed_loop channel [] = []"
  "timed_loop channel ((answer, feed, late) # rounds) =
     (MainWdt (WdtFeed channel answer), feed) # (MainSleep (KMsleep 1000), late) # timed_loop channel rounds"
  by (simp_all add: timed_loop_def round_delays_def watchdog_feed_def zephyr_sleep_argument)

lemma timed_loop_append: "timed_loop channel (xs @ ys) = timed_loop channel xs @ timed_loop channel ys"
proof (induction xs)
  case (Cons x xs)
  then show ?case by (cases x) simp
qed simp

lemma round_step:
  "os_wdt_run ((MainWdt (WdtFeed (Inr c) answer), feed) # (MainSleep (KMsleep 1000), late) # rest) (armed c e) =
     os_wdt_run rest (os_wdt_pass (1000 + late) (os_wdt_pass feed (armed c (if answer = os_ok then 0 else e))))"
  by simp

text \<open>An armed watchdog fires or remembers the time that has passed.\<close>

lemma pass_armed_cases:
  "if e + n < 10000 then os_wdt_pass n (armed c e) = armed c (e + n) else ow_fired (os_wdt_pass n (armed c e))"
  by (simp add: pass_armed pass_fires)

lemma pass_fired: "ow_fired w \<Longrightarrow> ow_fired (os_wdt_pass n w)"
  by (simp add: os_wdt_pass_def Let_def)

lemma loop_alive:
  "list_all (\<lambda>(answer, feed, late). answer = os_ok \<and> feed + late < 9000) rounds \<Longrightarrow> e < 10000 \<Longrightarrow>
     \<not> ow_fired (os_wdt_run (timed_loop (Inr c) rounds) (armed c e))"
proof (induction rounds arbitrary: e)
  case (Cons x rounds)
  obtain a f l where x: "x = (a, f, l)" by (cases x)
  have b: "a = os_ok" "f + l < 9000" using Cons.prems(1) by (simp_all add: x)
  have "os_wdt_pass (1000 + l) (os_wdt_pass f (armed c 0)) = armed c (f + (1000 + l))"
    using b(2) by (simp add: pass_armed)
  then have "os_wdt_run (timed_loop (Inr c) (x # rounds)) (armed c e) =
      os_wdt_run (timed_loop (Inr c) rounds) (armed c (f + (1000 + l)))"
    unfolding x timed_loop_simps round_step b(1) by simp
  then show ?case using Cons.IH [of "f + (1000 + l)"] Cons.prems(1) b(2) by simp
qed simp

text \<open>Any round leaves the watchdog fired or armed; one whose feed fails adds at least a second.\<close>

lemma loop_armed:
  "e < 10000 \<Longrightarrow> ow_fired (os_wdt_run (timed_loop (Inr c) rounds) (armed c e)) \<or>
     (\<exists>e' < 10000. os_wdt_run (timed_loop (Inr c) rounds) (armed c e) = armed c e' \<and>
       (list_all (\<lambda>(answer, feed, late). answer \<noteq> os_ok) rounds \<longrightarrow> e + 1000 * length rounds \<le> e'))"
proof (induction rounds arbitrary: e)
  case Nil
  then show ?case by auto
next
  case (Cons x rounds)
  obtain a f l where x: "x = (a, f, l)" by (cases x)
  let ?e = "if a = os_ok then 0 else e"
  let ?w = "os_wdt_pass (1000 + l) (os_wdt_pass f (armed c ?e))"
  have run: "os_wdt_run (timed_loop (Inr c) (x # rounds)) (armed c e) = os_wdt_run (timed_loop (Inr c) rounds) ?w"
    unfolding x timed_loop_simps round_step ..
  show ?case
  proof (cases "?e + f + (1000 + l) < 10000")
    case True
    then have w: "?w = armed c (?e + f + (1000 + l))" by (simp add: pass_armed)
    show ?thesis unfolding run w using Cons.IH [OF True] by (auto simp: x)
  next
    case False
    then have "ow_fired ?w"
      using pass_armed_cases [of ?e f c] pass_armed_cases [of "?e + f" "1000 + l" c]
      by (auto simp: pass_fired split: if_splits)
    then show ?thesis unfolding run using fired_stays by blast
  qed
qed

lemma loop_starves:
  assumes "e < 10000" and "list_all (\<lambda>(answer, feed, late). answer \<noteq> os_ok) failing" and "length failing = 10"
  shows "ow_fired (os_wdt_run (timed_loop (Inr c) (before @ failing)) (armed c e))"
proof -
  consider "ow_fired (os_wdt_run (timed_loop (Inr c) before) (armed c e))"
    | e' where "e' < 10000" "os_wdt_run (timed_loop (Inr c) before) (armed c e) = armed c e'"
    using loop_armed [OF assms(1), of c before] by blast
  then show ?thesis
  proof cases
    case 1
    then show ?thesis by (simp add: timed_loop_append fired_stays)
  next
    case (2 e')
    then show ?thesis using loop_armed [OF 2(1), of c failing] assms(2,3) by (auto simp: timed_loop_append)
  qed
qed

lemma main_start_calls:
  assumes "zephyr_main_start sys build_time git_commit version = (result, log, calls)"
    and "watchdog_init (zy_wdt sys) 10000 initial_channel = (wr, channel, wcs)"
  obtains qs where "calls = map MainWdt wcs @ qs" "list_all quiet qs"
    "\<not> has_value (fst wr) \<Longrightarrow> qs = [] \<and> result = Inl (-1)" "result \<in> {Inl (-1), Inr channel}"
proof -
  have q: "list_all quiet (map MainThread cs)" for cs by (induction cs) (simp_all add: quiet_def)
  show thesis
  proof (rule that [of "drop (length wcs) calls"])
    show "calls = map MainWdt wcs @ drop (length wcs) calls" "list_all quiet (drop (length wcs) calls)"
      "result \<in> {Inl (-1), Inr channel}"
      using assms q by (auto simp: zephyr_main_start_def Let_def quiet_def split: if_splits prod.splits error_handler.splits)
    show "drop (length wcs) calls = [] \<and> result = Inl (-1)" if "\<not> has_value (fst wr)"
      using assms that by (auto simp: zephyr_main_start_def Let_def)
  qed
qed

subsection \<open>The property\<close>

text \<open>
  C37: The watchdog in time. Let the calls of the start-up take less than ten seconds together. If in
  the rounds of the loop every feed succeeds and feed and lateness of the sleep together take less
  than nine seconds - the loop asks to sleep for one second, the watchdog waits for ten - the
  watchdog never resets a system whose \<open>main\<close> has reached its loop. When \<open>wdt_feed\<close> fails ten times in
  a row - the code ignores its answer - the system is reset, however punctual the loop is. If
  \<open>main\<close> gives up, the system is reset ten seconds later exactly if the watchdog has been set up by
  then: when Bluetooth or the application thread fails, nothing feeds it any more.
\<close>

theorem watchdog_in_time:
  assumes "zephyr_main_start sys build_time git_commit version = (result, log, calls)"
    and "length ds = length calls" and "sum_list ds < 10000"
    and "list_all (\<lambda>(answer, feed, late). answer = os_ok \<and> feed + late < 9000) rounds"
    and "list_all (\<lambda>(answer, feed, late). answer \<noteq> os_ok) failing" and "length failing = 10" and "10000 \<le> n"
  shows "case result of
      Inr channel \<Rightarrow>
        \<not> ow_fired (os_wdt_run (zip calls ds @ timed_loop channel rounds) new_os_watchdog) \<and>
        ow_fired (os_wdt_run (zip calls ds @ timed_loop channel (before @ failing)) new_os_watchdog)
    | Inl code \<Rightarrow> ow_fired (os_wdt_pass n (os_wdt_run (zip calls ds) new_os_watchdog)) =
        (MainWdt (WdtSetup os_ok) \<in> set calls)"
proof -
  obtain wr channel wcs where w: "watchdog_init (zy_wdt sys) 10000 initial_channel = (wr, channel, wcs)"
    by (metis prod_cases3)
  obtain qs where qs: "calls = map MainWdt wcs @ qs" "list_all quiet qs"
    "\<not> has_value (fst wr) \<Longrightarrow> qs = [] \<and> result = Inl (-1)" "result \<in> {Inl (-1), Inr channel}"
    using main_start_calls [OF assms(1) w] by metis
  show ?thesis
  proof (cases "has_value (fst wr)")
    case True
    obtain c e where st: "channel = Inr c" "e < 10000" "os_wdt_run (zip calls ds) new_os_watchdog = armed c e"
      using start_arms [OF w True qs(2) _ assms(3)] assms(2) qs(1) by auto
    have "MainWdt (WdtSetup os_ok) \<in> set calls" using watchdog_init_calls [OF w True] qs(1) by auto
    then show ?thesis
      using qs(4) st loop_alive [OF assms(4) st(2)] loop_starves [OF st(2) assms(5,6)] pass_fires [of e n c] assms(7)
      by auto
  next
    case False
    then have c: "calls = map MainWdt wcs" "result = Inl (-1)" using qs by auto
    have "MainWdt (WdtSetup os_ok) \<notin> set calls" using watchdog_init_fails [OF w False] by (auto simp: c(1))
    then have "\<not> ow_running (os_wdt_run (zip calls ds) new_os_watchdog) \<and>
        \<not> ow_fired (os_wdt_run (zip calls ds) new_os_watchdog)"
      by (intro unarmed_run) (auto simp: new_os_watchdog_def dest: set_zip_leftD)
    then show ?thesis
      using \<open>MainWdt (WdtSetup os_ok) \<notin> set calls\<close> c(2) by (simp add: os_wdt_pass_def)
  qed
qed

theorem watchdog_in_time_witness:
  "\<exists>log calls log' calls'. zephyr_main_start example_system ''t'' ''g'' ''v'' = (Inr (Inr 3), log, calls) \<and>
     \<not> ow_fired (os_wdt_run (zip calls (replicate (length calls) 20) @
       timed_loop (Inr 3) [(os_ok, 1, 0), (os_ok, 1, 50)]) new_os_watchdog) \<and>
     ow_fired (os_wdt_run (zip calls (replicate (length calls) 20) @
       timed_loop (Inr 3) ((os_ok, 1, 0) # replicate 10 (Some EIO, 0, 0))) new_os_watchdog) \<and>
     zephyr_main_start (example_system\<lparr>zy_bt_enable := -5\<rparr>) ''t'' ''g'' ''v'' = (Inl (-1), log', calls') \<and>
     ow_fired (os_wdt_pass 10000 (os_wdt_run (zip calls' (replicate (length calls') 20)) new_os_watchdog))"
proof -
  have "fst (zephyr_main_start example_system ''t'' ''g'' ''v'') = Inr (Inr 3)"
    "length (snd (snd (zephyr_main_start example_system ''t'' ''g'' ''v''))) = 5" by code_simp+
  then obtain log calls where a: "zephyr_main_start example_system ''t'' ''g'' ''v'' = (Inr (Inr 3), log, calls)"
    "length calls = 5" by (metis prod.collapse)
  let ?bad = "zephyr_main_start (example_system\<lparr>zy_bt_enable := -5\<rparr>) ''t'' ''g'' ''v''"
  have "fst ?bad = Inl (-1)" "length (snd (snd ?bad)) = 4" "MainWdt (WdtSetup os_ok) \<in> set (snd (snd ?bad))"
    by code_simp+
  then obtain log' calls' where b: "?bad = (Inl (-1), log', calls')" "length calls' = 4"
    "MainWdt (WdtSetup os_ok) \<in> set calls'" by (metis prod.collapse)
  let ?failing = "replicate 10 (Some EIO, 0 :: nat, 0 :: nat)"
  have f: "list_all (\<lambda>(answer, feed, late). answer \<noteq> os_ok) ?failing" "length ?failing = 10"
    by (simp_all add: list_all_iff)
  have r: "list_all (\<lambda>(answer, feed, late). answer = os_ok \<and> feed + late < 9000)
      [(os_ok, 1 :: nat, 0), (os_ok, 1, 50)]" by simp
  have s: "sum_list (replicate (length calls) (20 :: nat)) < 10000"
    "sum_list (replicate (length calls') (20 :: nat)) < 10000" using a(2) b(2) by (simp_all add: sum_list_replicate)
  show ?thesis
    using watchdog_in_time [OF a(1) length_replicate s(1) r f order_refl, of "[(os_ok, 1, 0)]"]
      watchdog_in_time [OF b(1) length_replicate s(2) r f order_refl] a(1) b(1,3)
    by simp
qed

end
