(* ===== verification/App_Process.thy ===== *)
theory App_Process
  imports App_Main
begin

text \<open>
  The POSIX process as a whole (src/platform/posix_core/posix_main.cpp): \<open>main\<close>, the thread it
  starts and joins, and the application that runs there (\<open>AppEntry::run\<close>, which is \<open>run_impl\<close>).
\<close>

text \<open>\<open>main_thread\<close>: the log and the calls of an application that returns; \<open>None\<close>: it never does.\<close>

definition main_thread ::
    "hci_api \<Rightarrow> crypto_impl \<Rightarrow> u64 \<Rightarrow> adv_report list \<Rightarrow> (log_call list \<times> hci_call list) option" where
  "main_thread api crypto driver_ptr early =
     (case app_start api crypto driver_ptr early of
        Some (None, log, calls) \<Rightarrow> Some (log, calls)
      | _ \<Rightarrow> None)"

text \<open>
  The exit code of the process. If the thread was started, \<open>main\<close> waits in \<open>pthread_join\<close> until
  \<open>main_thread\<close> has returned.
\<close>

definition posix_process ::
    "pthread_api \<Rightarrow> hci_api \<Rightarrow> crypto_impl \<Rightarrow> u64 \<Rightarrow> adv_report list \<Rightarrow> string \<Rightarrow> string \<Rightarrow> int option" where
  "posix_process api hci crypto driver_ptr early build_time git_commit =
     do {
       (code, log, err, calls) \<leftarrow> posix_main api build_time git_commit;
       if threads_started calls = 0 then Some code
       else do {
         (app_log, app_calls) \<leftarrow> main_thread hci crypto driver_ptr early;
         Some code
       }
     }"

text \<open>
  What the exit code says: a process that exits with 0 has started the application, which then
  gave up (a running one never returns); one that exits with another code has exited with -1 and
  never started it. So a failed start-up of driver or scanner is reported as success.
\<close>

theorem posix_exit_code:
  assumes "posix_process api hci crypto driver_ptr early build_time git_commit = Some code"
  shows "code = 0 \<and> (\<exists>log calls. app_start hci crypto driver_ptr early = Some (None, log, calls)) \<or> code = - 1"
proof -
  obtain log err calls where m: "posix_main api build_time git_commit = Some (code, log, err, calls)"
    and a: "threads_started calls \<noteq> 0 \<Longrightarrow> main_thread hci crypto driver_ptr early \<noteq> None"
    using assms by (auto simp: posix_process_def split: bind_splits if_splits)
  have "\<exists>log calls. app_start hci crypto driver_ptr early = Some (None, log, calls)"
    if "main_thread hci crypto driver_ptr early \<noteq> None"
    using that by (auto simp: main_thread_def split: option.splits)
  then show ?thesis using posix_main_outcome [OF m] a by auto
qed

theorem posix_exit_code_witness:
  "posix_process example_api (example_hci\<lparr>hci_get_route := -1\<rparr>) example_backend 64 [] ''t'' ''g'' = Some 0 \<and>
   (\<exists>log calls. app_start (example_hci\<lparr>hci_get_route := -1\<rparr>) example_backend 64 [] = Some (None, log, calls))"
proof -
  have p: "posix_process example_api (example_hci\<lparr>hci_get_route := -1\<rparr>) example_backend 64 [] ''t'' ''g'' = Some 0"
    by code_simp
  from posix_exit_code [OF this] p show ?thesis by simp
qed

end
