(* ===== verification/Zephyr_Appender.thy ===== *)
theory Zephyr_Appender
  imports Logging
begin

text \<open>
  The appender that carries log records to Zephyr
  (src/platform/zephyr_core/logging/ZephyrAppender.cpp). A record is its severity, the name of the
  function and the message; \<open>failed\<close> stands for a negative result of \<open>snprintf\<close>.
\<close>

datatype zephyr_log = LOG_ERR string | LOG_WRN string | LOG_INF string | LOG_DBG string

fun zephyr_log_text :: "zephyr_log \<Rightarrow> string" where
  "zephyr_log_text (LOG_ERR s) = s"
| "zephyr_log_text (LOG_WRN s) = s"
| "zephyr_log_text (LOG_INF s) = s"
| "zephyr_log_text (LOG_DBG s) = s"

definition k_appender_buf_size :: nat where "k_appender_buf_size = 512"

definition appender_write :: "bool \<Rightarrow> severity \<Rightarrow> string \<Rightarrow> string \<Rightarrow> zephyr_log" where
  "appender_write failed sev func msg =
     (let text = func @ '': '' @ msg;
          written = length text;
          buf = (if failed \<or> written \<ge> k_appender_buf_size then ''<truncated>''
                 else snprintf_trunc k_appender_buf_size text)
      in case sev of
           sev_fatal \<Rightarrow> LOG_ERR buf
         | sev_error \<Rightarrow> LOG_ERR buf
         | sev_warning \<Rightarrow> LOG_WRN buf
         | sev_info \<Rightarrow> LOG_INF buf
         | sev_debug \<Rightarrow> LOG_DBG buf
         | sev_verbose \<Rightarrow> LOG_DBG buf
         | _ \<Rightarrow> LOG_INF buf)"

text \<open>
  No message of the log macros is lost in the appender: a message that \<open>LogDispatch\<close> hands to
  plog is passed to Zephyr whole, behind the name of its function, as long as that name has at
  most 254 characters and \<open>snprintf\<close> does not fail; it is never replaced by the truncation mark.
\<close>

theorem appender_keeps_messages:
  assumes "dispatch_log format logger call = Some (sev, msg)" and "length func \<le> 254"
  shows "zephyr_log_text (appender_write False sev func msg) = func @ '': '' @ msg"
proof -
  have "length msg < k_log_buf_size" using dispatch_log_bounded [OF assms(1)] .
  then have "length (func @ '': '' @ msg) < k_appender_buf_size"
    using assms(2) by (simp add: k_log_buf_size_def k_appender_buf_size_def)
  then show ?thesis
    by (cases sev) (simp_all add: appender_write_def snprintf_trunc_def Let_def)
qed

theorem appender_keeps_messages_witness:
  "zephyr_log_text (appender_write False sev_info ''run_impl'' ''ready'') = ''run_impl: ready''"
  using appender_keeps_messages [of "\<lambda>f a. f" "Some sev_info" "LOGGER_NOTICE ''ready'' []" sev_info "''ready''" "''run_impl''"]
  by (simp add: dispatch_log_def LOGGER_NOTICE_def snprintf_trunc_def k_log_buf_size_def less_eq_severity_def)

end
