(* ===== verification/Usb_Console.thy ===== *)
theory Usb_Console
  imports Logging
begin

text \<open>
  The USB console of Zephyr boards (src/platform/zephyr_core/usb_common/common_usbd.c). The USB
  device stack is a parameter: its answers to the calls, as a function of the call, and the
  constants of its headers. What the preprocessor decides is the configuration.
\<close>

datatype usbd_speed = USBD_SPEED_FS | USBD_SPEED_HS

datatype usbd_desc = Desc_lang | Desc_mfr | Desc_product | Desc_sample_sn | Desc_sample_usbext

datatype usbd_config = Sample_fs_config | Sample_hs_config

datatype usbd_call =
    UsbdAddDescriptor usbd_desc
  | UsbdAddConfiguration usbd_speed usbd_config u8
  | UsbdRegisterAllClasses usbd_speed u8 "string list"
  | UsbdSetCodeTriple usbd_speed u8 u8 u8
  | UsbdSelfPowered bool
  | UsbdMsgRegisterCb string
  | UsbdSetBcdUsb usbd_speed u16
  | UsbdInit

record usb_kconfig =
  config_hwinfo :: bool
  config_iad_classes :: "bool list"  \<comment> \<open>CDC_ACM, CDC_ECM, CDC_NCM, MIDI2, AUDIO2, VIDEO\<close>
  config_20_extension_desc :: bool
  config_self_powered :: bool
  config_remote_wakeup :: bool
  supports_high_speed :: bool

record usbd_stack =
  usbd_answer :: "usbd_call \<Rightarrow> int"
  usbd_caps_speed :: usbd_speed
  usb_bcc_miscellaneous :: u8
  usb_scd_self_powered :: u8
  usb_scd_remote_wakeup :: u8

datatype usb_log = LOG_ERR string "int option"

text \<open>Whether a context is returned, the log and the calls in their order.\<close>

type_synonym usb_result = "bool \<times> usb_log list \<times> usbd_call list"

subsection \<open>The code\<close>

definition blocklist :: "string list" where
  "blocklist = [''dfu_dfu'']"

definition usb_attributes :: "usb_kconfig \<Rightarrow> usbd_stack \<Rightarrow> u8" where
  "usb_attributes cfg st =
     (if config_self_powered cfg then usb_scd_self_powered st else 0) OR
     (if config_remote_wakeup cfg then usb_scd_remote_wakeup st else 0)"

text \<open>\<open>err = call; if (err) { LOG_ERR(...); return NULL; }\<close>, followed by the rest.\<close>

definition usb_try :: "usbd_stack \<Rightarrow> usbd_call \<Rightarrow> (int \<Rightarrow> usb_log) \<Rightarrow> usb_result \<Rightarrow> usb_result" where
  "usb_try st call msg rest =
     (let err = usbd_answer st call
      in if err \<noteq> 0 then (False, [msg err], [call])
         else let (ret, log, calls) = rest in (ret, log, call # calls))"

text \<open>A call whose result is ignored.\<close>

definition usb_do :: "usbd_call \<Rightarrow> usb_result \<Rightarrow> usb_result" where
  "usb_do call rest = (let (ret, log, calls) = rest in (ret, log, call # calls))"

definition sample_fix_code_triple :: "usb_kconfig \<Rightarrow> usbd_stack \<Rightarrow> usbd_speed \<Rightarrow> usbd_call" where
  "sample_fix_code_triple cfg st speed =
     (if True \<in> set (config_iad_classes cfg)
      then UsbdSetCodeTriple speed (usb_bcc_miscellaneous st) 0x02 0x01
      else UsbdSetCodeTriple speed 0 0 0)"

definition sample_usbd_setup_device :: "usb_kconfig \<Rightarrow> usbd_stack \<Rightarrow> string option \<Rightarrow> usb_result" where
  "sample_usbd_setup_device cfg st msg_cb =
     (let extension =
            (if config_20_extension_desc cfg then
               usb_do (UsbdSetBcdUsb USBD_SPEED_FS 0x0201)
                 (usb_do (UsbdSetBcdUsb USBD_SPEED_HS 0x0201)
                   (usb_try st (UsbdAddDescriptor Desc_sample_usbext)
                     (\<lambda>err. LOG_ERR ''Failed to add USB 2.0 Extension Descriptor'' None) (True, [], [])))
             else (True, [], []));
          callback =
            (case msg_cb of
               None \<Rightarrow> extension
             | Some cb \<Rightarrow> usb_try st (UsbdMsgRegisterCb cb)
                 (\<lambda>err. LOG_ERR ''Failed to register message callback'' None) extension);
          full_speed =
            usb_try st (UsbdAddConfiguration USBD_SPEED_FS Sample_fs_config (usb_attributes cfg st))
              (\<lambda>err. LOG_ERR ''Failed to add Full-Speed configuration'' None)
              (usb_try st (UsbdRegisterAllClasses USBD_SPEED_FS 1 blocklist)
                (\<lambda>err. LOG_ERR ''Failed to add register classes'' None)
                (usb_do (sample_fix_code_triple cfg st USBD_SPEED_FS)
                  (usb_do (UsbdSelfPowered (usb_attributes cfg st AND usb_scd_self_powered st \<noteq> 0))
                    callback)));
          high_speed =
            (if supports_high_speed cfg \<and> usbd_caps_speed st = USBD_SPEED_HS then
               usb_try st (UsbdAddConfiguration USBD_SPEED_HS Sample_hs_config (usb_attributes cfg st))
                 (\<lambda>err. LOG_ERR ''Failed to add High-Speed configuration'' None)
                 (usb_try st (UsbdRegisterAllClasses USBD_SPEED_HS 1 blocklist)
                   (\<lambda>err. LOG_ERR ''Failed to add register classes'' None)
                   (usb_do (sample_fix_code_triple cfg st USBD_SPEED_HS) full_speed))
             else full_speed);
          serial_number =
            (if config_hwinfo cfg then
               usb_try st (UsbdAddDescriptor Desc_sample_sn)
                 (\<lambda>err. LOG_ERR ''Failed to initialize SN descriptor (%d)'' (Some err)) high_speed
             else high_speed)
      in usb_try st (UsbdAddDescriptor Desc_lang)
           (\<lambda>err. LOG_ERR ''Failed to initialize language descriptor (%d)'' (Some err))
           (usb_try st (UsbdAddDescriptor Desc_mfr)
             (\<lambda>err. LOG_ERR ''Failed to initialize manufacturer descriptor (%d)'' (Some err))
             (usb_try st (UsbdAddDescriptor Desc_product)
               (\<lambda>err. LOG_ERR ''Failed to initialize product descriptor (%d)'' (Some err))
               serial_number)))"

definition sample_usbd_init_device :: "usb_kconfig \<Rightarrow> usbd_stack \<Rightarrow> string option \<Rightarrow> usb_result" where
  "sample_usbd_init_device cfg st msg_cb =
     (let (ret, log, calls) = sample_usbd_setup_device cfg st msg_cb
      in if \<not> ret then (False, log, calls)
         else let (ret', log', calls') =
                usb_try st UsbdInit (\<lambda>err. LOG_ERR ''Failed to initialize device support'' None)
                  (True, [], [])
              in (ret', log @ log', calls @ calls'))"

subsection \<open>It stops at the first call that fails\<close>

definition usb_checked :: "usbd_call \<Rightarrow> bool" where
  "usb_checked call = (case call of UsbdSetCodeTriple s a b c \<Rightarrow> False | UsbdSelfPowered p \<Rightarrow> False
     | UsbdSetBcdUsb s v \<Rightarrow> False | _ \<Rightarrow> True)"

definition usb_answered :: "usbd_stack \<Rightarrow> usbd_call list \<Rightarrow> bool" where
  "usb_answered st calls \<longleftrightarrow> (\<forall>c \<in> set calls. usb_checked c \<longrightarrow> usbd_answer st c = 0)"

definition usb_stops :: "usbd_stack \<Rightarrow> usb_result \<Rightarrow> bool" where
  "usb_stops st r = (case r of (ret, log, calls) \<Rightarrow>
     if ret then log = [] \<and> usb_answered st calls
     else length log = 1 \<and> calls \<noteq> [] \<and> usb_answered st (butlast calls) \<and> usbd_answer st (last calls) \<noteq> 0)"

lemma usb_answered_simps [simp]:
  "usb_answered st []"
  "usb_answered st (c # cs) \<longleftrightarrow> (usb_checked c \<longrightarrow> usbd_answer st c = 0) \<and> usb_answered st cs"
  "usb_answered st (cs @ ds) \<longleftrightarrow> usb_answered st cs \<and> usb_answered st ds"
  by (auto simp: usb_answered_def)

lemma usb_stops_done [simp]: "usb_stops st (True, [], [])"
  by (simp add: usb_stops_def)

lemma usb_stops_try [simp]: "usb_stops st rest \<Longrightarrow> usb_stops st (usb_try st call msg rest)"
  by (auto simp: usb_stops_def usb_try_def Let_def split: prod.splits if_splits)

lemma usb_stops_do [simp]: "usb_stops st rest \<Longrightarrow> \<not> usb_checked call \<Longrightarrow> usb_stops st (usb_do call rest)"
  by (auto simp: usb_stops_def usb_do_def split: prod.splits if_splits)

lemma usb_unchecked [simp]:
  "\<not> usb_checked (sample_fix_code_triple cfg st speed)" "\<not> usb_checked (UsbdSelfPowered p)"
  "\<not> usb_checked (UsbdSetBcdUsb s v)"
  by (simp_all add: usb_checked_def sample_fix_code_triple_def)

lemma usb_setup_stops: "usb_stops st (sample_usbd_setup_device cfg st msg_cb)"
  by (simp add: sample_usbd_setup_device_def Let_def split: option.split)

text \<open>
  The console's set-up returns the device exactly when the system accepted every call whose answer
  the code looks at; it then has initialised the device, last, and logged nothing. Otherwise the last
  call is the one that failed, and one line is logged.
\<close>

theorem usb_init_device_stops:
  assumes "sample_usbd_init_device cfg st msg_cb = (ret, log, calls)"
  shows "if ret then log = [] \<and> last calls = UsbdInit \<and> usb_answered st calls
    else length log = 1 \<and> usb_answered st (butlast calls) \<and> usbd_answer st (last calls) \<noteq> 0"
  using assms usb_setup_stops [of st cfg msg_cb]
  by (auto simp: sample_usbd_init_device_def usb_stops_def usb_try_def Let_def split: prod.splits if_splits)

end
