(* ===== verification/Mutex_Core.thy ===== *)
theory Mutex_Core
  imports Thread_Core
begin

text \<open>
  Mutexes, the part every platform shares (src/platform/common/imutex/IMutex.hpp): the members of
  \<open>IMutex\<close>, its operations over the derived class's \<open>do_init\<close>, \<open>do_lock\<close> and \<open>do_unlock\<close>, and the
  scope guard \<open>IMutexLocker\<close>. The contract of a platform is the locale \<open>mutex_platform\<close>; what the
  operating system's mutex promises is a predicate on the calls it answers.
\<close>

record IMutex =
  mutex_name :: string
  mutex_initialized :: bool

definition mutex_name_size :: nat where "mutex_name_size = 32"

definition mutex_name_literal :: "string \<Rightarrow> string option" where
  "mutex_name_literal name =
     (if length name + 1 \<le> mutex_name_size
      then Some ((name @ replicate (mutex_name_size - length name) (CHR 0x00))
                   [length name := CHR 0x00])
      else None)"

definition mutex_name_runtime :: "string \<Rightarrow> string" where
  "mutex_name_runtime name =
     (let copy_len = min (length name) (mutex_name_size - 1)
      in (take copy_len name @ replicate (mutex_name_size - copy_len) (CHR 0x00))
           [copy_len := CHR 0x00])"

definition new_mutex :: "string \<Rightarrow> IMutex" where
  "new_mutex name = \<lparr>mutex_name = mutex_name_runtime name, mutex_initialized = False\<rparr>"

subsection \<open>Calls of the operating system, each with its answer\<close>

datatype mutex_call =
    MutexAttrInit os_result
  | MutexAttrSettype os_result
  | MutexAttrDestroy os_result
  | MutexInit os_result
  | MutexDestroy os_result
  | MutexLock os_result
  | MutexUnlock os_result

type_synonym mutex_result = "(unit, MutexError) error_handler logged"

type_synonym 's mutex_op = "'s \<Rightarrow> mutex_result \<times> 's \<times> mutex_call list"

text \<open>Unlocking returns nothing; the flag is false when it ends the program (\<open>std::terminate\<close>).\<close>

type_synonym 's unlock_op = "'s \<Rightarrow> bool \<times> 's \<times> mutex_call list"

subsection \<open>Operations\<close>

definition mutex_init :: "'a IMutex_scheme mutex_op \<Rightarrow> 'a IMutex_scheme mutex_op" where
  "mutex_init do_init m =
     (if \<not> mutex_initialized m then
        let (result, m, calls) = do_init m
        in (result, if has_value (fst result) then m\<lparr>mutex_initialized := True\<rparr> else m, calls)
      else
        (of_error MutexError_name MutexError_AlreadyInitialized ''Mutex already initialized'' ''init'',
         m, []))"

definition mutex_lock :: "'a IMutex_scheme mutex_op \<Rightarrow> 'a IMutex_scheme mutex_op" where
  "mutex_lock do_lock m =
     (if \<not> mutex_initialized m then
        (of_error MutexError_name MutexError_NotInitialized ''Mutex not initialized'' ''lock'', m, [])
      else do_lock m)"

definition mutex_unlock :: "'a IMutex_scheme unlock_op \<Rightarrow> 'a IMutex_scheme unlock_op" where
  "mutex_unlock do_unlock m = (if \<not> mutex_initialized m then (True, m, []) else do_unlock m)"

text \<open>\<open>IMutexLocker\<close>: the constructor's result is the member \<open>locked_\<close>.\<close>

definition locker_ctor ::
    "'a IMutex_scheme mutex_op \<Rightarrow> 'a IMutex_scheme \<Rightarrow> (bool \<times> log_call list) \<times> 'a IMutex_scheme \<times> mutex_call list"
  where
  "locker_ctor do_lock m =
     (let (lock_result, m, calls) = mutex_lock do_lock m
      in ((has_value (fst lock_result), snd lock_result), m, calls))"

definition locker_dtor ::
    "bool \<Rightarrow> 'a IMutex_scheme unlock_op \<Rightarrow> 'a IMutex_scheme unlock_op" where
  "locker_dtor locked do_unlock m = (if locked then mutex_unlock do_unlock m else (True, m, []))"

subsection \<open>Threads that use one mutex through guards\<close>

text \<open>
  A step of thread \<open>t\<close>: it initialises the mutex, opens a scope with a guard, or leaves its
  innermost scope. \<open>'e\<close> holds the timeout and the answers of the system. A call that waits takes
  place when it returns, so an interleaving is a list of steps. The state is the mutex, the guards
  alive (innermost first, with their thread and \<open>locked_\<close>) and whether the program is alive.
\<close>

datatype 'e guard_step = GuardInit nat 'e | GuardEnter nat 'e | GuardLeave nat 'e

record 'm guard_world =
  gw_mutex :: 'm
  gw_guards :: "(nat \<times> bool) list"
  gw_alive :: bool

fun remove_guard :: "nat \<Rightarrow> (nat \<times> bool) list \<Rightarrow> (bool \<times> (nat \<times> bool) list) option" where
  "remove_guard t [] = None"
| "remove_guard t ((u, locked) # gs) =
     (if u = t then Some (locked, gs)
      else map_option (\<lambda>(l, gs'). (l, (u, locked) # gs')) (remove_guard t gs))"

definition guard_step ::
    "('e \<Rightarrow> 'a IMutex_scheme mutex_op) \<Rightarrow> ('e \<Rightarrow> 'a IMutex_scheme mutex_op) \<Rightarrow>
      ('e \<Rightarrow> 'a IMutex_scheme unlock_op) \<Rightarrow> 'e guard_step \<Rightarrow> 'a IMutex_scheme guard_world \<Rightarrow>
      'a IMutex_scheme guard_world \<times> (nat \<times> mutex_call) list" where
  "guard_step do_init do_lock do_unlock step w =
     (case step of
        GuardInit t env \<Rightarrow>
          (let (r, m, calls) = mutex_init (do_init env) (gw_mutex w)
           in (w\<lparr>gw_mutex := m\<rparr>, map (Pair t) calls))
      | GuardEnter t env \<Rightarrow>
          (let ((locked, log), m, calls) = locker_ctor (do_lock env) (gw_mutex w)
           in (w\<lparr>gw_mutex := m, gw_guards := (t, locked) # gw_guards w\<rparr>, map (Pair t) calls))
      | GuardLeave t env \<Rightarrow>
          (case remove_guard t (gw_guards w) of
             None \<Rightarrow> (w, [])
           | Some (locked, gs) \<Rightarrow>
               (let (alive, m, calls) = locker_dtor locked (do_unlock env) (gw_mutex w)
                in (w\<lparr>gw_mutex := m, gw_guards := gs, gw_alive := alive\<rparr>, map (Pair t) calls))))"

fun guard_run ::
    "('e \<Rightarrow> 'a IMutex_scheme mutex_op) \<Rightarrow> ('e \<Rightarrow> 'a IMutex_scheme mutex_op) \<Rightarrow>
      ('e \<Rightarrow> 'a IMutex_scheme unlock_op) \<Rightarrow> 'e guard_step list \<Rightarrow> 'a IMutex_scheme guard_world \<Rightarrow>
      'a IMutex_scheme guard_world \<times> (nat \<times> mutex_call) list" where
  "guard_run do_init do_lock do_unlock [] w = (w, [])"
| "guard_run do_init do_lock do_unlock (s # ss) w =
     (if \<not> gw_alive w then (w, [])
      else
        let (w', cs) = guard_step do_init do_lock do_unlock s w;
            (w'', ds) = guard_run do_init do_lock do_unlock ss w'
        in (w'', cs @ ds))"

definition new_world :: "'m \<Rightarrow> 'm guard_world" where
  "new_world m = \<lparr>gw_mutex = m, gw_guards = [], gw_alive = True\<rparr>"

definition locked_guards :: "'m guard_world \<Rightarrow> (nat \<times> bool) list" where
  "locked_guards w = filter snd (gw_guards w)"

subsection \<open>What the operating system promises\<close>

text \<open>
  The documented behaviour of the system's mutex, on a call of thread \<open>t\<close> in the state \<open>holder\<close>
  (the holding thread and how often it holds): \<open>None\<close> for an answer the documentation excludes.
  A lock succeeds only on a free mutex, or, on a recursive one, for its holder; an unlock succeeds
  exactly for the holder; initialising yields a free mutex.
\<close>

fun os_mutex_step ::
    "bool \<Rightarrow> nat \<times> mutex_call \<Rightarrow> (nat \<times> nat) option \<Rightarrow> (nat \<times> nat) option option" where
  "os_mutex_step recursive (t, MutexInit a) holder = Some (if a = os_ok then None else holder)"
| "os_mutex_step recursive (t, MutexDestroy a) holder = Some (if a = os_ok then None else holder)"
| "os_mutex_step recursive (t, MutexLock a) holder =
     (if a = os_ok then
        case holder of
          None \<Rightarrow> Some (Some (t, 1))
        | Some (h, n) \<Rightarrow> if recursive \<and> h = t then Some (Some (h, n + 1)) else None
      else Some holder)"
| "os_mutex_step recursive (t, MutexUnlock a) holder =
     (if a = os_ok then
        case holder of
          None \<Rightarrow> None
        | Some (h, n) \<Rightarrow> if h = t then Some (if n = 1 then None else Some (h, n - 1)) else None
      else
        case holder of
          None \<Rightarrow> Some holder
        | Some (h, n) \<Rightarrow> if h = t then None else Some holder)"
| "os_mutex_step recursive (t, c) holder = Some holder"

fun os_mutex ::
    "bool \<Rightarrow> (nat \<times> mutex_call) list \<Rightarrow> (nat \<times> nat) option \<Rightarrow> (nat \<times> nat) option option" where
  "os_mutex recursive [] holder = Some holder"
| "os_mutex recursive (c # cs) holder = Option.bind (os_mutex_step recursive c holder) (os_mutex recursive cs)"

lemma os_mutex_append:
  "os_mutex recursive (cs @ ds) holder = Option.bind (os_mutex recursive cs holder) (os_mutex recursive ds)"
  by (induction cs arbitrary: holder) (auto split: bind_splits)

fun set_up_call :: "mutex_call \<Rightarrow> bool" where
  "set_up_call (MutexLock a) = False"
| "set_up_call (MutexUnlock a) = False"
| "set_up_call _ = True"

lemma os_mutex_set_up:
  "list_all set_up_call cs \<Longrightarrow> os_mutex recursive (map (Pair t) cs) None = Some None"
proof (induction cs)
  case (Cons c cs)
  then show ?case by (cases c) auto
qed simp

subsection \<open>The contract of a platform\<close>

text \<open>
  \<open>do_init\<close> neither locks nor unlocks; \<open>do_lock\<close> asks the system once and reports its answer;
  \<open>do_unlock\<close> asks it once, and ends the program at most when the system refuses.
\<close>

locale mutex_platform =
  fixes do_init :: "'e \<Rightarrow> 'a IMutex_scheme mutex_op" and do_lock :: "'e \<Rightarrow> 'a IMutex_scheme mutex_op"
    and do_unlock :: "'e \<Rightarrow> 'a IMutex_scheme unlock_op" and recursive :: bool
  assumes init_calls: "do_init env m = (r, m', cs) \<Longrightarrow> list_all set_up_call cs"
    and init_failed: "do_init env m = (r, m', cs) \<Longrightarrow> \<not> has_value (fst r) \<Longrightarrow>
      \<not> mutex_initialized m \<Longrightarrow> \<not> mutex_initialized m'"
    and lock_calls: "do_lock env m = (r, m', cs) \<Longrightarrow>
      m' = m \<and> (\<exists>a. cs = [MutexLock a] \<and> (has_value (fst r) \<longleftrightarrow> a = os_ok))"
    and unlock_calls: "do_unlock env m = (alive, m', cs) \<Longrightarrow>
      m' = m \<and> (\<exists>a. cs = [MutexUnlock a] \<and> (a = os_ok \<longrightarrow> alive))"
begin

abbreviation "step \<equiv> guard_step do_init do_lock do_unlock"
abbreviation "run \<equiv> guard_run do_init do_lock do_unlock"

end

text \<open>
  The guards that hold the mutex are those of its holder, as many as it holds; without a holder
  there are none, and before the initialisation there is no holder.
\<close>

definition guards_match :: "'a IMutex_scheme guard_world \<Rightarrow> (nat \<times> nat) option \<Rightarrow> bool" where
  "guards_match w holder \<longleftrightarrow> gw_alive w \<and>
     (case holder of
        None \<Rightarrow> locked_guards w = []
      | Some (h, n) \<Rightarrow> n > 0 \<and> length (locked_guards w) = n \<and> list_all (\<lambda>g. fst g = h) (locked_guards w)
                       \<and> mutex_initialized (gw_mutex w))"

lemma remove_guard_locked:
  "remove_guard t gs = Some (locked, gs') \<Longrightarrow>
     (locked \<longrightarrow> (t, True) \<in> set gs \<and> length (filter snd gs) = length (filter snd gs') + 1) \<and>
     (\<not> locked \<longrightarrow> filter snd gs = filter snd gs') \<and> set gs' \<subseteq> set gs"
proof (induction gs arbitrary: gs')
  case (Cons g gs)
  obtain u l where g: "g = (u, l)" by (cases g)
  show ?case
  proof (cases "u = t")
    case True
    then show ?thesis using Cons.prems by (auto simp: g)
  next
    case False
    then obtain gs1 where "remove_guard t gs = Some (locked, gs1)" "gs' = (u, l) # gs1"
      using Cons.prems by (auto simp: g)
    then show ?thesis using Cons.IH [of gs1] by (auto simp: g)
  qed
qed simp

context mutex_platform begin

lemma init_match:
  assumes match: "guards_match w holder" and step: "step (GuardInit t env) w = (w', cs)"
    and os: "os_mutex recursive cs holder = Some holder'"
  shows "guards_match w' holder'"
proof (cases "mutex_initialized (gw_mutex w)")
  case True
  then show ?thesis using assms by (auto simp: guard_step_def mutex_init_def of_error_def)
next
  case False
  obtain r m calls where d: "do_init env (gw_mutex w) = (r, m, calls)" by (metis prod_cases3)
  have none: "holder = None" using match False by (auto simp: guards_match_def split: option.splits)
  have "w' = w\<lparr>gw_mutex := if has_value (fst r) then m\<lparr>mutex_initialized := True\<rparr> else m\<rparr>"
    "cs = map (Pair t) calls"
    using step False d by (auto simp: guard_step_def mutex_init_def Let_def)
  moreover have "holder' = None"
    using os os_mutex_set_up [OF init_calls [OF d]] none calculation(2) by simp
  ultimately show ?thesis using match none by (simp add: guards_match_def locked_guards_def)
qed

lemma enter_match:
  assumes match: "guards_match w holder" and step: "step (GuardEnter t env) w = (w', cs)"
    and os: "os_mutex recursive cs holder = Some holder'"
  shows "guards_match w' holder'"
proof (cases "mutex_initialized (gw_mutex w)")
  case False
  then have "holder' = holder" "locked_guards w' = locked_guards w" "gw_alive w' = gw_alive w"
      "gw_mutex w' = gw_mutex w"
    using step os
    by (auto simp: guard_step_def locker_ctor_def mutex_lock_def of_error_def locked_guards_def)
  then show ?thesis using match by (auto simp: guards_match_def split: option.splits)
next
  case True
  obtain r m calls where d: "do_lock env (gw_mutex w) = (r, m, calls)" by (metis prod_cases3)
  obtain a where a: "m = gw_mutex w" "calls = [MutexLock a]" "has_value (fst r) \<longleftrightarrow> a = os_ok"
    using lock_calls [OF d] by blast
  have w': "gw_guards w' = (t, a = os_ok) # gw_guards w" "gw_alive w' = gw_alive w" "gw_mutex w' = gw_mutex w"
    and cs: "cs = [(t, MutexLock a)]"
    using step True d a by (auto simp: guard_step_def locker_ctor_def mutex_lock_def Let_def)
  show ?thesis
    using match os True
    by (auto simp: guards_match_def locked_guards_def w' cs split: option.splits if_splits)
qed

lemma leave_match:
  assumes match: "guards_match w holder" and step: "step (GuardLeave t env) w = (w', cs)"
    and os: "os_mutex recursive cs holder = Some holder'"
  shows "guards_match w' holder'"
proof (cases "remove_guard t (gw_guards w)")
  case None
  then show ?thesis using assms by (simp add: guard_step_def)
next
  case (Some p)
  then obtain locked gs where rm: "remove_guard t (gw_guards w) = Some (locked, gs)" by (cases p) simp
  note g = remove_guard_locked [OF rm]
  show ?thesis
  proof (cases locked)
    case False
    then show ?thesis
      using step os match g rm
      by (auto simp: guard_step_def locker_dtor_def guards_match_def locked_guards_def
          split: option.splits)
  next
    case True
    have in_guards: "(t, True) \<in> set (locked_guards w)" using g True by (simp add: locked_guards_def)
    then have "holder \<noteq> None" using match in_guards by (cases holder) (auto simp: guards_match_def)
    then obtain h n where hn: "holder = Some (h, n)" by auto
    then have n: "n > 0" "length (locked_guards w) = n" "list_all (\<lambda>g. fst g = h) (locked_guards w)"
      and init: "mutex_initialized (gw_mutex w)"
      using match by (simp_all add: guards_match_def)
    have "h = t" using n(3) in_guards by (auto simp: list_all_iff)
    with hn n have holder: "holder = Some (t, n)"
      and n: "n > 0" "length (locked_guards w) = n" "list_all (\<lambda>g. fst g = t) (locked_guards w)"
      by simp_all
    obtain alive m calls where d: "do_unlock env (gw_mutex w) = (alive, m, calls)" by (metis prod_cases3)
    obtain a where a: "m = gw_mutex w" "calls = [MutexUnlock a]" "a = os_ok \<longrightarrow> alive"
      using unlock_calls [OF d] by blast
    have w': "gw_guards w' = gs" "gw_alive w' = alive" "gw_mutex w' = gw_mutex w"
      and cs: "cs = [(t, MutexUnlock a)]"
      using step rm True init d a
      by (auto simp: guard_step_def locker_dtor_def mutex_unlock_def Let_def)
    have ok: "a = os_ok" and holder': "holder' = (if n = 1 then None else Some (t, n - 1))"
      using os by (auto simp: cs holder split: if_splits)
    have "length (filter snd gs) + 1 = n" "list_all (\<lambda>g. fst g = t) (filter snd gs)"
      using g True n by (auto simp: locked_guards_def list_all_iff)
    then show ?thesis using a ok holder' init w' by (auto simp: guards_match_def locked_guards_def)
  qed
qed

lemma run_match:
  "guards_match w holder \<Longrightarrow> run steps w = (w', cs) \<Longrightarrow> os_mutex recursive cs holder = Some holder' \<Longrightarrow>
     guards_match w' holder'"
proof (induction steps arbitrary: w holder cs)
  case (Cons s steps)
  obtain w1 cs1 where s: "step s w = (w1, cs1)" by fastforce
  obtain w2 cs2 where r: "run steps w1 = (w2, cs2)" by fastforce
  have "gw_alive w" using Cons.prems(1) by (simp add: guards_match_def)
  then have "w' = w2" "cs = cs1 @ cs2" using Cons.prems(2) s r by auto
  moreover obtain h1 where "os_mutex recursive cs1 holder = Some h1" "os_mutex recursive cs2 h1 = Some holder'"
    using Cons.prems(3) calculation by (auto simp: os_mutex_append split: bind_splits)
  moreover have "guards_match w1 h1"
    using Cons.prems(1) s calculation init_match enter_match leave_match by (cases s) metis+
  ultimately show ?case using Cons.IH r by blast
qed simp

text \<open>From a fresh program, all guards that hold the mutex belong to one thread.\<close>

lemma exclusion:
  assumes "run steps (new_world m) = (w, cs)" "os_mutex recursive cs None = Some holder"
  shows "gw_alive w \<and> length (locked_guards w) = (case holder of None \<Rightarrow> 0 | Some (h, n) \<Rightarrow> n) \<and>
    (\<forall>g \<in> set (locked_guards w). \<forall>g' \<in> set (locked_guards w). fst g = fst g')"
proof -
  have "guards_match (new_world m) None"
    by (simp add: guards_match_def new_world_def locked_guards_def)
  then have match: "guards_match w holder" using run_match assms by blast
  show ?thesis
  proof (cases holder)
    case None
    then show ?thesis using match by (simp add: guards_match_def)
  next
    case (Some p)
    then obtain h n where "holder = Some (h, n)" by (cases p) simp
    then show ?thesis using match by (simp add: guards_match_def list_all_iff)
  qed
qed

end

text \<open>A mutex that is not recursive is held at most once.\<close>

lemma os_mutex_not_recursive:
  "os_mutex False cs holder = Some (Some (h, n)) \<Longrightarrow> (case holder of None \<Rightarrow> True | Some (h, n) \<Rightarrow> n = 1) \<Longrightarrow> n = 1"
proof (induction cs arbitrary: holder)
  case (Cons c cs)
  obtain t x where c: "c = (t, x)" by (cases c)
  obtain holder1 where s: "os_mutex_step False c holder = Some holder1" "os_mutex False cs holder1 = Some (Some (h, n))"
    using Cons.prems(1) by (auto split: bind_splits)
  have "case holder1 of None \<Rightarrow> True | Some (h, n) \<Rightarrow> n = 1"
    using s(1) Cons.prems(2) unfolding c by (cases x) (auto split: option.splits if_splits)
  then show ?case using Cons.IH s(2) by blast
qed simp

end
