(* ===== verification/Mutex_Posix.thy ===== *)
theory Mutex_Posix
  imports Mutex_Core
begin

text \<open>
  POSIX mutexes (src/platform/posix_core/mutex): an error-checking pthread mutex. The answers of
  pthreads are the record \<open>pmutex_api\<close>; the pthread handle itself has no state the code reads.
\<close>

record pmutex_api =
  pm_attr_init :: os_result
  pm_settype :: os_result
  pm_attr_destroy :: os_result
  pm_init :: os_result
  pm_destroy :: os_result
  pm_lock :: os_result
  pm_timedlock :: os_result
  pm_unlock :: os_result

definition errno_to_mutex_error :: "errno \<Rightarrow> MutexError" where
  "errno_to_mutex_error error_code =
     (case error_code of
        EINVAL \<Rightarrow> MutexError_InvalidParameter
      | ENOMEM \<Rightarrow> MutexError_InsufficientMemory
      | EAGAIN \<Rightarrow> MutexError_ResourceLimitExceeded
      | ETIMEDOUT \<Rightarrow> MutexError_Timeout
      | EINTR \<Rightarrow> MutexError_Interrupted
      | EDEADLK \<Rightarrow> MutexError_Deadlock
      | EBUSY \<Rightarrow> MutexError_Busy
      | EPERM \<Rightarrow> MutexError_PermissionDenied
      | EALREADY \<Rightarrow> MutexError_AlreadyInitialized
      | _ \<Rightarrow> MutexError_Unknown)"

definition posix_mutex_error :: "errno \<Rightarrow> string \<Rightarrow> string \<Rightarrow> mutex_result" where
  "posix_mutex_error e msg loc = of_error MutexError_name (errno_to_mutex_error e) msg loc"

text \<open>The part of \<open>do_init\<close> behind the destruction of an old handle.\<close>

definition pthread_mutex_setup :: "pmutex_api \<Rightarrow> 'a IMutex_scheme mutex_op" where
  "pthread_mutex_setup api m =
     (let c1 = [MutexAttrInit (pm_attr_init api)] in
      case pm_attr_init api of
        Some e \<Rightarrow> (posix_mutex_error e ''pthread_mutexattr_init failed'' ''do_init'', m, c1)
      | None \<Rightarrow>
          (let c2 = c1 @ [MutexAttrSettype (pm_settype api)] in
           case pm_settype api of
             Some e \<Rightarrow> (posix_mutex_error e ''pthread_mutexattr_settype failed'' ''do_init'', m,
                        c2 @ [MutexAttrDestroy (pm_attr_destroy api)])
           | None \<Rightarrow>
               (let init_rc = pm_init api; attr_destroy_rc = pm_attr_destroy api;
                    c3 = c2 @ [MutexInit init_rc, MutexAttrDestroy attr_destroy_rc] in
                case attr_destroy_rc of
                  Some e \<Rightarrow> (posix_mutex_error e ''pthread_mutexattr_destroy failed'' ''do_init'', m,
                             if init_rc = os_ok then c3 @ [MutexDestroy (pm_destroy api)] else c3)
                | None \<Rightarrow>
                    (case init_rc of
                       Some e \<Rightarrow> (posix_mutex_error e ''pthread_mutex_init failed'' ''do_init'', m, c3)
                     | None \<Rightarrow> (of_value (), m\<lparr>mutex_initialized := True\<rparr>, c3)))))"

definition posix_mutex_init :: "pmutex_api \<Rightarrow> 'a IMutex_scheme mutex_op" where
  "posix_mutex_init api m =
     (if mutex_initialized m then
        case pm_destroy api of
          Some e \<Rightarrow> (posix_mutex_error e ''pthread_mutex_destroy failed'' ''do_init'', m,
                     [MutexDestroy (pm_destroy api)])
        | None \<Rightarrow>
            (let (r, m, calls) = pthread_mutex_setup api (m\<lparr>mutex_initialized := False\<rparr>)
             in (r, m, MutexDestroy (pm_destroy api) # calls))
      else pthread_mutex_setup api m)"

text \<open>\<open>abs_timeout\<close> is \<open>None\<close> for the null pointer; the deadline goes to pthreads.\<close>

definition posix_mutex_lock ::
    "pmutex_api \<times> (int \<times> int) option \<Rightarrow> 'a IMutex_scheme mutex_op" where
  "posix_mutex_lock = (\<lambda>(api, abs_timeout) m.
     (let result = (if abs_timeout = None then pm_lock api else pm_timedlock api) in
      case result of
        None \<Rightarrow> (of_value (), m, [MutexLock result])
      | Some e \<Rightarrow> (posix_mutex_error e (if abs_timeout = None then ''pthread_mutex_lock failed''
                                        else ''pthread_mutex_timedlock failed'') ''do_lock'',
                   m, [MutexLock result])))"

definition posix_mutex_unlock :: "pmutex_api \<Rightarrow> 'a IMutex_scheme unlock_op" where
  "posix_mutex_unlock api m =
     (if pm_unlock api \<noteq> os_ok then (False, m, [MutexUnlock (pm_unlock api)])
      else (True, m, [MutexUnlock (pm_unlock api)]))"

lemma pthread_mutex_setup_calls:
  "pthread_mutex_setup api m = (r, m', cs) \<Longrightarrow>
     list_all set_up_call cs \<and> (\<not> has_value (fst r) \<longrightarrow> m' = m)"
  by (auto simp: pthread_mutex_setup_def posix_mutex_error_def of_error_def of_value_def Let_def
      split: option.splits if_splits)

lemma posix_mutex_init_calls:
  assumes "posix_mutex_init api m = (r, m', cs)"
  shows "list_all set_up_call cs"
proof (cases "mutex_initialized m")
  case False
  then show ?thesis using assms pthread_mutex_setup_calls [of api m r m' cs] by (simp add: posix_mutex_init_def)
next
  case True
  show ?thesis
  proof (cases "pm_destroy api")
    case (Some e)
    then have "cs = [MutexDestroy (Some e)]" using True assms by (simp add: posix_mutex_init_def)
    then show ?thesis by simp
  next
    case None
    obtain r1 m1 cs1 where "pthread_mutex_setup api (m\<lparr>mutex_initialized := False\<rparr>) = (r1, m1, cs1)"
      by (metis prod_cases3)
    then show ?thesis
      using True None assms pthread_mutex_setup_calls [of api "m\<lparr>mutex_initialized := False\<rparr>" r1 m1 cs1]
      by (simp add: posix_mutex_init_def) auto
  qed
qed

lemma posix_mutex_lock_calls:
  assumes "posix_mutex_lock env m = (r, m', cs)"
  shows "m' = m \<and> (\<exists>a. cs = [MutexLock a] \<and> (has_value (fst r) \<longleftrightarrow> a = os_ok))"
proof -
  obtain api timeout where env: "env = (api, timeout)" by (cases env)
  show ?thesis
  proof (cases "if timeout = None then pm_lock api else pm_timedlock api")
    case None
    then have "posix_mutex_lock env m = (of_value (), m, [MutexLock None])"
      unfolding env posix_mutex_lock_def by (simp only: prod.case Let_def option.case)
    then show ?thesis using assms by (auto simp: of_value_def)
  next
    case (Some e)
    then have "\<exists>msg. posix_mutex_lock env m = (posix_mutex_error e msg ''do_lock'', m, [MutexLock (Some e)])"
      unfolding env posix_mutex_lock_def by (simp only: prod.case Let_def option.case) blast
    then show ?thesis using assms by (auto simp: posix_mutex_error_def of_error_def)
  qed
qed

text \<open>A step's environment is the system with the timeout.\<close>

type_synonym pmutex_env = "pmutex_api \<times> (int \<times> int) option"

interpretation pmx: mutex_platform "\<lambda>env :: pmutex_env. posix_mutex_init (fst env)" posix_mutex_lock
    "\<lambda>env. posix_mutex_unlock (fst env)" False
proof unfold_locales
  fix env :: pmutex_env and m m' :: "'a IMutex_scheme" and r cs
  assume i: "posix_mutex_init (fst env) m = (r, m', cs)"
  show "list_all set_up_call cs"
    using posix_mutex_init_calls [OF i] .
  show "\<not> has_value (fst r) \<Longrightarrow> \<not> mutex_initialized m \<Longrightarrow> \<not> mutex_initialized m'"
    using i pthread_mutex_setup_calls [of "fst env" m r m' cs] by (simp add: posix_mutex_init_def)
next
  show "posix_mutex_lock env m = (r, m', cs) \<Longrightarrow>
      m' = m \<and> (\<exists>a. cs = [MutexLock a] \<and> (has_value (fst r) \<longleftrightarrow> a = os_ok))"
    for env and m m' :: "'a IMutex_scheme" and r cs
    using posix_mutex_lock_calls by blast
next
  fix env :: pmutex_env and m m' :: "'a IMutex_scheme" and alive cs
  assume "posix_mutex_unlock (fst env) m = (alive, m', cs)"
  then show "m' = m \<and> (\<exists>a. cs = [MutexUnlock a] \<and> (a = os_ok \<longrightarrow> alive))"
    by (auto simp: posix_mutex_unlock_def split: if_splits)
qed

definition posix_guard_run ::
    "pmutex_env guard_step list \<Rightarrow> 'a IMutex_scheme guard_world \<Rightarrow>
      'a IMutex_scheme guard_world \<times> (nat \<times> mutex_call) list" where
  "posix_guard_run =
     guard_run (\<lambda>env. posix_mutex_init (fst env)) posix_mutex_lock (\<lambda>env. posix_mutex_unlock (fst env))"

text \<open>
  C31: Mutual exclusion. Whatever the threads do with scope guards on one mutex, in any
  interleaving and with any timeouts, at every moment at most one guard holds the mutex, and no
  guard ever ends the program by unlocking. This rests on the documented behaviour of an
  error-checking mutex only: a lock succeeds only while the mutex is free, an unlock succeeds for
  the holder and initialising yields a free mutex.
\<close>

theorem posix_mutual_exclusion:
  assumes "posix_guard_run steps (new_world m) = (w, cs)" "os_mutex False cs None = Some holder"
  shows "gw_alive w \<and> length (locked_guards w) \<le> 1"
proof -
  have "gw_alive w" "length (locked_guards w) = (case holder of None \<Rightarrow> 0 | Some (h, n) \<Rightarrow> n)"
    using pmx.exclusion assms unfolding posix_guard_run_def by blast+
  moreover have "\<forall>h n. holder = Some (h, n) \<longrightarrow> n = 1"
    using assms(2) by (auto dest: os_mutex_not_recursive)
  ultimately show ?thesis by (auto split: option.splits)
qed

definition working_pmutex :: pmutex_api where
  "working_pmutex = \<lparr>pm_attr_init = None, pm_settype = None, pm_attr_destroy = None, pm_init = None,
     pm_destroy = None, pm_lock = None, pm_timedlock = Some ETIMEDOUT, pm_unlock = None\<rparr>"

text \<open>Thread 1 initialises and locks, thread 2 times out, thread 1 initialises again and leaves.\<close>

definition example_guards :: "pmutex_env guard_step list" where
  "example_guards =
     [GuardInit 1 (working_pmutex, None), GuardEnter 1 (working_pmutex, None),
      GuardEnter 2 (working_pmutex, Some (5, 0)), GuardInit 1 (working_pmutex, None)]"

theorem posix_mutual_exclusion_witness:
  "let (w, cs) = posix_guard_run example_guards (new_world (new_mutex ''m'')) in
     os_mutex False cs None = Some (Some (1, 1)) \<and> gw_guards w = [(2, False), (1, True)] \<and>
     gw_alive w \<and> length (locked_guards w) \<le> 1"
proof -
  obtain w cs where run: "posix_guard_run example_guards (new_world (new_mutex ''m'')) = (w, cs)"
    by fastforce
  have "os_mutex False (snd (posix_guard_run example_guards (new_world (new_mutex ''m'')))) None
      = Some (Some (1, 1)) \<and>
    gw_guards (fst (posix_guard_run example_guards (new_world (new_mutex ''m'')))) = [(2, False), (1, True)]"
    by code_simp
  then have ev: "os_mutex False cs None = Some (Some (1, 1))" "gw_guards w = [(2, False), (1, True)]"
    by (simp_all add: run)
  then show ?thesis using posix_mutual_exclusion [OF run ev(1)] by (simp add: run)
qed

end
