(* ===== verification/Mutex_Zephyr.thy ===== *)
theory Mutex_Zephyr
  imports Mutex_Core
begin

text \<open>
  Zephyr mutexes (src/platform/zephyr_core/mutex): \<open>k_mutex\<close> is recursive. Answers are the error
  numbers behind the negative return values.
\<close>

record kmutex_api =
  km_init :: os_result
  km_lock :: os_result
  km_unlock :: os_result

definition zephyr_errno_to_mutex_error :: "errno \<Rightarrow> MutexError" where
  "zephyr_errno_to_mutex_error error_code =
     (case error_code of
        EINVAL \<Rightarrow> MutexError_InvalidParameter
      | ETIMEDOUT \<Rightarrow> MutexError_Timeout
      | EBUSY \<Rightarrow> MutexError_Timeout
      | EDEADLK \<Rightarrow> MutexError_Deadlock
      | EALREADY \<Rightarrow> MutexError_AlreadyInitialized
      | _ \<Rightarrow> MutexError_Unknown)"

definition zephyr_mutex_init :: "kmutex_api \<Rightarrow> 'a IMutex_scheme mutex_op" where
  "zephyr_mutex_init api m =
     (if mutex_initialized m then
        (of_error MutexError_name MutexError_AlreadyInitialized ''Mutex already initialized''
           ''do_init'', m, [])
      else
        case km_init api of
          Some e \<Rightarrow> (of_error MutexError_name (zephyr_errno_to_mutex_error e) ''k_mutex_init failed''
                       ''do_init'', m, [MutexInit (km_init api)])
        | None \<Rightarrow> (of_value (), m\<lparr>mutex_initialized := True\<rparr>, [MutexInit (km_init api)]))"

text \<open>The timeout goes to Zephyr.\<close>

definition zephyr_mutex_lock :: "kmutex_api \<Rightarrow> 'a IMutex_scheme mutex_op" where
  "zephyr_mutex_lock api m =
     (case km_lock api of
        None \<Rightarrow> (of_value (), m, [MutexLock (km_lock api)])
      | Some e \<Rightarrow> (of_error MutexError_name (zephyr_errno_to_mutex_error e) ''k_mutex_lock failed''
                     ''do_lock'', m, [MutexLock (km_lock api)]))"

text \<open>The answer of \<open>k_mutex_unlock\<close> is ignored.\<close>

definition zephyr_mutex_unlock :: "kmutex_api \<Rightarrow> 'a IMutex_scheme unlock_op" where
  "zephyr_mutex_unlock api m = (True, m, [MutexUnlock (km_unlock api)])"

interpretation zmx: mutex_platform zephyr_mutex_init zephyr_mutex_lock zephyr_mutex_unlock True
  by unfold_locales
    (auto simp: zephyr_mutex_init_def zephyr_mutex_lock_def zephyr_mutex_unlock_def of_error_def
      of_value_def split: if_splits option.splits)

definition zephyr_guard_run ::
    "kmutex_api guard_step list \<Rightarrow> 'a IMutex_scheme guard_world \<Rightarrow>
      'a IMutex_scheme guard_world \<times> (nat \<times> mutex_call) list" where
  "zephyr_guard_run = guard_run zephyr_mutex_init zephyr_mutex_lock zephyr_mutex_unlock"

text \<open>
  Mutual exclusion on Zephyr, whose mutexes are recursive: at every moment all guards that
  hold the mutex belong to one thread, and there are as many of them as the mutex counts, so the
  last scope of the holder to end frees the mutex.
\<close>

theorem zephyr_mutual_exclusion:
  assumes "zephyr_guard_run steps (new_world m) = (w, cs)" "os_mutex True cs None = Some holder"
  shows "length (locked_guards w) = (case holder of None \<Rightarrow> 0 | Some (h, n) \<Rightarrow> n) \<and>
    (\<forall>g \<in> set (locked_guards w). \<forall>g' \<in> set (locked_guards w). fst g = fst g')"
  using zmx.exclusion assms unfolding zephyr_guard_run_def by blast

definition working_kmutex :: kmutex_api where
  "working_kmutex = \<lparr>km_init = None, km_lock = None, km_unlock = None\<rparr>"

definition example_zephyr_guards :: "kmutex_api guard_step list" where
  "example_zephyr_guards =
     [GuardInit 1 working_kmutex, GuardEnter 1 working_kmutex, GuardEnter 1 working_kmutex,
      GuardEnter 2 (working_kmutex\<lparr>km_lock := Some EAGAIN\<rparr>), GuardLeave 1 working_kmutex]"

theorem zephyr_mutual_exclusion_witness:
  "let (w, cs) = zephyr_guard_run example_zephyr_guards (new_world (new_mutex ''m'')) in
     os_mutex True cs None = Some (Some (1, 1)) \<and> gw_guards w = [(2, False), (1, True)] \<and>
     length (locked_guards w) = 1"
proof -
  obtain w cs where run: "zephyr_guard_run example_zephyr_guards (new_world (new_mutex ''m'')) = (w, cs)"
    by fastforce
  have "os_mutex True (snd (zephyr_guard_run example_zephyr_guards (new_world (new_mutex ''m'')))) None
      = Some (Some (1, 1)) \<and>
    gw_guards (fst (zephyr_guard_run example_zephyr_guards (new_world (new_mutex ''m'')))) = [(2, False), (1, True)]"
    by code_simp
  then have ev: "os_mutex True cs None = Some (Some (1, 1))" "gw_guards w = [(2, False), (1, True)]"
    by (simp_all add: run)
  then show ?thesis using zephyr_mutual_exclusion [OF run ev(1)] by (simp add: run)
qed

end
