(* ===== verification/Gpio.thy ===== *)
theory Gpio
  imports Thread_Core
begin

text \<open>
  GPIO pins (src/boards): the interface \<open>IGpio\<close>, the POSIX driver that only logs and the Zephyr
  driver. Zephyr's GPIO API is a parameter: readiness of the port and the answers of its calls;
  the flag words are Zephyr's constants, given by \<open>gpio_flags\<close>.
\<close>

datatype GpioMode =
    GpioInput | GpioOutput | GpioAnalog | InputPullup | InputPulldown | OutputPullup
  | OutputPulldown | AltFunction

fun GpioMode_underlying :: "GpioMode \<Rightarrow> int" where
  "GpioMode_underlying GpioInput = 0"
| "GpioMode_underlying GpioOutput = 1"
| "GpioMode_underlying GpioAnalog = 2"
| "GpioMode_underlying InputPullup = 3"
| "GpioMode_underlying InputPulldown = 4"
| "GpioMode_underlying OutputPullup = 5"
| "GpioMode_underlying OutputPulldown = 6"
| "GpioMode_underlying AltFunction = 7"

datatype DigitalState = Low | High

fun DigitalState_underlying :: "DigitalState \<Rightarrow> int" where
  "DigitalState_underlying Low = 0"
| "DigitalState_underlying High = 1"

type_synonym gpio_result = "(unit, GpioError) error_handler logged"

subsection \<open>The interface\<close>

definition gpio_set_mode :: "('p \<Rightarrow> GpioMode \<Rightarrow> gpio_result \<times> 'c list) \<Rightarrow> 'p \<Rightarrow> GpioMode \<Rightarrow> gpio_result \<times> 'c list" where
  "gpio_set_mode do_set_mode pin mode = do_set_mode pin mode"

definition gpio_deinit :: "('p \<Rightarrow> 'r) \<Rightarrow> 'p \<Rightarrow> 'r" where
  "gpio_deinit do_deinit pin = do_deinit pin"

definition gpio_read :: "('p \<Rightarrow> DigitalState \<times> 'c list) \<Rightarrow> 'p \<Rightarrow> DigitalState \<times> 'c list" where
  "gpio_read do_read pin = do_read pin"

definition gpio_write :: "('p \<Rightarrow> DigitalState \<Rightarrow> 'c list) \<Rightarrow> 'p \<Rightarrow> DigitalState \<Rightarrow> 'c list" where
  "gpio_write do_write pin state = do_write pin state"

subsection \<open>POSIX\<close>

record PosixPin =
  pin_port :: u32
  pin_pin :: u32

text \<open>The only effect of the POSIX driver is its log.\<close>

definition posix_set_mode :: "PosixPin \<Rightarrow> GpioMode \<Rightarrow> gpio_result \<times> log_call list" where
  "posix_set_mode pin mode =
     (of_value (), [LOGGER_NOTICE ''Setting POSIX pin %d mode to %d''
        [ArgInt (sint (pin_pin pin)), ArgInt (GpioMode_underlying mode)]])"

definition posix_deinit :: "PosixPin \<Rightarrow> log_call list" where
  "posix_deinit pin = [LOGGER_NOTICE ''Deinitializing POSIX pin %d'' [ArgInt (sint (pin_pin pin))]]"

definition posix_read :: "PosixPin \<Rightarrow> DigitalState \<times> log_call list" where
  "posix_read pin = (Low, [LOGGER_NOTICE ''Read POSIX pin %d'' [ArgInt (sint (pin_pin pin))]])"

definition posix_write :: "PosixPin \<Rightarrow> DigitalState \<Rightarrow> log_call list" where
  "posix_write pin state =
     [LOGGER_NOTICE ''Writing %d to POSIX pin %d''
        [ArgInt (DigitalState_underlying state), ArgInt (sint (pin_pin pin))]]"

subsection \<open>Zephyr\<close>

record gpio_flags =
  GPIO_INPUT :: u32
  GPIO_OUTPUT :: u32
  GPIO_PULL_UP :: u32
  GPIO_PULL_DOWN :: u32

record gpio_api =
  gpio_ready :: bool
  gpio_configure :: "u32 \<Rightarrow> os_result"
  gpio_get :: "errno + int"
  gpio_set :: os_result

datatype gpio_call = GpioConfigure u32 os_result | GpioGet "errno + int" | GpioSet int os_result

definition errno_to_gpio_error :: "errno \<Rightarrow> GpioError" where
  "errno_to_gpio_error error_code =
     (case error_code of
        EINVAL \<Rightarrow> GpioError_InvalidParameter
      | ENODEV \<Rightarrow> GpioError_DeviceNotAvailable
      | EIO \<Rightarrow> GpioError_IOError
      | EBUSY \<Rightarrow> GpioError_Busy
      | ENOTSUP \<Rightarrow> GpioError_NotSupported
      | _ \<Rightarrow> GpioError_Unknown)"

text \<open>The flags of a mode; \<open>None\<close> is the default branch.\<close>

definition zephyr_mode_flags :: "gpio_flags \<Rightarrow> GpioMode \<Rightarrow> u32 option" where
  "zephyr_mode_flags f mode =
     (case mode of
        GpioInput \<Rightarrow> Some (GPIO_INPUT f)
      | GpioOutput \<Rightarrow> Some (GPIO_OUTPUT f)
      | InputPullup \<Rightarrow> Some (or (GPIO_INPUT f) (GPIO_PULL_UP f))
      | InputPulldown \<Rightarrow> Some (or (GPIO_INPUT f) (GPIO_PULL_DOWN f))
      | OutputPullup \<Rightarrow> Some (or (GPIO_OUTPUT f) (GPIO_PULL_UP f))
      | OutputPulldown \<Rightarrow> Some (or (GPIO_OUTPUT f) (GPIO_PULL_DOWN f))
      | _ \<Rightarrow> None)"

definition zephyr_set_mode :: "gpio_flags \<Rightarrow> gpio_api \<Rightarrow> GpioMode \<Rightarrow> gpio_result \<times> gpio_call list" where
  "zephyr_set_mode f api mode =
     (if \<not> gpio_ready api then
        (of_error GpioError_name GpioError_DeviceNotAvailable ''GPIO device not ready'' ''do_set_mode'', [])
      else
        case zephyr_mode_flags f mode of
          None \<Rightarrow> (of_error GpioError_name GpioError_InvalidMode ''Invalid GPIO mode'' ''do_set_mode'', [])
        | Some flags \<Rightarrow>
            (let ret = gpio_configure api flags; call = GpioConfigure flags ret in
             case ret of
               Some e \<Rightarrow>
                 (of_error GpioError_name (errno_to_gpio_error e) ''gpio_pin_configure_dt failed''
                    ''do_set_mode'', [call])
             | None \<Rightarrow> (of_value (), [call])))"

definition zephyr_deinit :: "gpio_call list" where
  "zephyr_deinit = []"

definition zephyr_read :: "gpio_api \<Rightarrow> DigitalState \<times> gpio_call list" where
  "zephyr_read api =
     (if \<not> gpio_ready api then (Low, [])
      else
        let value = gpio_get api in
        case value of
          Inl e \<Rightarrow> (Low, [GpioGet value])
        | Inr v \<Rightarrow> (if v = 0 then Low else High, [GpioGet value]))"

definition zephyr_write :: "gpio_api \<Rightarrow> DigitalState \<Rightarrow> gpio_call list" where
  "zephyr_write api state =
     (if \<not> gpio_ready api then []
      else let v = (if state = High then 1 else 0) in [GpioSet v (gpio_set api)])"

text \<open>Which modes the Zephyr driver sets, and with which flags.\<close>

lemma zephyr_set_mode_iff:
  "has_value (fst (fst (zephyr_set_mode f api mode))) \<longleftrightarrow>
     gpio_ready api \<and> (\<exists>flags. zephyr_mode_flags f mode = Some flags \<and> gpio_configure api flags = os_ok)"
  by (auto simp: zephyr_set_mode_def of_error_def of_value_def Let_def split: option.splits)

end
