(* ===== verification/Led.thy ===== *)
theory Led
  imports Mutex_Posix Mutex_Zephyr Gpio
begin

text \<open>
  The LED blinker (src/boards/posix/led, src/boards/zephyr/led): it toggles a pin under a mutex
  that all blinkers share. \<open>led_blink\<close> is the text both platforms have, over the operations of
  their mutex; the state is the member \<open>status\<close> and the mutex.
\<close>

record 'm led =
  led_status :: bool
  led_mutex :: 'm

datatype led_event = LedMutex mutex_call | LedWrite DigitalState

definition led_blink ::
    "'a IMutex_scheme mutex_op \<Rightarrow> 'a IMutex_scheme unlock_op \<Rightarrow> 'a IMutex_scheme led \<Rightarrow>
      bool \<times> 'a IMutex_scheme led \<times> led_event list" where
  "led_blink do_lock do_unlock l =
     (let ((locked, log), m, c1) = locker_ctor do_lock (led_mutex l);
          (status, writes) =
            (if locked then
               let status = \<not> led_status l; state = (if status then Low else High)
               in (status, [LedWrite state])
             else (led_status l, []));
          (alive, m, c2) = locker_dtor locked do_unlock m
      in (alive, \<lparr>led_status = status, led_mutex = m\<rparr>, map LedMutex c1 @ writes @ map LedMutex c2))"

definition posix_led_pin :: PosixPin where "posix_led_pin = \<lparr>pin_port = 1, pin_pin = 0\<rparr>"

definition posix_led_init :: "pmutex_api \<Rightarrow> IMutex \<Rightarrow> bool \<times> IMutex \<times> log_call list \<times> mutex_call list" where
  "posix_led_init api m =
     (let (mutex_result, m, calls) = mutex_init (posix_mutex_init api) m in
      case fst mutex_result of
        Unexpected e \<Rightarrow>
          (False, m, snd mutex_result @
             [LOGGER_ERROR ''Failed to initialize LED mutex, error: %d'' [ArgInt (MutexError_int e)]], calls)
      | Value u \<Rightarrow>
          (let (result, pin_log) = gpio_set_mode posix_set_mode posix_led_pin GpioOutput in
           case fst result of
             Unexpected e \<Rightarrow>
               (False, m, snd mutex_result @ pin_log @ snd result @
                  [LOGGER_ERROR ''Failed to set LED GPIO mode, error: %d'' [ArgInt (GpioError_int e)]], calls)
           | Value u \<Rightarrow> (True, m, snd mutex_result @ pin_log @ snd result, calls)))"

definition posix_led_blink :: "pmutex_env \<Rightarrow> IMutex led \<Rightarrow> bool \<times> IMutex led \<times> led_event list" where
  "posix_led_blink env = led_blink (posix_mutex_lock (fst env, None)) (posix_mutex_unlock (fst env))"

definition zephyr_led_init ::
    "gpio_flags \<Rightarrow> gpio_api \<Rightarrow> kmutex_api \<Rightarrow> IMutex \<Rightarrow> bool \<times> IMutex \<times> mutex_call list \<times> gpio_call list" where
  "zephyr_led_init f gpio api m =
     (let (mutex_result, m, calls) = mutex_init (zephyr_mutex_init api) m in
      if \<not> has_value (fst mutex_result) then (False, m, calls, [])
      else
        let (result, gpio_calls) = gpio_set_mode (\<lambda>pin. zephyr_set_mode f gpio) () GpioOutput in
        if \<not> has_value (fst result) then (False, m, calls, gpio_calls)
        else (True, m, calls, gpio_calls))"

definition zephyr_led_blink :: "kmutex_api \<Rightarrow> IMutex led \<Rightarrow> bool \<times> IMutex led \<times> led_event list" where
  "zephyr_led_blink api = led_blink (zephyr_mutex_lock api) (zephyr_mutex_unlock api)"

subsection \<open>Blinking\<close>

fun led_run ::
    "('e \<Rightarrow> 'm led \<Rightarrow> bool \<times> 'm led \<times> led_event list) \<Rightarrow> 'e list \<Rightarrow> 'm led \<Rightarrow>
      bool \<times> 'm led \<times> led_event list" where
  "led_run blink [] l = (True, l, [])"
| "led_run blink (e # es) l =
     (let (alive, l, evs) = blink e l in
      if \<not> alive then (False, l, evs)
      else let (alive, l, evs') = led_run blink es l in (alive, l, evs @ evs'))"

fun led_states :: "led_event list \<Rightarrow> DigitalState list" where
  "led_states [] = []"
| "led_states (LedWrite s # evs) = s # led_states evs"
| "led_states (LedMutex c # evs) = led_states evs"

fun locks_taken :: "led_event list \<Rightarrow> nat" where
  "locks_taken [] = 0"
| "locks_taken (LedMutex (MutexLock a) # evs) = (if a = os_ok then 1 else 0) + locks_taken evs"
| "locks_taken (e # evs) = locks_taken evs"

text \<open>The pin is written only between a successful lock and the unlock that follows it.\<close>

fun written_locked :: "bool \<Rightarrow> led_event list \<Rightarrow> bool" where
  "written_locked held [] = (\<not> held)"
| "written_locked held (LedMutex (MutexLock a) # evs) = (\<not> held \<and> written_locked (a = os_ok) evs)"
| "written_locked held (LedMutex (MutexUnlock a) # evs) = (held \<and> written_locked False evs)"
| "written_locked held (LedWrite s # evs) = (held \<and> written_locked held evs)"
| "written_locked held (e # evs) = written_locked held evs"

definition alternating :: "bool \<Rightarrow> nat \<Rightarrow> DigitalState list" where
  "alternating status n = map (\<lambda>i. if even i \<noteq> status then Low else High) [0..<n]"

lemma alternating_simps [simp]:
  "alternating status 0 = []"
  "alternating status (Suc n) = (if status then High else Low) # alternating (\<not> status) n"
  by (auto simp: alternating_def upt_conv_Cons map_Suc_upt [symmetric] simp del: upt_Suc)

lemma led_states_append: "led_states (xs @ ys) = led_states xs @ led_states ys"
  by (induction xs rule: led_states.induct) auto

lemma locks_taken_append: "locks_taken (xs @ ys) = locks_taken xs + locks_taken ys"
  by (induction xs rule: locks_taken.induct) auto

lemma written_locked_append:
  "written_locked held xs \<Longrightarrow> written_locked False ys \<Longrightarrow> written_locked held (xs @ ys)"
  by (induction held xs rule: written_locked.induct) auto

context mutex_platform begin

lemma blink_once:
  assumes "led_blink (do_lock env) (do_unlock env') l = (alive, l', evs)" "mutex_initialized (led_mutex l)"
  shows "led_mutex l' = led_mutex l \<and> written_locked False evs \<and>
    ((led_status l' = led_status l \<and> led_states evs = [] \<and> locks_taken evs = 0) \<or>
     (led_status l' = (\<not> led_status l) \<and> locks_taken evs = 1 \<and>
      led_states evs = [if led_status l then High else Low]))"
proof -
  obtain r m c1 where d: "do_lock env (led_mutex l) = (r, m, c1)" by (metis prod_cases3)
  obtain a where a: "m = led_mutex l" "c1 = [MutexLock a]" "has_value (fst r) \<longleftrightarrow> a = os_ok"
    using lock_calls [OF d] by blast
  have ctor: "locker_ctor (do_lock env) (led_mutex l) = ((a = os_ok, snd r), led_mutex l, [MutexLock a])"
    using d a assms(2) by (simp add: locker_ctor_def mutex_lock_def)
  show ?thesis
  proof (cases "a = os_ok")
    case False
    then obtain e where "a = Some e" by auto
    then have "l' = \<lparr>led_status = led_status l, led_mutex = led_mutex l\<rparr>" "evs = [LedMutex (MutexLock a)]"
      using assms(1) by (simp_all add: led_blink_def ctor locker_dtor_def)
    then show ?thesis using False by simp
  next
    case True
    obtain al m2 c2 where u: "do_unlock env' (led_mutex l) = (al, m2, c2)" by (metis prod_cases3)
    obtain b where b: "m2 = led_mutex l" "c2 = [MutexUnlock b]" using unlock_calls [OF u] by blast
    have "l' = \<lparr>led_status = \<not> led_status l, led_mutex = led_mutex l\<rparr>"
      "evs = [LedMutex (MutexLock a), LedWrite (if led_status l then High else Low), LedMutex (MutexUnlock b)]"
      using assms u b True by (auto simp: led_blink_def ctor locker_dtor_def mutex_unlock_def Let_def)
    then show ?thesis using True by simp
  qed
qed

lemma blink_run:
  "led_run (\<lambda>e. led_blink (do_lock (f e)) (do_unlock (g e))) es l = (alive, l', evs) \<Longrightarrow>
   mutex_initialized (led_mutex l) \<Longrightarrow>
     led_states evs = alternating (led_status l) (locks_taken evs) \<and> written_locked False evs"
proof (induction es arbitrary: l evs)
  case (Cons e es)
  obtain al l1 evs1 where b: "led_blink (do_lock (f e)) (do_unlock (g e)) l = (al, l1, evs1)"
    by (rule prod_cases3)
  note once = blink_once [OF b Cons.prems(2)]
  show ?case
  proof (cases al)
    case False
    then have "evs = evs1" using Cons.prems(1) b by simp
    then show ?thesis using once by (elim conjE disjE) simp_all
  next
    case True
    obtain al2 l2 evs2 where r: "led_run (\<lambda>e. led_blink (do_lock (f e)) (do_unlock (g e))) es l1 = (al2, l2, evs2)"
      by (rule prod_cases3)
    have "evs = evs1 @ evs2" "alive = al2" "l' = l2" using Cons.prems(1) b r True by auto
    moreover have "mutex_initialized (led_mutex l1)" using once Cons.prems(2) by simp
    moreover have "led_states evs2 = alternating (led_status l1) (locks_taken evs2) \<and> written_locked False evs2"
      using Cons.IH [of l1 evs2] r calculation by simp
    ultimately show ?thesis
      using once
      by (elim conjE disjE) (simp_all add: led_states_append locks_taken_append written_locked_append)
  qed
qed simp

end

text \<open>
  On both platforms the blinker, once initialised, writes the pin only while it holds the
  mutex, releases the mutex after every write, and writes one state per successful lock,
  alternating and starting with Low; a blink whose lock fails changes nothing.
\<close>

theorem led_blink_alternates:
  assumes "mutex_initialized (led_mutex l)"
  shows "(let (alive, l', evs) = led_run posix_led_blink penvs l in
      led_states evs = alternating (led_status l) (locks_taken evs) \<and> written_locked False evs) \<and>
    (let (alive, l', evs) = led_run zephyr_led_blink kenvs l in
      led_states evs = alternating (led_status l) (locks_taken evs) \<and> written_locked False evs)"
proof -
  have p: "posix_led_blink = (\<lambda>e. led_blink (posix_mutex_lock (fst e, None)) (posix_mutex_unlock (fst e)))"
    by (rule ext) (simp add: posix_led_blink_def)
  have k: "zephyr_led_blink = (\<lambda>e. led_blink (zephyr_mutex_lock e) (zephyr_mutex_unlock e))"
    by (rule ext) (simp add: zephyr_led_blink_def)
  show ?thesis
    using pmx.blink_run [where f = "\<lambda>e. (fst e, None)" and g = "\<lambda>e. e" and es = penvs and l = l]
      zmx.blink_run [where f = "\<lambda>e. e" and g = "\<lambda>e. e" and es = kenvs and l = l] assms
    unfolding p k by (fastforce split: prod.splits)
qed

theorem led_blink_alternates_witness:
  "let (alive, l', evs) =
         led_run posix_led_blink [(working_pmutex, None), (working_pmutex\<lparr>pm_lock := Some EDEADLK\<rparr>, None),
           (working_pmutex, None)] \<lparr>led_status = False, led_mutex = (new_mutex ''LED'')\<lparr>mutex_initialized := True\<rparr>\<rparr>
   in locks_taken evs = 2 \<and> led_states evs = [Low, High]"
proof -
  define l where "l = \<lparr>led_status = False, led_mutex = (new_mutex ''LED'')\<lparr>mutex_initialized := True\<rparr>\<rparr>"
  define es where "es = [(working_pmutex, None :: (int \<times> int) option),
    (working_pmutex\<lparr>pm_lock := Some EDEADLK\<rparr>, None), (working_pmutex, None)]"
  obtain alive l' evs where r: "led_run posix_led_blink es l = (alive, l', evs)" by (metis prod_cases3)
  have "(let (alive, l', evs) = led_run posix_led_blink es l in locks_taken evs = 2)"
    unfolding es_def l_def by code_simp
  then have n: "locks_taken evs = 2" by (simp add: r)
  have "mutex_initialized (led_mutex l)" "\<not> led_status l" by (simp_all add: l_def)
  with led_blink_alternates [of l es "[]"] n r show ?thesis
    unfolding l_def [symmetric] es_def [symmetric] by (simp add: numeral_2_eq_2)
qed

text \<open>
  The mutex is shared by all blinkers and \<open>IMutex::init\<close> refuses a second initialisation, so only
  the first \<open>LedBlinker::init\<close> of the program succeeds.
\<close>

lemma second_led_init_fails:
  assumes "posix_led_init api m = (True, m', log, calls)"
  shows "fst (posix_led_init api' m') = False"
proof -
  obtain r m1 c where i: "mutex_init (posix_mutex_init api) m = (r, m1, c)" by (metis prod_cases3)
  have "has_value (fst r)" "m' = m1"
    using assms i by (auto simp: posix_led_init_def split: error_handler.splits prod.splits)
  then have "mutex_initialized m'"
    using i by (auto simp: mutex_init_def of_error_def split: if_splits prod.splits)
  then show ?thesis
    by (simp add: posix_led_init_def mutex_init_def of_error_def)
qed

end
