(* ===== verification/Serial.thy ===== *)
theory Serial
  imports Thread_Core
begin

text \<open>
  Serial ports (src/boards/common/iserial/ISerial.hpp): the CRTP class \<open>SerialDriverInterface\<close>,
  which forwards every operation to the driver derived from it, and the owning class \<open>Serial\<close>,
  which initialises its driver at most once and deinitialises it when it is destroyed or assigned
  to. The repository has no driver: it is a parameter, the record \<open>serial_impl\<close> of the operations
  a driver implements, over its state \<open>'d\<close>.
\<close>

subsection \<open>The driver interface\<close>

type_synonym serial_result = "(unit, SerialError) error_handler logged"

record 'd serial_impl =
  init_impl :: "'d \<Rightarrow> serial_result \<times> 'd"
  deinit_impl :: "'d \<Rightarrow> 'd"
  poll_write_impl :: "u8 list \<Rightarrow> u32 \<Rightarrow> 'd \<Rightarrow> nat \<times> 'd"
  poll_read_impl :: "nat \<Rightarrow> u32 \<Rightarrow> 'd \<Rightarrow> (nat \<times> u8 list) \<times> 'd"
  non_blocking_write_impl :: "u8 list \<Rightarrow> u32 \<Rightarrow> 'd \<Rightarrow> nat \<times> 'd"
  non_blocking_read_impl :: "nat \<Rightarrow> u32 \<Rightarrow> 'd \<Rightarrow> (nat \<times> u8 list) \<times> 'd"
  get_tx_pending_impl :: "'d \<Rightarrow> nat"
  get_rx_pending_impl :: "'d \<Rightarrow> nat"
  flush_tx_impl :: "'d \<Rightarrow> 'd"
  flush_rx_impl :: "'d \<Rightarrow> 'd"

text \<open>
  A write is given its bytes, a read the room in its buffer; a read returns the count it reports
  and the bytes it stores. Each operation returns its result, the driver and the call it makes.
\<close>

datatype serial_call =
    DrvInit bool
  | DrvDeinit
  | DrvPollWrite "u8 list" u32
  | DrvPollRead nat u32
  | DrvWrite "u8 list" u32
  | DrvRead nat u32
  | DrvTxPending
  | DrvRxPending
  | DrvFlushTx
  | DrvFlushRx

definition sdi_init :: "'d serial_impl \<Rightarrow> 'd \<Rightarrow> serial_result \<times> 'd \<times> serial_call list" where
  "sdi_init ops d = (case init_impl ops d of (r, d) \<Rightarrow> (r, d, [DrvInit (has_value (fst r))]))"

definition sdi_deinit :: "'d serial_impl \<Rightarrow> 'd \<Rightarrow> 'd \<times> serial_call list" where
  "sdi_deinit ops d = (deinit_impl ops d, [DrvDeinit])"

definition sdi_poll_write :: "'d serial_impl \<Rightarrow> u8 list \<Rightarrow> u32 \<Rightarrow> 'd \<Rightarrow> nat \<times> 'd \<times> serial_call list" where
  "sdi_poll_write ops tx_buf timeout_ms d =
     (case poll_write_impl ops tx_buf timeout_ms d of (n, d) \<Rightarrow> (n, d, [DrvPollWrite tx_buf timeout_ms]))"

definition sdi_poll_read :: "'d serial_impl \<Rightarrow> nat \<Rightarrow> u32 \<Rightarrow> 'd \<Rightarrow> (nat \<times> u8 list) \<times> 'd \<times> serial_call list" where
  "sdi_poll_read ops rx_len timeout_ms d =
     (case poll_read_impl ops rx_len timeout_ms d of (n, d) \<Rightarrow> (n, d, [DrvPollRead rx_len timeout_ms]))"

definition sdi_non_blocking_write :: "'d serial_impl \<Rightarrow> u8 list \<Rightarrow> u32 \<Rightarrow> 'd \<Rightarrow> nat \<times> 'd \<times> serial_call list" where
  "sdi_non_blocking_write ops tx_buf timeout_ms d =
     (case non_blocking_write_impl ops tx_buf timeout_ms d of (n, d) \<Rightarrow> (n, d, [DrvWrite tx_buf timeout_ms]))"

definition sdi_non_blocking_read :: "'d serial_impl \<Rightarrow> nat \<Rightarrow> u32 \<Rightarrow> 'd \<Rightarrow> (nat \<times> u8 list) \<times> 'd \<times> serial_call list" where
  "sdi_non_blocking_read ops rx_len timeout_ms d =
     (case non_blocking_read_impl ops rx_len timeout_ms d of (n, d) \<Rightarrow> (n, d, [DrvRead rx_len timeout_ms]))"

definition sdi_get_tx_pending :: "'d serial_impl \<Rightarrow> 'd \<Rightarrow> nat \<times> serial_call list" where
  "sdi_get_tx_pending ops d = (get_tx_pending_impl ops d, [DrvTxPending])"

definition sdi_get_rx_pending :: "'d serial_impl \<Rightarrow> 'd \<Rightarrow> nat \<times> serial_call list" where
  "sdi_get_rx_pending ops d = (get_rx_pending_impl ops d, [DrvRxPending])"

definition sdi_flush_tx :: "'d serial_impl \<Rightarrow> 'd \<Rightarrow> 'd \<times> serial_call list" where
  "sdi_flush_tx ops d = (flush_tx_impl ops d, [DrvFlushTx])"

definition sdi_flush_rx :: "'d serial_impl \<Rightarrow> 'd \<Rightarrow> 'd \<times> serial_call list" where
  "sdi_flush_rx ops d = (flush_rx_impl ops d, [DrvFlushRx])"

subsection \<open>The owning class\<close>

record 'd Serial =
  ser_driver :: 'd
  ser_initialized :: bool

definition serial_ctor :: "'d \<Rightarrow> 'd Serial" where
  "serial_ctor driver = \<lparr>ser_driver = driver, ser_initialized = False\<rparr>"

definition serial_initialize :: "'d serial_impl \<Rightarrow> 'd Serial \<Rightarrow> bool \<times> 'd Serial \<times> serial_call list" where
  "serial_initialize ops s =
     (if \<not> ser_initialized s then
        let (result, d, calls) = sdi_init ops (ser_driver s);
            s = s\<lparr>ser_driver := d, ser_initialized := has_value (fst result)\<rparr>
        in (ser_initialized s, s, calls)
      else (ser_initialized s, s, []))"

definition serial_cleanup :: "'d serial_impl \<Rightarrow> 'd Serial \<Rightarrow> 'd Serial \<times> serial_call list" where
  "serial_cleanup ops s =
     (if ser_initialized s then
        let (d, calls) = sdi_deinit ops (ser_driver s)
        in (s\<lparr>ser_driver := d, ser_initialized := False\<rparr>, calls)
      else (s, []))"

definition serial_dtor :: "'d serial_impl \<Rightarrow> 'd Serial \<Rightarrow> serial_call list" where
  "serial_dtor ops s = snd (serial_cleanup ops s)"

text \<open>\<open>moved\<close> is what moving leaves of a driver. The result is the new and the old object.\<close>

definition serial_move_ctor :: "('d \<Rightarrow> 'd) \<Rightarrow> 'd Serial \<Rightarrow> 'd Serial \<times> 'd Serial" where
  "serial_move_ctor moved other =
     (\<lparr>ser_driver = ser_driver other, ser_initialized = ser_initialized other\<rparr>,
      other\<lparr>ser_driver := moved (ser_driver other), ser_initialized := False\<rparr>)"

text \<open>Assigning from another object; an object assigned to itself is left alone (\<open>serial_step\<close>).\<close>

definition serial_move_assign ::
    "'d serial_impl \<Rightarrow> ('d \<Rightarrow> 'd) \<Rightarrow> 'd Serial \<Rightarrow> 'd Serial \<Rightarrow> ('d Serial \<times> 'd Serial) \<times> serial_call list" where
  "serial_move_assign ops moved this other =
     (let (this, calls) = serial_cleanup ops this
      in ((this\<lparr>ser_driver := ser_driver other, ser_initialized := ser_initialized other\<rparr>,
           other\<lparr>ser_driver := moved (ser_driver other), ser_initialized := False\<rparr>), calls))"

definition serial_write ::
    "'d serial_impl \<Rightarrow> u8 list \<Rightarrow> u32 \<Rightarrow> 'd Serial \<Rightarrow> nat \<times> 'd Serial \<times> serial_call list" where
  "serial_write ops data timeout s =
     (if \<not> ser_initialized s \<or> data = [] then (0, s, [])
      else case sdi_non_blocking_write ops data timeout (ser_driver s) of
             (n, d, calls) \<Rightarrow> (n, s\<lparr>ser_driver := d\<rparr>, calls))"

text \<open>The bytes read go to the front of the caller's buffer.\<close>

definition serial_read ::
    "'d serial_impl \<Rightarrow> u8 list \<Rightarrow> u32 \<Rightarrow> 'd Serial \<Rightarrow> (nat \<times> u8 list) \<times> 'd Serial \<times> serial_call list" where
  "serial_read ops buffer timeout s =
     (if \<not> ser_initialized s \<or> buffer = [] then ((0, buffer), s, [])
      else case sdi_non_blocking_read ops (length buffer) timeout (ser_driver s) of
             ((n, bytes), d, calls) \<Rightarrow> ((n, copy_front bytes buffer), s\<lparr>ser_driver := d\<rparr>, calls))"

definition serial_get_tx_pending :: "'d serial_impl \<Rightarrow> 'd Serial \<Rightarrow> nat \<times> serial_call list" where
  "serial_get_tx_pending ops s = sdi_get_tx_pending ops (ser_driver s)"

definition serial_get_rx_pending :: "'d serial_impl \<Rightarrow> 'd Serial \<Rightarrow> nat \<times> serial_call list" where
  "serial_get_rx_pending ops s = sdi_get_rx_pending ops (ser_driver s)"

definition serial_flush_tx :: "'d serial_impl \<Rightarrow> 'd Serial \<Rightarrow> 'd Serial \<times> serial_call list" where
  "serial_flush_tx ops s =
     (case sdi_flush_tx ops (ser_driver s) of (d, calls) \<Rightarrow> (s\<lparr>ser_driver := d\<rparr>, calls))"

definition serial_flush_rx :: "'d serial_impl \<Rightarrow> 'd Serial \<Rightarrow> 'd Serial \<times> serial_call list" where
  "serial_flush_rx ops s =
     (case sdi_flush_rx ops (ser_driver s) of (d, calls) \<Rightarrow> (s\<lparr>ser_driver := d\<rparr>, calls))"

subsection \<open>Any number of serial objects\<close>

text \<open>The objects by index, \<open>None\<close> for a destroyed one; a step names the objects it works on.\<close>

datatype 'd serial_op =
    SerCreate 'd
  | SerInitialize nat
  | SerMoveNew nat
  | SerMoveAssign nat nat
  | SerWrite nat "u8 list" u32
  | SerRead nat "u8 list" u32
  | SerFlushTx nat
  | SerFlushRx nat
  | SerDestroy nat

definition serial_at :: "'d Serial option list \<Rightarrow> nat \<Rightarrow> 'd Serial option" where
  "serial_at objs i = (if i < length objs then objs ! i else None)"

text \<open>A member function called on object \<open>i\<close>, if there is one.\<close>

definition serial_call_on ::
    "('d Serial \<Rightarrow> 'd Serial option \<times> serial_call list) \<Rightarrow> nat \<Rightarrow> 'd Serial option list \<Rightarrow>
      'd Serial option list \<times> serial_call list" where
  "serial_call_on f i objs =
     (case serial_at objs i of
        None \<Rightarrow> (objs, [])
      | Some s \<Rightarrow> (case f s of (s', calls) \<Rightarrow> (objs[i := s'], calls)))"

fun serial_step ::
    "'d serial_impl \<Rightarrow> ('d \<Rightarrow> 'd) \<Rightarrow> 'd serial_op \<Rightarrow> 'd Serial option list \<Rightarrow>
      'd Serial option list \<times> serial_call list" where
  "serial_step ops moved (SerCreate d) objs = (objs @ [Some (serial_ctor d)], [])"
| "serial_step ops moved (SerInitialize i) objs =
     serial_call_on (\<lambda>s. case serial_initialize ops s of (r, s, cs) \<Rightarrow> (Some s, cs)) i objs"
| "serial_step ops moved (SerMoveNew j) objs =
     (case serial_at objs j of
        None \<Rightarrow> (objs, [])
      | Some other \<Rightarrow>
          (let (s, other) = serial_move_ctor moved other in (objs[j := Some other] @ [Some s], [])))"
| "serial_step ops moved (SerMoveAssign i j) objs =
     (case (serial_at objs i, serial_at objs j) of
        (Some this, Some other) \<Rightarrow>
          if i = j then (objs, [])
          else (let ((this, other), cs) = serial_move_assign ops moved this other
                in (objs[i := Some this, j := Some other], cs))
      | _ \<Rightarrow> (objs, []))"
| "serial_step ops moved (SerWrite i data timeout) objs =
     serial_call_on (\<lambda>s. case serial_write ops data timeout s of (n, s, cs) \<Rightarrow> (Some s, cs)) i objs"
| "serial_step ops moved (SerRead i buffer timeout) objs =
     serial_call_on (\<lambda>s. case serial_read ops buffer timeout s of (n, s, cs) \<Rightarrow> (Some s, cs)) i objs"
| "serial_step ops moved (SerFlushTx i) objs =
     serial_call_on (\<lambda>s. case serial_flush_tx ops s of (s, cs) \<Rightarrow> (Some s, cs)) i objs"
| "serial_step ops moved (SerFlushRx i) objs =
     serial_call_on (\<lambda>s. case serial_flush_rx ops s of (s, cs) \<Rightarrow> (Some s, cs)) i objs"
| "serial_step ops moved (SerDestroy i) objs = serial_call_on (\<lambda>s. (None, serial_dtor ops s)) i objs"

fun serial_run ::
    "'d serial_impl \<Rightarrow> ('d \<Rightarrow> 'd) \<Rightarrow> 'd serial_op list \<Rightarrow> 'd Serial option list \<Rightarrow>
      'd Serial option list \<times> serial_call list" where
  "serial_run ops moved [] objs = (objs, [])"
| "serial_run ops moved (op # xs) objs =
     (let (objs', cs) = serial_step ops moved op objs; (objs'', ds) = serial_run ops moved xs objs'
      in (objs'', cs @ ds))"

definition drv_inits :: "serial_call list \<Rightarrow> nat" where
  "drv_inits cs = count_list cs (DrvInit True)"

definition drv_deinits :: "serial_call list \<Rightarrow> nat" where
  "drv_deinits cs = count_list cs DrvDeinit"

definition holds :: "'d Serial option \<Rightarrow> nat" where
  "holds x = (case x of None \<Rightarrow> 0 | Some s \<Rightarrow> if ser_initialized s then 1 else 0)"

definition held :: "'d Serial option list \<Rightarrow> nat" where
  "held objs = sum_list (map holds objs)"

lemma holds_simps [simp]:
  "holds None = 0" "holds (Some s) = (if ser_initialized s then 1 else 0)"
  by (simp_all add: holds_def)

lemma held_append [simp]: "held (xs @ ys) = held xs + held ys"
  by (simp add: held_def)

lemma held_single [simp]: "held [x] = holds x"
  by (simp add: held_def)

lemma held_update:
  "i < length objs \<Longrightarrow> held (objs[i := x]) + holds (objs ! i) = held objs + holds x"
proof (induction objs arbitrary: i)
  case (Cons y ys)
  then show ?case by (cases i) (auto simp: held_def)
qed simp

lemma serial_at_Some: "serial_at objs i = Some s \<longleftrightarrow> i < length objs \<and> objs ! i = Some s"
  by (simp add: serial_at_def)

lemma held_same [simp]: "objs ! i = x \<Longrightarrow> held (objs[i := x]) = held objs"
  by (metis list_update_id)

lemmas serial_counts = drv_inits_def drv_deinits_def

lemma counts_append [simp]:
  "drv_inits (cs @ ds) = drv_inits cs + drv_inits ds"
  "drv_deinits (cs @ ds) = drv_deinits cs + drv_deinits ds"
  by (simp_all add: serial_counts count_list_append)

text \<open>A member function that keeps the balance of its object keeps that of all objects.\<close>

lemma serial_call_on_held:
  assumes "serial_call_on f i objs = (objs', cs)"
    and "\<And>s s' ds. f s = (s', ds) \<Longrightarrow> holds (Some s) + drv_inits ds = holds s' + drv_deinits ds"
  shows "held objs + drv_inits cs = held objs' + drv_deinits cs"
proof (cases "serial_at objs i")
  case None
  then show ?thesis using assms(1) by (simp add: serial_call_on_def serial_counts)
next
  case (Some s)
  obtain s' ds where f: "f s = (s', ds)" by fastforce
  have "objs' = objs[i := s']" "cs = ds" using assms(1) Some f by (simp_all add: serial_call_on_def)
  then show ?thesis
    using held_update [of i objs s'] assms(2) [OF f] Some by (simp add: serial_at_Some)
qed

lemma serial_step_held:
  assumes "serial_step ops moved op objs = (objs', cs)"
  shows "held objs + drv_inits cs = held objs' + drv_deinits cs"
proof (cases op)
  case (SerMoveAssign i j)
  show ?thesis
  proof (cases "serial_at objs i \<noteq> None \<and> serial_at objs j \<noteq> None \<and> i \<noteq> j")
    case False
    then show ?thesis
      using assms by (auto simp: SerMoveAssign serial_counts split: option.splits)
  next
    case True
    then obtain s t where st: "serial_at objs i = Some s" "serial_at objs j = Some t" "i \<noteq> j" by auto
    define s' where "s' = s\<lparr>ser_driver := ser_driver t, ser_initialized := ser_initialized t\<rparr>"
    define t' where "t' = t\<lparr>ser_driver := moved (ser_driver t), ser_initialized := False\<rparr>"
    have objs': "objs' = objs[i := Some s', j := Some t']"
      and cs: "cs = (if ser_initialized s then [DrvDeinit] else [])"
      using assms st
      by (auto simp: SerMoveAssign serial_move_assign_def serial_cleanup_def sdi_deinit_def s'_def
          t'_def split: if_splits)
    have "held objs' + holds (Some t) = held (objs[i := Some s']) + holds (Some t')"
      using held_update [of j "objs[i := Some s']" "Some t'"] st by (simp add: objs' serial_at_Some)
    moreover have "held (objs[i := Some s']) + holds (Some s) = held objs + holds (Some s')"
      using held_update [of i objs "Some s'"] st by (simp add: serial_at_Some)
    ultimately show ?thesis by (auto simp: cs s'_def t'_def serial_counts)
  qed
next
  case (SerMoveNew j)
  show ?thesis
    using assms held_update [of j objs]
    by (auto simp: SerMoveNew serial_move_ctor_def serial_counts serial_at_Some split: option.splits)
next
  case (SerInitialize i)
  show ?thesis
    using assms [unfolded SerInitialize serial_step.simps]
    by (rule serial_call_on_held)
      (auto simp: serial_initialize_def sdi_init_def serial_counts split: if_splits prod.splits)
next
  case (SerWrite i data timeout)
  show ?thesis
    using assms [unfolded SerWrite serial_step.simps]
    by (rule serial_call_on_held)
      (auto simp: serial_write_def sdi_non_blocking_write_def serial_counts split: if_splits prod.splits)
next
  case (SerRead i buffer timeout)
  show ?thesis
    using assms [unfolded SerRead serial_step.simps]
    by (rule serial_call_on_held)
      (auto simp: serial_read_def sdi_non_blocking_read_def serial_counts split: if_splits prod.splits)
next
  case (SerFlushTx i)
  show ?thesis
    using assms [unfolded SerFlushTx serial_step.simps]
    by (rule serial_call_on_held) (auto simp: serial_flush_tx_def sdi_flush_tx_def serial_counts)
next
  case (SerFlushRx i)
  show ?thesis
    using assms [unfolded SerFlushRx serial_step.simps]
    by (rule serial_call_on_held) (auto simp: serial_flush_rx_def sdi_flush_rx_def serial_counts)
next
  case (SerDestroy i)
  show ?thesis
    using assms [unfolded SerDestroy serial_step.simps]
    by (rule serial_call_on_held)
      (auto simp: serial_dtor_def serial_cleanup_def sdi_deinit_def serial_counts split: if_splits)
qed (use assms in \<open>auto simp: serial_ctor_def serial_counts\<close>)

lemma serial_run_held:
  "serial_run ops moved xs objs = (objs', cs) \<Longrightarrow> held objs + drv_inits cs = held objs' + drv_deinits cs"
proof (induction xs arbitrary: objs cs)
  case Nil
  then show ?case by (simp add: serial_counts)
next
  case (Cons op xs)
  obtain objs1 cs1 where s: "serial_step ops moved op objs = (objs1, cs1)" by fastforce
  obtain objs2 cs2 where r: "serial_run ops moved xs objs1 = (objs2, cs2)" by fastforce
  have e: "objs' = objs2" "cs = cs1 @ cs2" using Cons.prems s r by auto
  have "held objs1 + drv_inits cs2 = held objs' + drv_deinits cs2"
    using Cons.IH [of objs1 cs2] r e by simp
  then show ?case using serial_step_held [OF s] e by simp
qed

text \<open>
  C39: No driver is left initialised and none is deinitialised twice: whatever is done with any
  number of serial objects - creating, initialising repeatedly, moving, assigning over one
  another or to themselves, reading, writing and destroying - the successful initialisations
  are the deinitialisations and the objects that are initialised now; once all objects are
  destroyed the numbers are equal.
\<close>

theorem serial_balanced:
  "(let (objs, cs) = serial_run ops moved xs []
    in drv_inits cs = drv_deinits cs + length (filter (\<lambda>x. \<exists>s. x = Some s \<and> ser_initialized s) objs))"
proof -
  have "held objs = length (filter (\<lambda>x. \<exists>s. x = Some s \<and> ser_initialized s) objs)"
    for objs :: "'a Serial option list"
    by (induction objs) (auto simp: held_def holds_def split: option.splits)
  then show ?thesis
    using serial_run_held [of ops moved xs "[]"] by (auto simp: held_def split: prod.splits)
qed

end
