(* ===== verification/Semaphore_Core.thy ===== *)
theory Semaphore_Core
  imports Thread_Core
begin

text \<open>
  Counting semaphores, the part every platform shares
  (src/platform/common/isemaphore/ISemaphore.hpp): the members of \<open>ISemaphore\<close>, its operations
  over the derived class's, the contract of a platform as a locale, and what the operating
  system's semaphore promises as a predicate on the calls it answers.
\<close>

record ISemaphore =
  sem_name :: string
  init_count :: u32
  count_limit :: u32
  sem_initialized :: bool

definition sem_name_size :: nat where "sem_name_size = 32"

definition sem_name_literal :: "string \<Rightarrow> string option" where
  "sem_name_literal name =
     (if length name + 1 \<le> sem_name_size
      then Some ((name @ replicate (sem_name_size - length name) (CHR 0x00))
                   [length name := CHR 0x00])
      else None)"

definition sem_name_runtime :: "string \<Rightarrow> string" where
  "sem_name_runtime name =
     (let copy_len = min (length name) (sem_name_size - 1)
      in (take copy_len name @ replicate (sem_name_size - copy_len) (CHR 0x00))
           [copy_len := CHR 0x00])"

definition new_semaphore :: "string \<Rightarrow> u32 \<Rightarrow> u32 \<Rightarrow> ISemaphore" where
  "new_semaphore name initial_count max_limit =
     \<lparr>sem_name = sem_name_runtime name, init_count = initial_count, count_limit = max_limit,
      sem_initialized = False\<rparr>"

text \<open>
  Calls of the operating system with their answers; \<open>SemInit\<close> carries the initial count and the
  limit, where the system is told one.
\<close>

datatype sem_call =
    SemInit u32 "u32 option" os_result
  | SemDestroy os_result
  | SemTake os_result
  | SemGive os_result

type_synonym sem_result = "(unit, SemaphoreError) error_handler logged"

type_synonym 's sem_op = "'s \<Rightarrow> sem_result \<times> 's \<times> sem_call list"

text \<open>The flag of \<open>give\<close> is false when it ends the program (\<open>std::terminate\<close>).\<close>

type_synonym 's give_op = "'s \<Rightarrow> bool \<times> 's \<times> sem_call list"

subsection \<open>Operations\<close>

definition sem_init :: "'a ISemaphore_scheme sem_op \<Rightarrow> 'a ISemaphore_scheme sem_op" where
  "sem_init do_init s =
     (if \<not> sem_initialized s then
        let (result, s, calls) = do_init s
        in (result, if has_value (fst result) then s\<lparr>sem_initialized := True\<rparr> else s, calls)
      else
        (of_error SemaphoreError_name SemaphoreError_AlreadyInitialized
           ''Semaphore already initialized'' ''init'', s, []))"

definition sem_take :: "'a ISemaphore_scheme sem_op \<Rightarrow> 'a ISemaphore_scheme sem_op" where
  "sem_take do_take s =
     (if \<not> sem_initialized s then
        (of_error SemaphoreError_name SemaphoreError_NotInitialized ''Semaphore not initialized''
           ''take'', s, [])
      else do_take s)"

definition sem_give :: "'a ISemaphore_scheme give_op \<Rightarrow> 'a ISemaphore_scheme give_op" where
  "sem_give do_give s = (if \<not> sem_initialized s then (True, s, []) else do_give s)"

subsection \<open>Threads that share a semaphore\<close>

text \<open>
  An interleaving of operations on one semaphore; a call that waits takes place when it returns.
  The state is the semaphore, how often \<open>take\<close> has reported success, how often \<open>give\<close> has returned on an
  initialised semaphore, and whether the program is alive. (\<open>give\<close> reports nothing: it returns, does
  nothing on a semaphore that is not initialised, and ends the program when the system refuses.)
\<close>

datatype 'e sem_step = SStepInit 'e | SStepTake 'e | SStepGive 'e

definition sem_step ::
    "('e \<Rightarrow> 'a ISemaphore_scheme sem_op) \<Rightarrow> ('e \<Rightarrow> 'a ISemaphore_scheme sem_op) \<Rightarrow>
      ('e \<Rightarrow> 'a ISemaphore_scheme give_op) \<Rightarrow> 'e sem_step \<Rightarrow> 'a ISemaphore_scheme \<times> nat \<times> nat \<times> bool \<Rightarrow>
      ('a ISemaphore_scheme \<times> nat \<times> nat \<times> bool) \<times> sem_call list" where
  "sem_step do_init do_take do_give step = (\<lambda>(s, taken, given, alive).
     (case step of
        SStepInit env \<Rightarrow> (let (r, s, cs) = sem_init (do_init env) s in ((s, taken, given, alive), cs))
      | SStepTake env \<Rightarrow>
          (let (r, s, cs) = sem_take (do_take env) s
           in ((s, if has_value (fst r) then taken + 1 else taken, given, alive), cs))
      | SStepGive env \<Rightarrow>
          (let (alive, s', cs) = sem_give (do_give env) s
           in ((s', taken, if sem_initialized s \<and> alive then given + 1 else given, alive), cs))))"

fun sem_run ::
    "('e \<Rightarrow> 'a ISemaphore_scheme sem_op) \<Rightarrow> ('e \<Rightarrow> 'a ISemaphore_scheme sem_op) \<Rightarrow>
      ('e \<Rightarrow> 'a ISemaphore_scheme give_op) \<Rightarrow> 'e sem_step list \<Rightarrow> 'a ISemaphore_scheme \<times> nat \<times> nat \<times> bool \<Rightarrow>
      ('a ISemaphore_scheme \<times> nat \<times> nat \<times> bool) \<times> sem_call list" where
  "sem_run do_init do_take do_give [] w = (w, [])"
| "sem_run do_init do_take do_give (st # sts) w =
     (if \<not> snd (snd (snd w)) then (w, [])
      else
        let (w', cs) = sem_step do_init do_take do_give st w;
            (w'', ds) = sem_run do_init do_take do_give sts w'
        in (w'', cs @ ds))"

lemma books_cases:
  obtains s taken given alive cs where "p = ((s, taken, given, alive), cs)"
  by (cases p) auto

subsection \<open>What the operating system promises\<close>

text \<open>
  The documented behaviour of the system's semaphore: \<open>None\<close> for an answer the documentation
  excludes. A take succeeds only on a positive count, which it lowers by one; a give raises the
  count by one, up to the limit where there is one.
\<close>

fun os_sem_step :: "sem_call \<Rightarrow> (nat \<times> nat option) option \<Rightarrow> (nat \<times> nat option) option option" where
  "os_sem_step (SemInit n lim a) st =
     Some (if a = os_ok then Some (unat n, map_option unat lim) else st)"
| "os_sem_step (SemDestroy a) st = Some (if a = os_ok then None else st)"
| "os_sem_step (SemTake a) st =
     (if a \<noteq> os_ok then Some st
      else case st of
        Some (Suc c, lim) \<Rightarrow> Some (Some (c, lim))
      | _ \<Rightarrow> None)"
| "os_sem_step (SemGive a) st =
     (if a \<noteq> os_ok then Some st
      else case st of
        Some (c, None) \<Rightarrow> Some (Some (c + 1, None))
      | Some (c, Some l) \<Rightarrow> Some (Some (min (c + 1) l, Some l))
      | None \<Rightarrow> None)"

fun os_sem :: "sem_call list \<Rightarrow> (nat \<times> nat option) option \<Rightarrow> (nat \<times> nat option) option option" where
  "os_sem [] st = Some st"
| "os_sem (c # cs) st = Option.bind (os_sem_step c st) (os_sem cs)"

lemma os_sem_append: "os_sem (cs @ ds) st = Option.bind (os_sem cs st) (os_sem ds)"
  by (induction cs arbitrary: st) (auto split: bind_splits)

subsection \<open>The contract of a platform\<close>

text \<open>
  Each operation asks the system once and reports its answer; \<open>limited\<close> is the limit the platform
  tells the system.
\<close>

locale semaphore_platform =
  fixes do_init :: "'e \<Rightarrow> 'a ISemaphore_scheme sem_op" and do_take :: "'e \<Rightarrow> 'a ISemaphore_scheme sem_op"
    and do_give :: "'e \<Rightarrow> 'a ISemaphore_scheme give_op"
    and limited :: "'a ISemaphore_scheme \<Rightarrow> u32 option"
  assumes init_calls: "do_init env s = (r, s', cs) \<Longrightarrow> \<not> sem_initialized s \<Longrightarrow>
      \<exists>a. cs = [SemInit (init_count s) (limited s) a] \<and> (has_value (fst r) \<longleftrightarrow> a = os_ok) \<and>
        (a \<noteq> os_ok \<longrightarrow> \<not> sem_initialized s') \<and> init_count s' = init_count s \<and> limited s' = limited s"
    and limited_init: "limited (s\<lparr>sem_initialized := b\<rparr>) = limited s"
    and take_calls: "do_take env s = (r, s', cs) \<Longrightarrow>
      s' = s \<and> (\<exists>a. cs = [SemTake a] \<and> (has_value (fst r) \<longleftrightarrow> a = os_ok))"
    and give_calls: "do_give env s = (alive, s', cs) \<Longrightarrow>
      s' = s \<and> (\<exists>a. cs = [SemGive a] \<and> (alive \<longleftrightarrow> a = os_ok))"
begin

text \<open>
  The books of a semaphore: what has been taken and what is left make up the initial count and
  the calls of \<open>give\<close> that returned, less what a limit has swallowed.
\<close>

definition balanced :: "'a ISemaphore_scheme \<Rightarrow> nat \<Rightarrow> nat \<Rightarrow> (nat \<times> nat option) option \<Rightarrow> bool" where
  "balanced s taken given_n st \<longleftrightarrow>
     (if sem_initialized s then
        (\<exists>c. st = Some (c, map_option unat (limited s)) \<and> taken + c \<le> unat (init_count s) + given_n \<and>
           (limited s = None \<longrightarrow> taken + c = unat (init_count s) + given_n))
      else st = None \<and> taken = 0 \<and> given_n = 0)"

lemma step_balanced:
  assumes b: "balanced s taken n st"
    and step: "sem_step do_init do_take do_give x (s, taken, n, True) = ((s', taken', n', alive'), cs)"
    and os: "os_sem cs st = Some st'"
  shows "balanced s' taken' n' st' \<and> init_count s' = init_count s \<and> limited s' = limited s"
proof (cases x)
  case (SStepInit env)
  show ?thesis
  proof (cases "sem_initialized s")
    case True
    then show ?thesis using assms SStepInit by (auto simp: sem_step_def sem_init_def of_error_def)
  next
    case False
    obtain r s1 cs1 where d: "do_init env s = (r, s1, cs1)" by (metis prod_cases3)
    obtain a where a: "cs1 = [SemInit (init_count s) (limited s) a]" "has_value (fst r) \<longleftrightarrow> a = os_ok"
        "a \<noteq> os_ok \<longrightarrow> \<not> sem_initialized s1" "init_count s1 = init_count s" "limited s1 = limited s"
      using init_calls [OF d False] by blast
    have "cs = cs1" "taken' = taken" "n' = n" "s' = (if a = os_ok then s1\<lparr>sem_initialized := True\<rparr> else s1)"
      using step False d a by (auto simp: sem_step_def SStepInit sem_init_def Let_def)
    then show ?thesis
      using b os a False by (auto simp: balanced_def limited_init split: if_splits)
  qed
next
  case (SStepTake env)
  show ?thesis
  proof (cases "sem_initialized s")
    case False
    then show ?thesis using assms SStepTake by (auto simp: sem_step_def sem_take_def of_error_def)
  next
    case True
    obtain r s1 cs1 where d: "do_take env s = (r, s1, cs1)" by (metis prod_cases3)
    obtain a where a: "s1 = s" "cs1 = [SemTake a]" "has_value (fst r) \<longleftrightarrow> a = os_ok"
      using take_calls [OF d] by blast
    have "cs = cs1" "s' = s" "n' = n" "taken' = (if a = os_ok then taken + 1 else taken)"
      using step True d a by (auto simp: sem_step_def SStepTake sem_take_def Let_def)
    then show ?thesis
      using b os a True by (auto simp: balanced_def split: if_splits option.splits nat.splits)
  qed
next
  case (SStepGive env)
  show ?thesis
  proof (cases "sem_initialized s")
    case False
    then show ?thesis using assms SStepGive by (auto simp: sem_step_def sem_give_def)
  next
    case True
    obtain alive s1 cs1 where d: "do_give env s = (alive, s1, cs1)" by (metis prod_cases3)
    obtain a where a: "s1 = s" "cs1 = [SemGive a]" "alive \<longleftrightarrow> a = os_ok" using give_calls [OF d] by blast
    have "cs = cs1" "s' = s" "taken' = taken" "n' = (if a = os_ok then n + 1 else n)"
      using step True d a by (auto simp: sem_step_def SStepGive sem_give_def Let_def)
    then show ?thesis
      using b os a True by (auto simp: balanced_def split: if_splits option.splits)
  qed
qed

lemma run_balanced:
  "balanced s taken n st \<Longrightarrow>
   sem_run do_init do_take do_give steps (s, taken, n, True) = ((s', taken', n', alive'), cs) \<Longrightarrow>
   os_sem cs st = Some st' \<Longrightarrow>
     balanced s' taken' n' st' \<and> init_count s' = init_count s \<and> limited s' = limited s"
proof (induction steps arbitrary: s taken n st cs)
  case Nil
  then show ?case by simp
next
  case (Cons x steps)
  obtain s1 taken1 n1 alive1 cs1 where x: "sem_step do_init do_take do_give x (s, taken, n, True) = ((s1, taken1, n1, alive1), cs1)"
    by (rule books_cases)
  obtain w cs2 where r: "sem_run do_init do_take do_give steps (s1, taken1, n1, alive1) = (w, cs2)" by fastforce
  have w: "w = (s', taken', n', alive')" "cs = cs1 @ cs2" using Cons.prems(2) x r by auto
  obtain st1 where os: "os_sem cs1 st = Some st1" "os_sem cs2 st1 = Some st'"
    using Cons.prems(3) w by (auto simp: os_sem_append split: bind_splits)
  note s1 = step_balanced [OF Cons.prems(1) x os(1)]
  show ?case
  proof (cases alive1)
    case True
    then show ?thesis using Cons.IH [of s1 taken1 n1 st1 cs2] s1 r os(2) w by auto
  next
    case False
    then have "s1 = s'" "taken1 = taken'" "n1 = n'" "cs2 = []" using r w by (cases steps; auto)+
    then show ?thesis using s1 os(2) w by simp
  qed
qed

lemma conserved:
  assumes "sem_run do_init do_take do_give steps (s, 0, 0, True) = ((s', taken, given, alive), cs)"
    "\<not> sem_initialized s" "os_sem cs None = Some st"
  shows "balanced s' taken given st \<and> init_count s' = init_count s \<and> limited s' = limited s"
proof -
  have "balanced s 0 0 None" using assms(2) by (simp add: balanced_def)
  then show ?thesis using run_balanced [OF _ assms(1) assms(3)] by fastforce
qed

end

end
