(* ===== verification/Semaphore_Posix.thy ===== *)
theory Semaphore_Posix
  imports Semaphore_Core
begin

text \<open>
  POSIX semaphores (src/platform/posix_core/semaphore). A failing call returns -1 and leaves its
  reason in \<open>errno\<close>; an answer here is that error number, \<open>None\<close> for success.
\<close>

record psem_api =
  ps_init :: os_result
  ps_destroy :: os_result
  ps_wait :: os_result
  ps_timedwait :: os_result
  ps_post :: os_result

definition errno_to_semaphore_error :: "errno \<Rightarrow> SemaphoreError" where
  "errno_to_semaphore_error error_code =
     (case error_code of
        EINVAL \<Rightarrow> SemaphoreError_InvalidParameter
      | ENOMEM \<Rightarrow> SemaphoreError_InsufficientMemory
      | ENOSPC \<Rightarrow> SemaphoreError_ResourceLimitExceeded
      | ETIMEDOUT \<Rightarrow> SemaphoreError_Timeout
      | EINTR \<Rightarrow> SemaphoreError_Interrupted
      | EACCES \<Rightarrow> SemaphoreError_PermissionDenied
      | EOVERFLOW \<Rightarrow> SemaphoreError_CountOverflow
      | EALREADY \<Rightarrow> SemaphoreError_AlreadyInitialized
      | _ \<Rightarrow> SemaphoreError_Unknown)"

definition posix_sem_setup :: "psem_api \<Rightarrow> 'a ISemaphore_scheme sem_op" where
  "posix_sem_setup api s =
     (let call = SemInit (init_count s) None (ps_init api) in
      case ps_init api of
        None \<Rightarrow> (of_value (), s\<lparr>sem_initialized := True\<rparr>, [call])
      | Some err \<Rightarrow> (of_error SemaphoreError_name (errno_to_semaphore_error err) ''sem_init failed''
                       ''do_init'', s, [call]))"

definition posix_sem_init :: "psem_api \<Rightarrow> 'a ISemaphore_scheme sem_op" where
  "posix_sem_init api s =
     (if sem_initialized s then
        case ps_destroy api of
          Some err \<Rightarrow> (of_error SemaphoreError_name (errno_to_semaphore_error err) ''sem_destroy failed''
                         ''do_init'', s, [SemDestroy (ps_destroy api)])
        | None \<Rightarrow>
            (let (r, s, calls) = posix_sem_setup api (s\<lparr>sem_initialized := False\<rparr>)
             in (r, s, SemDestroy (ps_destroy api) # calls))
      else posix_sem_setup api s)"

text \<open>\<open>abs_timeout\<close> is \<open>None\<close> for the null pointer; the deadline goes to the system.\<close>

definition posix_sem_take :: "psem_api \<times> (int \<times> int) option \<Rightarrow> 'a ISemaphore_scheme sem_op" where
  "posix_sem_take = (\<lambda>(api, abs_timeout) s.
     (let result = (if abs_timeout = None then ps_wait api else ps_timedwait api) in
      case result of
        None \<Rightarrow> (of_value (), s, [SemTake result])
      | Some err \<Rightarrow> (of_error SemaphoreError_name (errno_to_semaphore_error err)
                       ''sem_wait/sem_timedwait failed'' ''do_take'', s, [SemTake result])))"

definition posix_sem_give :: "psem_api \<Rightarrow> 'a ISemaphore_scheme give_op" where
  "posix_sem_give api s =
     (if ps_post api \<noteq> os_ok then (False, s, [SemGive (ps_post api)])
      else (True, s, [SemGive (ps_post api)]))"

definition posix_sem_dtor :: "psem_api \<Rightarrow> 'a ISemaphore_scheme \<Rightarrow> sem_call list" where
  "posix_sem_dtor api s = (if sem_initialized s then [SemDestroy (ps_destroy api)] else [])"

type_synonym psem_env = "psem_api \<times> (int \<times> int) option"

lemma posix_sem_init_calls:
  assumes "posix_sem_init api s = (r, s', cs)" "\<not> sem_initialized s"
  shows "\<exists>a. cs = [SemInit (init_count s) None a] \<and> (has_value (fst r) \<longleftrightarrow> a = os_ok) \<and>
    (a \<noteq> os_ok \<longrightarrow> \<not> sem_initialized s') \<and> init_count s' = init_count s"
proof (cases "ps_init api")
  case None
  then show ?thesis using assms by (auto simp: posix_sem_init_def posix_sem_setup_def of_value_def)
next
  case (Some e)
  then show ?thesis using assms by (auto simp: posix_sem_init_def posix_sem_setup_def of_error_def)
qed

lemma posix_sem_take_calls:
  assumes "posix_sem_take env s = (r, s', cs)"
  shows "s' = s \<and> (\<exists>a. cs = [SemTake a] \<and> (has_value (fst r) \<longleftrightarrow> a = os_ok))"
proof -
  obtain api timeout where env: "env = (api, timeout)" by (cases env)
  show ?thesis
  proof (cases "if timeout = None then ps_wait api else ps_timedwait api")
    case None
    then have "posix_sem_take env s = (of_value (), s, [SemTake None])"
      unfolding env posix_sem_take_def by (simp only: prod.case Let_def option.case)
    then show ?thesis using assms by (auto simp: of_value_def)
  next
    case (Some e)
    then have "\<exists>e' msg. posix_sem_take env s = (of_error SemaphoreError_name e' msg ''do_take'', s, [SemTake (Some e)])"
      unfolding env posix_sem_take_def by (simp only: prod.case Let_def option.case) blast
    then show ?thesis using assms by (auto simp: of_error_def)
  qed
qed

interpretation psm: semaphore_platform "\<lambda>env :: psem_env. posix_sem_init (fst env)" posix_sem_take
    "\<lambda>env. posix_sem_give (fst env)" "\<lambda>s. None"
proof unfold_locales
  show "posix_sem_init (fst env) s = (r, s', cs) \<Longrightarrow> \<not> sem_initialized s \<Longrightarrow>
      \<exists>a. cs = [SemInit (init_count s) None a] \<and> (has_value (fst r) \<longleftrightarrow> a = os_ok) \<and>
        (a \<noteq> os_ok \<longrightarrow> \<not> sem_initialized s') \<and> init_count s' = init_count s \<and> None = (None :: u32 option)"
    for env :: psem_env and s s' :: "'a ISemaphore_scheme" and r cs
    using posix_sem_init_calls by blast
  show "posix_sem_take env s = (r, s', cs) \<Longrightarrow>
      s' = s \<and> (\<exists>a. cs = [SemTake a] \<and> (has_value (fst r) \<longleftrightarrow> a = os_ok))"
    for env and s s' :: "'a ISemaphore_scheme" and r cs
    using posix_sem_take_calls by blast
  show "posix_sem_give (fst env) s = (alive, s', cs) \<Longrightarrow>
      s' = s \<and> (\<exists>a. cs = [SemGive a] \<and> (alive \<longleftrightarrow> a = os_ok))"
    for env :: psem_env and s s' :: "'a ISemaphore_scheme" and alive cs
    by (auto simp: posix_sem_give_def split: if_splits)
qed simp

definition posix_sem_run ::
    "psem_env sem_step list \<Rightarrow> 'a ISemaphore_scheme \<times> nat \<times> nat \<times> bool \<Rightarrow>
      ('a ISemaphore_scheme \<times> nat \<times> nat \<times> bool) \<times> sem_call list" where
  "posix_sem_run = sem_run (\<lambda>env. posix_sem_init (fst env)) posix_sem_take (\<lambda>env. posix_sem_give (fst env))"

text \<open>
  C33: A semaphore keeps its books. However many threads initialise, take and give, in any
  interleaving, the takes that were reported successful and the count that is left add up to the
  initial count and the calls of \<open>give\<close> that returned on the initialised semaphore: no take succeeds
  twice for one give, no such give is lost, and a repeated initialisation does not refill the
  semaphore. Before the initialisation nothing is taken (and a \<open>give\<close> returns without effect, which
  the count leaves out). This rests on the documented behaviour of the system's semaphore only.
\<close>

theorem posix_semaphore_conserves:
  assumes "posix_sem_run steps (s, 0, 0, True) = ((s', taken, given, alive), cs)"
    "\<not> sem_initialized s" "os_sem cs None = Some st"
  shows "if sem_initialized s'
    then \<exists>c. st = Some (c, None) \<and> taken + c = unat (init_count s) + given
    else taken = 0 \<and> given = 0"
  using psm.conserved [OF assms(1) [unfolded posix_sem_run_def] assms(2) assms(3)]
  by (auto simp: psm.balanced_def split: if_splits)

definition working_psem :: psem_api where
  "working_psem = \<lparr>ps_init = None, ps_destroy = None, ps_wait = None, ps_timedwait = Some ETIMEDOUT,
     ps_post = None\<rparr>"

definition example_sem_steps :: "psem_env sem_step list" where
  "example_sem_steps =
     [SStepGive (working_psem, None), SStepInit (working_psem, None), SStepTake (working_psem, None),
      SStepTake (working_psem, Some (9, 0)), SStepInit (working_psem, None),
      SStepGive (working_psem, None), SStepGive (working_psem, None)]"

theorem posix_semaphore_conserves_witness:
  "\<exists>s' given alive cs. posix_sem_run example_sem_steps (new_semaphore ''s'' 1 1, 0, 0, True) = ((s', 1, given, alive), cs) \<and>
     os_sem cs None = Some (Some (2, None)) \<and> 1 + 2 = unat (1 :: u32) + given"
proof -
  obtain s' taken given alive cs where
    run: "posix_sem_run example_sem_steps (new_semaphore ''s'' 1 1, 0, 0, True) = ((s', taken, given, alive), cs)"
    by (rule books_cases)
  have "(let ((s', taken, given, alive), cs) = posix_sem_run example_sem_steps (new_semaphore ''s'' 1 1, 0, 0, True)
      in taken = 1 \<and> sem_initialized s' \<and> os_sem cs None = Some (Some (2, None)))"
    by code_simp
  then have ev: "taken = 1" "sem_initialized s'" "os_sem cs None = Some (Some (2, None))"
    by (simp_all add: run)
  have "\<not> sem_initialized (new_semaphore ''s'' 1 1)" by (simp add: new_semaphore_def)
  from posix_semaphore_conserves [OF run this ev(3)] ev show ?thesis
    using run by (auto simp: new_semaphore_def)
qed

text \<open>
  A POSIX semaphore ignores the limit it is given: changing \<open>count_limit\<close> changes no result
  and no call of the system in any run, so the count may pass the limit.
\<close>

theorem posix_limit_ignored:
  "posix_sem_run steps (s\<lparr>count_limit := l\<rparr>, taken, given, alive) =
     (let ((s', taken', given', alive'), cs) = posix_sem_run steps (s, taken, given, alive)
      in ((s'\<lparr>count_limit := l\<rparr>, taken', given', alive'), cs))"
proof -
  have init: "posix_sem_init api (s\<lparr>count_limit := l\<rparr>) =
      (let (r, s', cs) = posix_sem_init api s in (r, s'\<lparr>count_limit := l\<rparr>, cs))"
    for api and s :: "'a ISemaphore_scheme"
    by (cases "ps_destroy api"; cases "ps_init api") (simp_all add: posix_sem_init_def posix_sem_setup_def)
  have take: "posix_sem_take env (s\<lparr>count_limit := l\<rparr>) =
      (let (r, s', cs) = posix_sem_take env s in (r, s'\<lparr>count_limit := l\<rparr>, cs))"
    for env and s :: "'a ISemaphore_scheme"
    by (cases env) (simp add: posix_sem_take_def Let_def split: option.splits)
  have give: "posix_sem_give api (s\<lparr>count_limit := l\<rparr>) =
      (let (b, s', cs) = posix_sem_give api s in (b, s'\<lparr>count_limit := l\<rparr>, cs))"
    for api and s :: "'a ISemaphore_scheme"
    by (simp add: posix_sem_give_def)
  have step: "sem_step (\<lambda>env. posix_sem_init (fst env)) posix_sem_take (\<lambda>env. posix_sem_give (fst env)) x
        (s\<lparr>count_limit := l\<rparr>, taken, given, alive) =
      (let ((s', taken', given', alive'), cs) =
           sem_step (\<lambda>env. posix_sem_init (fst env)) posix_sem_take (\<lambda>env. posix_sem_give (fst env)) x (s, taken, given, alive)
       in ((s'\<lparr>count_limit := l\<rparr>, taken', given', alive'), cs))"
    for x taken given alive and s :: "'a ISemaphore_scheme"
    by (cases x)
      (auto simp: sem_step_def sem_init_def sem_take_def sem_give_def init take give Let_def split: prod.splits)
  show ?thesis
    unfolding posix_sem_run_def
    by (induction steps arbitrary: s taken given alive) (auto simp: step Let_def split: prod.splits)
qed

end
