(* ===== verification/Semaphore_Zephyr.thy ===== *)
theory Semaphore_Zephyr
  imports Semaphore_Core
begin

text \<open>Zephyr semaphores (src/platform/zephyr_core/semaphore), which know their limit.\<close>

record ksem_api =
  ks_init :: os_result
  ks_take :: os_result

definition zephyr_errno_to_semaphore_error :: "errno \<Rightarrow> SemaphoreError" where
  "zephyr_errno_to_semaphore_error error_code =
     (case error_code of
        EINVAL \<Rightarrow> SemaphoreError_InvalidParameter
      | ETIMEDOUT \<Rightarrow> SemaphoreError_Timeout
      | EBUSY \<Rightarrow> SemaphoreError_Timeout
      | EAGAIN \<Rightarrow> SemaphoreError_Timeout
      | EALREADY \<Rightarrow> SemaphoreError_AlreadyInitialized
      | _ \<Rightarrow> SemaphoreError_Unknown)"

definition zephyr_sem_init :: "ksem_api \<Rightarrow> 'a ISemaphore_scheme sem_op" where
  "zephyr_sem_init api s =
     (if sem_initialized s then
        (of_error SemaphoreError_name SemaphoreError_AlreadyInitialized
           ''Semaphore already initialized'' ''do_init'', s, [])
      else
        let call = SemInit (init_count s) (Some (count_limit s)) (ks_init api) in
        case ks_init api of
          Some err \<Rightarrow> (of_error SemaphoreError_name (zephyr_errno_to_semaphore_error err)
                         ''k_sem_init failed'' ''do_init'', s, [call])
        | None \<Rightarrow> (of_value (), s\<lparr>sem_initialized := True\<rparr>, [call]))"

definition zephyr_sem_take :: "ksem_api \<Rightarrow> 'a ISemaphore_scheme sem_op" where
  "zephyr_sem_take api s =
     (case ks_take api of
        None \<Rightarrow> (of_value (), s, [SemTake (ks_take api)])
      | Some err \<Rightarrow> (of_error SemaphoreError_name (zephyr_errno_to_semaphore_error err)
                       ''k_sem_take failed'' ''do_take'', s, [SemTake (ks_take api)]))"

text \<open>\<open>k_sem_give\<close> returns nothing.\<close>

definition zephyr_sem_give :: "ksem_api \<Rightarrow> 'a ISemaphore_scheme give_op" where
  "zephyr_sem_give api s = (True, s, [SemGive os_ok])"

lemma zephyr_sem_take_calls:
  assumes "zephyr_sem_take api s = (r, s', cs)"
  shows "s' = s \<and> (\<exists>a. cs = [SemTake a] \<and> (has_value (fst r) \<longleftrightarrow> a = os_ok))"
proof (cases "ks_take api")
  case None
  then have "zephyr_sem_take api s = (of_value (), s, [SemTake os_ok])" by (simp add: zephyr_sem_take_def)
  then show ?thesis using assms by (auto simp: of_value_def)
next
  case (Some e)
  then have "fst r = Unexpected (zephyr_errno_to_semaphore_error e)" "s' = s" "cs = [SemTake (Some e)]"
    using assms by (auto simp: zephyr_sem_take_def of_error_def)
  then show ?thesis by simp
qed

interpretation zsm: semaphore_platform zephyr_sem_init zephyr_sem_take zephyr_sem_give
    "\<lambda>s. Some (count_limit s)"
proof unfold_locales
  show "zephyr_sem_init api s = (r, s', cs) \<Longrightarrow> \<not> sem_initialized s \<Longrightarrow>
      \<exists>a. cs = [SemInit (init_count s) (Some (count_limit s)) a] \<and> (has_value (fst r) \<longleftrightarrow> a = os_ok) \<and>
        (a \<noteq> os_ok \<longrightarrow> \<not> sem_initialized s') \<and> init_count s' = init_count s \<and>
        Some (count_limit s') = Some (count_limit s)"
    for api and s s' :: "'a ISemaphore_scheme" and r cs
    by (cases "ks_init api") (auto simp: zephyr_sem_init_def of_error_def of_value_def)
  show "zephyr_sem_take api s = (r, s', cs) \<Longrightarrow>
      s' = s \<and> (\<exists>a. cs = [SemTake a] \<and> (has_value (fst r) \<longleftrightarrow> a = os_ok))"
    for api and s s' :: "'a ISemaphore_scheme" and r cs
    by (rule zephyr_sem_take_calls)
  show "zephyr_sem_give api s = (alive, s', cs) \<Longrightarrow>
      s' = s \<and> (\<exists>a. cs = [SemGive a] \<and> (alive \<longleftrightarrow> a = os_ok))"
    for api and s s' :: "'a ISemaphore_scheme" and alive cs
    by (auto simp: zephyr_sem_give_def)
qed simp

definition zephyr_sem_run ::
    "ksem_api sem_step list \<Rightarrow> 'a ISemaphore_scheme \<times> nat \<times> nat \<times> bool \<Rightarrow>
      ('a ISemaphore_scheme \<times> nat \<times> nat \<times> bool) \<times> sem_call list" where
  "zephyr_sem_run = sem_run zephyr_sem_init zephyr_sem_take zephyr_sem_give"

text \<open>On Zephyr a give beyond the limit is swallowed, so the books hold as an inequality.\<close>

lemma zephyr_semaphore_conserves:
  assumes "zephyr_sem_run steps (s, 0, 0, True) = ((s', taken, given, alive), cs)"
    "\<not> sem_initialized s" "os_sem cs None = Some st"
  shows "taken \<le> unat (init_count s) + given"
  using zsm.conserved [OF assms(1) [unfolded zephyr_sem_run_def] assms(2) assms(3)]
  by (auto simp: zsm.balanced_def split: if_splits)

end
