(* ===== verification/Queue_Core.thy ===== *)
theory Queue_Core
  imports Thread_Core
begin

text \<open>
  Message queues, the part every platform shares
  (src/platform/common/imessage_queue/IMessageQueue.hpp). A message of the trivially copyable
  type \<open>T\<close> is a value of the type \<open>'m\<close>. \<open>queue_platform\<close> is the contract of a platform, \<open>os_queue\<close>
  what the operating system's queue promises.
\<close>

record IMessageQueue =
  queue_name :: string

definition queue_name_size :: nat where "queue_name_size = 32"

definition queue_name_literal :: "string \<Rightarrow> string option" where
  "queue_name_literal name =
     (if length name + 1 \<le> queue_name_size
      then Some ((name @ replicate (queue_name_size - length name) (CHR 0x00))
                   [length name := CHR 0x00])
      else None)"

definition queue_name_runtime :: "string \<Rightarrow> string" where
  "queue_name_runtime name =
     (let copy_len = min (length name) (queue_name_size - 1)
      in (take copy_len name @ replicate (queue_name_size - copy_len) (CHR 0x00))
           [copy_len := CHR 0x00])"

record timespec =
  tv_sec :: int
  tv_nsec :: int

text \<open>
  Calls with their answers: opening a named queue with its capacity, resetting a queue in a
  buffer, sending (with the priority and the deadline of a timed call), receiving, closing and unlinking.
\<close>

datatype 'm queue_call =
    QOpen u32 os_result
  | QReset u32
  | QSend 'm nat "timespec option" os_result
  | QReceive "timespec option" "errno + 'm"
  | QClose
  | QUnlink string

type_synonym queue_result = "(unit, MessageQueueError) error_handler logged"

type_synonym ('s, 'm) queue_init_op = "'s \<Rightarrow> queue_result \<times> 's \<times> 'm queue_call list"

type_synonym ('s, 'm) queue_send_op = "'m \<Rightarrow> 's \<Rightarrow> queue_result \<times> 'm queue_call list"

text \<open>Receiving also yields the message it has written into its argument, if any.\<close>

type_synonym ('s, 'm) queue_receive_op = "'s \<Rightarrow> (queue_result \<times> 'm option) \<times> 'm queue_call list"

definition queue_init :: "(u32 \<Rightarrow> ('s, 'm) queue_init_op) \<Rightarrow> u32 \<Rightarrow> ('s, 'm) queue_init_op" where
  "queue_init init_impl capacity q =
     (if capacity = 0 then
        (of_error MessageQueueError_name MessageQueueError_InvalidParameter ''Capacity cannot be zero''
           ''init'', q, [])
      else init_impl capacity q)"

text \<open>\<open>gsl::not_null\<close> excludes a null buffer.\<close>

definition queue_init_buffer ::
    "(u64 \<Rightarrow> u32 \<Rightarrow> ('s, 'm) queue_init_op) \<Rightarrow> u64 \<Rightarrow> u32 \<Rightarrow> ('s, 'm) queue_init_op" where
  "queue_init_buffer init_impl buffer capacity q =
     (if capacity = 0 then
        (of_error MessageQueueError_name MessageQueueError_InvalidParameter ''Capacity cannot be zero''
           ''init'', q, [])
      else init_impl buffer capacity q)"

definition queue_send :: "('s, 'm) queue_send_op \<Rightarrow> ('s, 'm) queue_send_op" where
  "queue_send send_impl message q = send_impl message q"

definition queue_receive :: "('s, 'm) queue_receive_op \<Rightarrow> ('s, 'm) queue_receive_op" where
  "queue_receive receive_impl q = receive_impl q"

definition queue_get_free_space :: "('s \<Rightarrow> u64) \<Rightarrow> 's \<Rightarrow> u64" where
  "queue_get_free_space get_free_space_impl q = get_free_space_impl q"

subsection \<open>Threads that share a queue\<close>

text \<open>
  An interleaving of operations; a call that waits takes place when it returns. Next to the queue
  the state keeps the messages whose sending was reported successful and those received, in order.
\<close>

datatype ('e, 'm) queue_step = QStepInit 'e | QStepSend 'e 'm | QStepReceive 'e

definition queue_step ::
    "('e \<Rightarrow> ('s, 'm) queue_init_op) \<Rightarrow> ('e \<Rightarrow> ('s, 'm) queue_send_op) \<Rightarrow> ('e \<Rightarrow> ('s, 'm) queue_receive_op) \<Rightarrow>
      ('e, 'm) queue_step \<Rightarrow> 's \<times> 'm list \<times> 'm list \<Rightarrow> ('s \<times> 'm list \<times> 'm list) \<times> 'm queue_call list" where
  "queue_step init send receive step = (\<lambda>(q, sent, received).
     (case step of
        QStepInit env \<Rightarrow> (let (r, q, cs) = init env q in ((q, sent, received), cs))
      | QStepSend env m \<Rightarrow>
          (let (r, cs) = queue_send (send env) m q
           in ((q, if has_value (fst r) then sent @ [m] else sent, received), cs))
      | QStepReceive env \<Rightarrow>
          (let ((r, out), cs) = queue_receive (receive env) q
           in ((q, sent, received @ (case out of None \<Rightarrow> [] | Some m \<Rightarrow> [m])), cs))))"

fun queue_run ::
    "('e \<Rightarrow> ('s, 'm) queue_init_op) \<Rightarrow> ('e \<Rightarrow> ('s, 'm) queue_send_op) \<Rightarrow> ('e \<Rightarrow> ('s, 'm) queue_receive_op) \<Rightarrow>
      ('e, 'm) queue_step list \<Rightarrow> 's \<times> 'm list \<times> 'm list \<Rightarrow> ('s \<times> 'm list \<times> 'm list) \<times> 'm queue_call list" where
  "queue_run init send receive [] w = (w, [])"
| "queue_run init send receive (x # xs) w =
     (let (w', cs) = queue_step init send receive x w; (w'', ds) = queue_run init send receive xs w'
      in (w'', cs @ ds))"

subsection \<open>What the operating system promises\<close>

text \<open>
  The documented behaviour of the system's queue, a capacity and its messages with their
  priorities: \<open>None\<close> for an answer the documentation excludes. Opening finds an existing queue of the
  name as it is. A message is put behind those of its own and of higher priority; a queue of Zephyr
  has no priorities, all its messages have priority 0.
\<close>

definition enqueue :: "nat \<Rightarrow> 'm \<Rightarrow> (nat \<times> 'm) list \<Rightarrow> (nat \<times> 'm) list" where
  "enqueue p m ms = takeWhile (\<lambda>e. p \<le> fst e) ms @ (p, m) # dropWhile (\<lambda>e. p \<le> fst e) ms"

lemma enqueue_lowest [simp]: "enqueue 0 m ms = ms @ [(0, m)]"
  by (simp add: enqueue_def)

fun os_queue_step :: "'m queue_call \<Rightarrow> (nat \<times> (nat \<times> 'm) list) option \<Rightarrow> (nat \<times> (nat \<times> 'm) list) option option" where
  "os_queue_step (QOpen cap a) st =
     Some (if a = os_ok \<and> st = None then Some (unat cap, []) else st)"
| "os_queue_step (QReset cap) st = Some (Some (unat cap, []))"
| "os_queue_step (QSend m p ts a) st =
     (if a \<noteq> os_ok then Some st
      else case st of
        None \<Rightarrow> None
      | Some (cap, ms) \<Rightarrow> if length ms < cap then Some (Some (cap, enqueue p m ms)) else None)"
| "os_queue_step (QReceive ts a) st =
     (case a of
        Inl e \<Rightarrow> Some st
      | Inr m \<Rightarrow>
          (case st of
             Some (cap, (p, m') # ms) \<Rightarrow> if m' = m then Some (Some (cap, ms)) else None
           | _ \<Rightarrow> None))"
| "os_queue_step QClose st = Some st"
| "os_queue_step (QUnlink name) st = Some None"

fun os_queue :: "'m queue_call list \<Rightarrow> (nat \<times> (nat \<times> 'm) list) option \<Rightarrow> (nat \<times> (nat \<times> 'm) list) option option" where
  "os_queue [] st = Some st"
| "os_queue (c # cs) st = Option.bind (os_queue_step c st) (os_queue cs)"

lemma os_queue_append: "os_queue (cs @ ds) st = Option.bind (os_queue cs st) (os_queue ds)"
  by (induction cs arbitrary: st) (auto split: bind_splits)

definition queue_content :: "(nat \<times> (nat \<times> 'm) list) option \<Rightarrow> 'm list" where
  "queue_content st = (case st of None \<Rightarrow> [] | Some (cap, ms) \<Rightarrow> map snd ms)"

lemma queue_content_simps [simp]:
  "queue_content None = []" "queue_content (Some (cap, ms)) = map snd ms"
  by (simp_all add: queue_content_def)

definition within_capacity :: "(nat \<times> (nat \<times> 'm) list) option \<Rightarrow> bool" where
  "within_capacity st = (case st of None \<Rightarrow> True | Some (cap, ms) \<Rightarrow> length ms \<le> cap)"

subsection \<open>The contract of a platform\<close>

text \<open>
  Initialising opens a queue, or resets one that is not yet ready; the other operations do nothing
  before the queue is ready and then ask the system once and report its answer.
\<close>

locale queue_platform =
  fixes init :: "'e \<Rightarrow> ('s, 'm) queue_init_op" and send :: "'e \<Rightarrow> ('s, 'm) queue_send_op"
    and receive :: "'e \<Rightarrow> ('s, 'm) queue_receive_op" and ready :: "'s \<Rightarrow> bool" and resets :: bool
  assumes init_open: "init env q = (r, q', cs) \<Longrightarrow> \<not> resets \<Longrightarrow> cs = [] \<or> (\<exists>cap a. cs = [QOpen cap a])"
    and init_reset: "init env q = (r, q', cs) \<Longrightarrow> resets \<Longrightarrow>
      (cs = [] \<and> ready q' = ready q) \<or> (\<exists>cap. cs = [QReset cap] \<and> \<not> ready q \<and> ready q')"
    and send_calls: "send env m q = (r, cs) \<Longrightarrow>
      (if ready q then \<exists>ts a. cs = [QSend m 0 ts a] \<and> (has_value (fst r) \<longleftrightarrow> a = os_ok)
       else cs = [] \<and> \<not> has_value (fst r))"
    and receive_calls: "receive env q = ((r, out), cs) \<Longrightarrow>
      (if ready q then (\<exists>ts e. cs = [QReceive ts (Inl e)] \<and> \<not> has_value (fst r) \<and> out = None) \<or>
         (\<exists>ts m. cs = [QReceive ts (Inr m)] \<and> has_value (fst r) \<and> out = Some m)
       else cs = [] \<and> \<not> has_value (fst r) \<and> out = None)"
begin

definition accounted :: "'m list \<Rightarrow> 's \<times> 'm list \<times> 'm list \<Rightarrow> (nat \<times> (nat \<times> 'm) list) option \<Rightarrow> bool" where
  "accounted initial = (\<lambda>(q, sent, received) st.
     received @ queue_content st = initial @ sent \<and> within_capacity st \<and>
     (resets \<and> \<not> ready q \<longrightarrow> initial = [] \<and> sent = [] \<and> received = [] \<and> st = None))"

lemma step_accounted:
  assumes acc: "accounted initial (q, sent, received) st"
    and step: "queue_step init send receive x (q, sent, received) = (w, cs)"
    and os: "os_queue cs st = Some st'"
  shows "accounted initial w st'"
proof (cases x)
  case (QStepInit env)
  obtain r q' cs' where d: "init env q = (r, q', cs')" by (metis prod_cases3)
  have w: "w = (q', sent, received)" "cs = cs'" using step by (simp_all add: QStepInit queue_step_def d)
  show ?thesis
  proof (cases resets)
    case False
    with init_open [OF d False] show ?thesis
      using acc os unfolding accounted_def w by (auto simp: within_capacity_def split: if_splits)
  next
    case True
    with init_reset [OF d True] show ?thesis
      using acc os unfolding accounted_def w by (auto simp: within_capacity_def)
  qed
next
  case (QStepSend env m)
  obtain r cs' where d: "send env m q = (r, cs')" by fastforce
  have w: "w = (q, if has_value (fst r) then sent @ [m] else sent, received)" "cs = cs'"
    using step by (simp_all add: QStepSend queue_step_def queue_send_def d)
  show ?thesis
    using send_calls [OF d] acc os
    by (auto simp: accounted_def w within_capacity_def simp flip: append_assoc
        split: if_splits option.splits)
next
  case (QStepReceive env)
  obtain r out cs' where d: "receive env q = ((r, out), cs')" by (metis prod_cases3 surj_pair)
  have w: "w = (q, sent, received @ (case out of None \<Rightarrow> [] | Some m \<Rightarrow> [m]))" "cs = cs'"
    using step by (simp_all add: QStepReceive queue_step_def queue_receive_def d)
  show ?thesis
    using receive_calls [OF d] acc os
    by (auto simp: accounted_def w within_capacity_def
        split: if_splits option.splits sum.splits list.splits)
qed

lemma run_accounted:
  "accounted initial w st \<Longrightarrow> queue_run init send receive xs w = (w', cs) \<Longrightarrow> os_queue cs st = Some st' \<Longrightarrow>
     accounted initial w' st'"
proof (induction xs arbitrary: w st cs)
  case (Cons x xs)
  obtain q sent received where w: "w = (q, sent, received)" by (cases w)
  obtain w1 cs1 where x: "queue_step init send receive x w = (w1, cs1)" by fastforce
  obtain w2 cs2 where r: "queue_run init send receive xs w1 = (w2, cs2)" by fastforce
  have e: "w' = w2" "cs = cs1 @ cs2" using Cons.prems(2) x r by auto
  then obtain st1 where os: "os_queue cs1 st = Some st1" "os_queue cs2 st1 = Some st'"
    using Cons.prems(3) by (auto simp: os_queue_append split: bind_splits)
  show ?case
    using Cons.IH step_accounted [OF Cons.prems(1) [unfolded w] x [unfolded w] os(1)] r e os(2) by blast
qed simp

lemma fifo:
  assumes "queue_run init send receive xs (q, [], []) = ((q', sent, received), cs)"
    "os_queue cs st = Some st'" "within_capacity st" "resets \<Longrightarrow> \<not> ready q \<Longrightarrow> st = None"
  shows "received @ queue_content st' = queue_content st @ sent \<and> within_capacity st'"
proof -
  have "accounted (queue_content st) (q, [], []) st"
    using assms(3, 4) by (auto simp: accounted_def)
  then show ?thesis using run_accounted [OF _ assms(1, 2)] by (fastforce simp: accounted_def)
qed

end

end
