(* ===== verification/Queue_Posix.thy ===== *)
theory Queue_Posix
  imports Queue_Core
begin

text \<open>
  POSIX message queues (src/platform/posix_core/message_queue). The descriptor is \<open>None\<close> for -1;
  answers are error numbers as left in \<open>errno\<close>. \<open>time_t\<close> and \<open>long\<close> have 64 bits.
\<close>

definition errno_to_error :: "errno \<Rightarrow> MessageQueueError" where
  "errno_to_error err =
     (case err of
        EINVAL \<Rightarrow> MessageQueueError_InvalidParameter
      | EBADF \<Rightarrow> MessageQueueError_InvalidParameter
      | ENOMEM \<Rightarrow> MessageQueueError_InsufficientMemory
      | ENOSPC \<Rightarrow> MessageQueueError_ResourceLimitExceeded
      | EMFILE \<Rightarrow> MessageQueueError_ResourceLimitExceeded
      | ENFILE \<Rightarrow> MessageQueueError_ResourceLimitExceeded
      | ETIMEDOUT \<Rightarrow> MessageQueueError_Timeout
      | EINTR \<Rightarrow> MessageQueueError_Interrupted
      | EAGAIN \<Rightarrow> MessageQueueError_QueueFull
      | EACCES \<Rightarrow> MessageQueueError_PermissionDenied
      | EEXIST \<Rightarrow> MessageQueueError_AlreadyExists
      | _ \<Rightarrow> MessageQueueError_Unknown)"

record PosixQueue = IMessageQueue +
  mqd :: "int option"

record 'm mq_api =
  mq_open :: "errno + int"
  mq_send :: os_result
  mq_timedsend :: os_result
  mq_receive :: "errno + 'm"
  mq_timedreceive :: "errno + 'm"
  mq_getattr :: "(int \<times> int) option"
  clock_gettime :: timespec

definition new_posix_queue :: "string \<Rightarrow> PosixQueue" where
  "new_posix_queue name = \<lparr>queue_name = queue_name_runtime name, mqd = None\<rparr>"

subsection \<open>Deadlines\<close>

definition time_t_max :: int where "time_t_max = 2 ^ 63 - 1"

text \<open>The products and quotients of the unsigned milliseconds are 32-bit words, as in the code.\<close>

definition ms_to_timespec :: "timespec \<Rightarrow> u32 \<Rightarrow> timespec" where
  "ms_to_timespec now timeout_ms =
     (let ts = now;
          max_sec = time_t_max;
          now_sec = tv_sec ts;
          add_sec = uint (timeout_ms div 1000);
          add_nsec = uint ((timeout_ms mod 1000) * 1000000)
      in if max_sec - now_sec \<le> 0 then \<lparr>tv_sec = max_sec, tv_nsec = 999999999\<rparr>
         else
           let safe_sec = (if add_sec > max_sec - now_sec then max_sec - now_sec else add_sec);
               ts = ts\<lparr>tv_sec := tv_sec ts + safe_sec, tv_nsec := tv_nsec ts + add_nsec\<rparr>
           in if tv_nsec ts \<ge> 1000000000 then
                (if tv_sec ts < max_sec
                 then ts\<lparr>tv_sec := tv_sec ts + 1, tv_nsec := tv_nsec ts - 1000000000\<rparr>
                 else ts\<lparr>tv_nsec := 999999999\<rparr>)
              else ts)"

definition infinite_timeout :: u32 where "infinite_timeout = - 1"

subsection \<open>Operations\<close>

definition posix_queue_init_impl ::
    "'m mq_api \<Rightarrow> u32 \<Rightarrow> ('a PosixQueue_scheme, 'm) queue_init_op" where
  "posix_queue_init_impl api capacity q =
     (if queue_name q ! 0 = CHR 0x00 then
        (of_error MessageQueueError_name MessageQueueError_InvalidParameter ''Queue name is empty''
           ''init_impl'', q, [])
      else if queue_name q ! 0 \<noteq> CHR ''/'' then
        (of_error MessageQueueError_name MessageQueueError_InvalidParameter
           (''Queue name must start with '' @ [CHR 0x27, CHR ''/'', CHR 0x27]) ''init_impl'', q, [])
      else
        case mq_open api of
          Inl err \<Rightarrow>
            (of_error MessageQueueError_name (errno_to_error err) ''mq_open failed'' ''init_impl'',
             q\<lparr>mqd := None\<rparr>, [QOpen capacity (Some err)])
        | Inr d \<Rightarrow> (of_value (), q\<lparr>mqd := Some d\<rparr>, [QOpen capacity os_ok]))"

definition posix_queue_send_impl ::
    "'m mq_api \<Rightarrow> u32 \<Rightarrow> ('a PosixQueue_scheme, 'm) queue_send_op" where
  "posix_queue_send_impl api timeout_ms msg q =
     (if mqd q = None then
        (of_error MessageQueueError_name MessageQueueError_InvalidQueue ''Queue not initialized''
           ''send_impl'', [])
      else
        let (result, call) =
              (if timeout_ms = 0 \<or> timeout_ms = infinite_timeout
               then (mq_send api, QSend msg 0 None (mq_send api))
               else (mq_timedsend api,
                     QSend msg 0 (Some (ms_to_timespec (clock_gettime api) timeout_ms)) (mq_timedsend api)))
        in case result of
             Some err \<Rightarrow>
               (of_error MessageQueueError_name (errno_to_error err) ''mq_send/mq_timedsend failed''
                  ''send_impl'', [call])
           | None \<Rightarrow> (of_value (), [call]))"

definition posix_queue_receive_impl ::
    "'m mq_api \<Rightarrow> u32 \<Rightarrow> ('a PosixQueue_scheme, 'm) queue_receive_op" where
  "posix_queue_receive_impl api timeout_ms q =
     (if mqd q = None then
        ((of_error MessageQueueError_name MessageQueueError_InvalidQueue ''Queue not initialized''
            ''receive_impl'', None), [])
      else
        let (result, call) =
              (if timeout_ms = 0 \<or> timeout_ms = infinite_timeout
               then (mq_receive api, QReceive None (mq_receive api))
               else (mq_timedreceive api,
                     QReceive (Some (ms_to_timespec (clock_gettime api) timeout_ms)) (mq_timedreceive api)))
        in case result of
             Inl err \<Rightarrow>
               ((of_error MessageQueueError_name (errno_to_error err)
                   ''mq_receive/mq_timedreceive failed'' ''receive_impl'', None), [call])
           | Inr m \<Rightarrow> ((of_value (), Some m), [call]))"

text \<open>The attributes are \<open>mq_maxmsg\<close> and \<open>mq_curmsgs\<close>; the difference is cast to \<open>size_t\<close>.\<close>

definition posix_queue_free_space :: "'m mq_api \<Rightarrow> 'a PosixQueue_scheme \<Rightarrow> u64" where
  "posix_queue_free_space api q =
     (if mqd q = None then 0
      else case mq_getattr api of
        Some (maxmsg, curmsgs) \<Rightarrow> word_of_int (maxmsg - curmsgs)
      | None \<Rightarrow> 0)"

definition posix_queue_dtor :: "'a PosixQueue_scheme \<Rightarrow> 'm queue_call list" where
  "posix_queue_dtor q =
     (if mqd q \<noteq> None then
        QClose # (if queue_name q ! 0 \<noteq> CHR 0x00 then [QUnlink (c_str (queue_name q))] else [])
      else [])"

text \<open>The environment of a step: the system, the timeout and the capacity.\<close>

type_synonym 'm mq_env = "'m mq_api \<times> u32 \<times> u32"

definition posix_queue_init_env :: "'m mq_env \<Rightarrow> ('a PosixQueue_scheme, 'm) queue_init_op" where
  "posix_queue_init_env env = queue_init (posix_queue_init_impl (fst env)) (snd (snd env))"

definition posix_queue_send_env :: "'m mq_env \<Rightarrow> ('a PosixQueue_scheme, 'm) queue_send_op" where
  "posix_queue_send_env env = posix_queue_send_impl (fst env) (fst (snd env))"

definition posix_queue_receive_env :: "'m mq_env \<Rightarrow> ('a PosixQueue_scheme, 'm) queue_receive_op" where
  "posix_queue_receive_env env = posix_queue_receive_impl (fst env) (fst (snd env))"

lemma posix_queue_init_calls:
  "posix_queue_init_env env q = (r, q', cs) \<Longrightarrow> cs = [] \<or> (\<exists>cap a. cs = [QOpen cap a])"
  by (auto simp: posix_queue_init_env_def queue_init_def posix_queue_init_impl_def
      split: if_splits sum.splits)

lemma posix_queue_send_calls:
  assumes "posix_queue_send_env env m q = (r, cs)"
  shows "if mqd q \<noteq> None then \<exists>ts a. cs = [QSend m 0 ts a] \<and> (has_value (fst r) \<longleftrightarrow> a = os_ok)
    else cs = [] \<and> \<not> has_value (fst r)"
  using assms
  by (auto simp: posix_queue_send_env_def posix_queue_send_impl_def of_error_def of_value_def
      split: if_splits option.splits)

lemma posix_queue_receive_calls:
  assumes "posix_queue_receive_env env q = ((r, out), cs)"
  shows "if mqd q \<noteq> None then (\<exists>ts e. cs = [QReceive ts (Inl e)] \<and> \<not> has_value (fst r) \<and> out = None) \<or>
         (\<exists>ts m. cs = [QReceive ts (Inr m)] \<and> has_value (fst r) \<and> out = Some m)
    else cs = [] \<and> \<not> has_value (fst r) \<and> out = None"
  using assms
  by (auto simp: posix_queue_receive_env_def posix_queue_receive_impl_def of_error_def of_value_def
      split: if_splits sum.splits)

interpretation pmq: queue_platform posix_queue_init_env posix_queue_send_env posix_queue_receive_env
    "\<lambda>q. mqd q \<noteq> None" False
  by unfold_locales (blast dest: posix_queue_init_calls posix_queue_send_calls posix_queue_receive_calls)+

definition posix_queue_run ::
    "('m mq_env, 'm) queue_step list \<Rightarrow> 'a PosixQueue_scheme \<times> 'm list \<times> 'm list \<Rightarrow>
      ('a PosixQueue_scheme \<times> 'm list \<times> 'm list) \<times> 'm queue_call list" where
  "posix_queue_run = queue_run posix_queue_init_env posix_queue_send_env posix_queue_receive_env"

text \<open>
  C32: First in, first out. Whatever threads do with one queue object, in any interleaving, the
  messages received are, in order and without loss or repetition, those that were in the queue of
  that name before followed by those whose sending was reported successful, except for the ones
  still waiting in the queue; these never exceed its capacity. Messages from before may have any
  priorities: the code sends with the lowest, so none of its messages overtakes another. This rests on the documented
  behaviour of the system's queue only.
\<close>

theorem posix_queue_fifo:
  assumes "posix_queue_run xs (q, [], []) = ((q', sent, received), cs)"
    "os_queue cs st = Some st'" "within_capacity st"
  shows "received @ queue_content st' = queue_content st @ sent \<and> within_capacity st'"
  using pmq.fifo [OF assms(1) [unfolded posix_queue_run_def] assms(2) assms(3)] by simp

definition example_mq :: "nat mq_api" where
  "example_mq = \<lparr>mq_open = Inr 3, mq_send = None, mq_timedsend = Some ETIMEDOUT, mq_receive = Inr 7,
     mq_timedreceive = Inl ETIMEDOUT, mq_getattr = Some (2, 0), clock_gettime = \<lparr>tv_sec = 10, tv_nsec = 0\<rparr>\<rparr>"

definition example_queue_steps :: "(nat mq_env, nat) queue_step list" where
  "example_queue_steps =
     [QStepSend (example_mq, 0, 2) 9, QStepInit (example_mq, 0, 2), QStepSend (example_mq, 0, 2) 7,
      QStepSend (example_mq, 0, 2) 8, QStepSend (example_mq, 250, 2) 9, QStepReceive (example_mq, 0, 2)]"

theorem posix_queue_fifo_witness:
  "\<exists>q' cs. posix_queue_run example_queue_steps (new_posix_queue ''/q'', [], []) = ((q', [7, 8], [7]), cs) \<and>
     os_queue cs None = Some (Some (2, [(0, 8)])) \<and>
     [7] @ queue_content (Some (2, [(0, 8)])) = queue_content None @ [7, 8 :: nat] \<and> within_capacity (Some (2, [(0, 8 :: nat)]))"
proof -
  obtain q' sent received cs where
    run: "posix_queue_run example_queue_steps (new_posix_queue ''/q'', [], []) = ((q', sent, received), cs)"
    by (metis prod_cases3 surj_pair)
  have "(let ((q', sent, received), cs) = posix_queue_run example_queue_steps (new_posix_queue ''/q'', [], [])
      in sent = [7, 8] \<and> received = [7] \<and> os_queue cs None = Some (Some (2, [(0, 8)])))"
    by code_simp
  then have ev: "sent = [7, 8]" "received = [7]" "os_queue cs None = Some (Some (2, [(0, 8)]))"
    by (simp_all add: run)
  from posix_queue_fifo [OF run ev(3)] ev run show ?thesis by (auto simp: within_capacity_def)
qed

subsection \<open>Deadlines are exact\<close>

definition normalised :: "timespec \<Rightarrow> bool" where
  "normalised ts \<longleftrightarrow> 0 \<le> tv_sec ts \<and> tv_sec ts \<le> time_t_max \<and> 0 \<le> tv_nsec ts \<and> tv_nsec ts < 1000000000"

definition nanoseconds :: "timespec \<Rightarrow> int" where
  "nanoseconds ts = tv_sec ts * 1000000000 + tv_nsec ts"

lemma timeout_parts:
  "uint ((ms :: u32) div 1000) = uint ms div 1000"
  "uint (((ms :: u32) mod 1000) * 1000000) = uint ms mod 1000 * 1000000"
proof -
  show "uint ((ms :: u32) div 1000) = uint ms div 1000" by (simp add: uint_div)
  have "uint (ms mod 1000) = uint ms mod 1000" by (simp add: uint_mod)
  moreover have "uint ms mod 1000 * 1000000 < 2 ^ 32"
    using pos_mod_bound [of 1000 "uint ms"] by simp
  ultimately show "uint ((ms mod 1000) * 1000000) = uint ms mod 1000 * 1000000"
    by (simp add: uint_word_ariths take_bit_eq_mod)
qed

text \<open>
  C38: From a normalised time the deadline of a timed call is normalised again and no earlier than
  that time, so the system accepts it and no addition overflows; and unless the clock is within
  the timeout of the end of \<open>time_t\<close>, it lies exactly the timeout's milliseconds ahead.
\<close>

theorem deadline_exact:
  assumes "normalised now"
  shows "normalised (ms_to_timespec now ms) \<and> nanoseconds now \<le> nanoseconds (ms_to_timespec now ms) \<and>
    (tv_sec now + uint ms div 1000 < time_t_max \<longrightarrow>
      nanoseconds (ms_to_timespec now ms) = nanoseconds now + uint ms * 1000000)"
proof -
  have parts: "uint ms = 1000 * (uint ms div 1000) + uint ms mod 1000" by simp
  have bounds: "0 \<le> uint ms div 1000" "0 \<le> uint ms mod 1000" "uint ms mod 1000 < 1000"
    by (simp_all add: pos_imp_zdiv_nonneg_iff)
  obtain s n where now: "now = \<lparr>tv_sec = s, tv_nsec = n\<rparr>" by (cases now)
  define a b where "a = uint ms div 1000" and "b = uint ms mod 1000"
  have ab: "uint ms = 1000 * a + b" "0 \<le> a" "0 \<le> b" "b < 1000"
    using parts bounds by (simp_all add: a_def b_def)
  have ts: "ms_to_timespec now ms =
      (if time_t_max - s \<le> 0 then \<lparr>tv_sec = time_t_max, tv_nsec = 999999999\<rparr>
       else
         let sec = s + (if a > time_t_max - s then time_t_max - s else a); nsec = n + b * 1000000
         in if nsec \<ge> 1000000000 then
              (if sec < time_t_max then \<lparr>tv_sec = sec + 1, tv_nsec = nsec - 1000000000\<rparr>
               else \<lparr>tv_sec = sec, tv_nsec = 999999999\<rparr>)
            else \<lparr>tv_sec = sec, tv_nsec = nsec\<rparr>)"
    unfolding ms_to_timespec_def now timeout_parts a_def b_def by (simp add: Let_def)
  show ?thesis
    using assms ab(2-4) unfolding ts a_def [symmetric] ab(1)
    by (auto simp: now normalised_def nanoseconds_def Let_def)
qed

theorem deadline_exact_witness:
  "nanoseconds (ms_to_timespec \<lparr>tv_sec = 10, tv_nsec = 999000000\<rparr> 1001) = 12000000000"
  using deadline_exact [of "\<lparr>tv_sec = 10, tv_nsec = 999000000\<rparr>" 1001]
  by (simp add: normalised_def nanoseconds_def time_t_max_def)

end
