(* ===== verification/Queue_Zephyr.thy ===== *)
theory Queue_Zephyr
  imports Queue_Core
begin

text \<open>
  Zephyr message queues (src/platform/zephyr_core/message_queue). Answers of \<open>k_msgq_put\<close> and
  \<open>k_msgq_get\<close> are the error numbers behind their negative return values.
\<close>

definition k_error_to_error :: "errno \<Rightarrow> MessageQueueError" where
  "k_error_to_error error =
     (case error of
        EINVAL \<Rightarrow> MessageQueueError_InvalidParameter
      | EALREADY \<Rightarrow> MessageQueueError_AlreadyInitialized
      | EAGAIN \<Rightarrow> MessageQueueError_Timeout
      | EBUSY \<Rightarrow> MessageQueueError_Timeout
      | ETIMEDOUT \<Rightarrow> MessageQueueError_Timeout
      | ENOMEM \<Rightarrow> MessageQueueError_InsufficientMemory
      | _ \<Rightarrow> MessageQueueError_Unknown)"

record ZephyrQueue = IMessageQueue +
  kq_initialized :: bool

record 'm kmsgq_api =
  kq_put :: os_result
  kq_get :: "errno + 'm"
  kq_num_free :: u32

definition new_zephyr_queue :: "string \<Rightarrow> ZephyrQueue" where
  "new_zephyr_queue name = \<lparr>queue_name = queue_name_runtime name, kq_initialized = False\<rparr>"

definition zephyr_queue_init_impl :: "u64 \<Rightarrow> u32 \<Rightarrow> ('a ZephyrQueue_scheme, 'm) queue_init_op" where
  "zephyr_queue_init_impl buffer capacity q =
     (if capacity = 0 then
        (of_error MessageQueueError_name MessageQueueError_InvalidParameter ''Invalid capacity''
           ''init_impl'', q, [])
      else if kq_initialized q then
        (of_error MessageQueueError_name MessageQueueError_AlreadyInitialized
           ''Queue already initialized'' ''init_impl'', q, [])
      else (of_value (), q\<lparr>kq_initialized := True\<rparr>, [QReset capacity]))"

text \<open>The timeout goes to Zephyr.\<close>

definition zephyr_queue_send_impl :: "'m kmsgq_api \<Rightarrow> ('a ZephyrQueue_scheme, 'm) queue_send_op" where
  "zephyr_queue_send_impl api msg q =
     (if \<not> kq_initialized q then
        (of_error MessageQueueError_name MessageQueueError_InvalidQueue ''Queue not initialized''
           ''send_impl'', [])
      else
        let result = kq_put api; call = QSend msg 0 None result in
        case result of
          None \<Rightarrow> (of_value (), [call])
        | Some err \<Rightarrow>
            if err = EAGAIN \<or> err = EBUSY then
              (of_error MessageQueueError_name MessageQueueError_QueueFull
                 ''k_msgq_put queue full or timeout'' ''send_impl'', [call])
            else
              (of_error MessageQueueError_name (k_error_to_error err) ''k_msgq_put failed''
                 ''send_impl'', [call]))"

definition zephyr_queue_receive_impl :: "'m kmsgq_api \<Rightarrow> ('a ZephyrQueue_scheme, 'm) queue_receive_op" where
  "zephyr_queue_receive_impl api q =
     (if \<not> kq_initialized q then
        ((of_error MessageQueueError_name MessageQueueError_InvalidQueue ''Queue not initialized''
            ''receive_impl'', None), [])
      else
        let result = kq_get api; call = QReceive None result in
        case result of
          Inr m \<Rightarrow> ((of_value (), Some m), [call])
        | Inl err \<Rightarrow>
            if err = EAGAIN \<or> err = EBUSY then
              ((of_error MessageQueueError_name MessageQueueError_QueueEmpty
                  ''k_msgq_get queue empty or timeout'' ''receive_impl'', None), [call])
            else
              ((of_error MessageQueueError_name (k_error_to_error err) ''k_msgq_get failed''
                  ''receive_impl'', None), [call]))"

definition zephyr_queue_free_space :: "'m kmsgq_api \<Rightarrow> 'a ZephyrQueue_scheme \<Rightarrow> u64" where
  "zephyr_queue_free_space api q = (if \<not> kq_initialized q then 0 else ucast (kq_num_free api))"

text \<open>The environment of a step: the system, and buffer and capacity.\<close>

type_synonym 'm kq_env = "'m kmsgq_api \<times> u64 \<times> u32"

definition zephyr_queue_init_env :: "'m kq_env \<Rightarrow> ('a ZephyrQueue_scheme, 'm) queue_init_op" where
  "zephyr_queue_init_env env = queue_init_buffer zephyr_queue_init_impl (fst (snd env)) (snd (snd env))"

lemma zephyr_queue_init_calls:
  "zephyr_queue_init_env env q = (r, q', cs) \<Longrightarrow>
     (cs = [] \<and> kq_initialized q' = kq_initialized q) \<or>
     (\<exists>cap. cs = [QReset cap] \<and> \<not> kq_initialized q \<and> kq_initialized q')"
  by (auto simp: zephyr_queue_init_env_def queue_init_buffer_def zephyr_queue_init_impl_def
      split: if_splits)

lemma zephyr_queue_send_calls:
  "zephyr_queue_send_impl api m q = (r, cs) \<Longrightarrow>
     (if kq_initialized q then \<exists>ts a. cs = [QSend m 0 ts a] \<and> (has_value (fst r) \<longleftrightarrow> a = os_ok)
      else cs = [] \<and> \<not> has_value (fst r))"
  by (auto simp: zephyr_queue_send_impl_def of_error_def of_value_def Let_def
      split: if_splits option.splits)

lemma zephyr_queue_receive_calls:
  "zephyr_queue_receive_impl api q = ((r, out), cs) \<Longrightarrow>
     (if kq_initialized q then (\<exists>ts e. cs = [QReceive ts (Inl e)] \<and> \<not> has_value (fst r) \<and> out = None) \<or>
         (\<exists>ts m. cs = [QReceive ts (Inr m)] \<and> has_value (fst r) \<and> out = Some m)
      else cs = [] \<and> \<not> has_value (fst r) \<and> out = None)"
  by (auto simp: zephyr_queue_receive_impl_def of_error_def of_value_def Let_def
      split: if_splits sum.splits)

interpretation zmq: queue_platform zephyr_queue_init_env "\<lambda>env. zephyr_queue_send_impl (fst env)"
    "\<lambda>env. zephyr_queue_receive_impl (fst env)" kq_initialized True
  by unfold_locales
    (simp, rule zephyr_queue_init_calls, assumption, rule zephyr_queue_send_calls, assumption,
     rule zephyr_queue_receive_calls, assumption)

definition zephyr_queue_run ::
    "('m kq_env, 'm) queue_step list \<Rightarrow> 'a ZephyrQueue_scheme \<times> 'm list \<times> 'm list \<Rightarrow>
      ('a ZephyrQueue_scheme \<times> 'm list \<times> 'm list) \<times> 'm queue_call list" where
  "zephyr_queue_run = queue_run zephyr_queue_init_env (\<lambda>env. zephyr_queue_send_impl (fst env))
     (\<lambda>env. zephyr_queue_receive_impl (fst env))"

text \<open>
  First in, first out on Zephyr: the messages received from a fresh queue are a prefix of those
  whose sending was reported successful, the rest still waits in the queue, and a repeated
  initialisation never discards a message.
\<close>

theorem zephyr_queue_fifo:
  assumes "zephyr_queue_run xs (q, [], []) = ((q', sent, received), cs)"
    "os_queue cs None = Some st" "\<not> kq_initialized q"
  shows "received @ queue_content st = sent \<and> within_capacity st"
  using zmq.fifo [OF assms(1) [unfolded zephyr_queue_run_def] assms(2)] by (simp add: within_capacity_def)

definition example_kq :: "nat kmsgq_api" where
  "example_kq = \<lparr>kq_put = None, kq_get = Inr 7, kq_num_free = 0\<rparr>"

definition example_kq_steps :: "(nat kq_env, nat) queue_step list" where
  "example_kq_steps =
     [QStepReceive (example_kq, 64, 2), QStepInit (example_kq, 64, 2), QStepSend (example_kq, 64, 2) 7,
      QStepInit (example_kq, 64, 5), QStepSend (example_kq, 64, 2) 8,
      QStepSend (example_kq\<lparr>kq_put := Some EAGAIN\<rparr>, 64, 2) 9, QStepReceive (example_kq, 64, 2)]"

theorem zephyr_queue_fifo_witness:
  "\<exists>q' cs. zephyr_queue_run example_kq_steps (new_zephyr_queue ''q'', [], []) = ((q', [7, 8], [7]), cs) \<and>
     os_queue cs None = Some (Some (2, [(0, 8)])) \<and> [7] @ queue_content (Some (2 :: nat, [(0 :: nat, 8)])) = [7, 8 :: nat]"
proof -
  obtain q' sent received cs where
    run: "zephyr_queue_run example_kq_steps (new_zephyr_queue ''q'', [], []) = ((q', sent, received), cs)"
    by (metis prod_cases3 surj_pair)
  have "(let ((q', sent, received), cs) = zephyr_queue_run example_kq_steps (new_zephyr_queue ''q'', [], [])
      in sent = [7, 8] \<and> received = [7] \<and> os_queue cs None = Some (Some (2, [(0, 8)])))"
    by code_simp
  then have ev: "sent = [7, 8]" "received = [7]" "os_queue cs None = Some (Some (2, [(0, 8)]))"
    by (simp_all add: run)
  have "\<not> kq_initialized (new_zephyr_queue ''q'')" by (simp add: new_zephyr_queue_def)
  from zephyr_queue_fifo [OF run ev(3) this] ev run show ?thesis by auto
qed

end
