(* ===== verification/Spec2Isabelle.thy ===== *)
theory Spec2Isabelle
  imports Crypto_Posix App_Zephyr App_Main App_Session App_Liveness App_Transports App_Sensor App_Watchdog App_Process
    Zephyr_Appender Usb_Console Led Serial Semaphore_Posix Semaphore_Zephyr Queue_Posix Queue_Zephyr
begin

text \<open>
  EnOcean Core: a C++23 framework that listens to EnOcean devices (wall switches and sensors) over
  Bluetooth Low Energy, on Linux (POSIX) and on Zephyr. This development models its program and
  proves what it promises. Paths are relative to the repository.

  \<^bold>\<open>The program.\<close> A scanner (\<open>platform/*/ble\<close>) delivers every BLE advertisement to the EnOcean driver
  (\<open>src/enocean\<close>). The driver looks for the EnOcean manufacturer structure in it, splits the
  payload into sequence number, telegram and tag, has the tag checked by a crypto backend
  (\<open>platform/*/crypto\<close>) under the key of the device, refuses replays, and calls the
  application's callbacks (\<open>application/AppEntry.cpp\<close>) with button presses and sensor values.
  While commissioning is open, commissioning telegrams add devices to a table of eight. The
  scanner runs in a thread (\<open>platform/*/thread\<close>); mutexes, semaphores and message queues, GPIO
  pins, LEDs, a watchdog, serial ports, sleeping and a USB console complete the platform layer. Every platform class
  derives from a CRTP interface class, and every operation that can fail returns an
  \<open>ErrorHandler\<close> (\<open>include/error_handler\<close>), which logs errors as they are created.

  \<^bold>\<open>Conventions.\<close> A class is a record of its members, an enumeration a datatype, an integer of w
  bits a word of w bits, with the arithmetic of the code; a span or array is a list. Reading
  outside a span is the value \<open>None\<close> of the option monad (\<open>span_at\<close>, \<open>subspan\<close> in Prelude), so
  that memory safety is a theorem: the result is \<open>Some\<close>. An operation with effects returns its
  result, the new object and the events it causes (callbacks, log lines, calls of the operating
  system) in their order. A failing operation returns \<open>Inl\<close> of the repository's error value.
  Loops over a span end by a measure, the distance to its end (\<open>extract_from\<close>, \<open>parse_tlv_from\<close>,
  \<open>le_value_from\<close>, \<open>dispatch_from\<close>); the loops that wait for the outside (the scan thread, the
  retried \<open>pthread_join\<close>, the main loop of Zephyr) are structural recursions over the answers they
  get or the rounds they make, of any number. Every function is total and no theorem is
  restricted to runs that stay within a bound of the model.

  \<^bold>\<open>Parameters.\<close> Code outside the repository is an argument. The crypto backend of the driver is
  any function, of key, nonce, data, tag and buffer, that returns its verdict, its output and the lines
  it logs itself; these lines are events of the driver where the code calls the backend
  (\<open>backend_log\<close>), and what the two real backends log is in \<open>posix_log\<close> and \<open>zephyr_log\<close> (nothing when
  they accept). OpenSSL is the record \<open>evp_api\<close>, \<open>bt_ccm_decrypt\<close> of Zephyr a function. pthreads,
  POSIX semaphores and message queues, BlueZ, the sockets, and the kernel objects of Zephyr are
  the answers to the calls the code makes: an \<open>_api\<close> record or an argument of the operation. Where a
  property relies on what such code documents (that a mutex someone holds is not granted again,
  that a queue returns what was sent, that a sleep is no shorter than asked for, that a watchdog resets the system when it is not fed), the
  documented state machine is \<open>os_mutex\<close>, \<open>os_semaphore\<close>, \<open>os_queue\<close> or \<open>os_watchdog\<close> and a step of the
  component is one whose answers it can give.

  \<^bold>\<open>Theories.\<close>
  \<^item> Prelude: words, checked access, little-endian words, the lemmas on lists all others share.
  \<^item> Printf: printf of the C library for the formats the program uses (conversions, flag 0, width,
    length modifiers), with undefined behaviour as \<open>None\<close>; hexadecimal and decimal texts.
  \<^item> Error_Codes, Error_Handler, Logging: \<open>*Error.hpp\<close> with their names, \<open>ErrorHandler\<close> with its
    monadic combinators (\<open>and_then\<close>, \<open>transform\<close>, \<open>or_else\<close>, \<open>transform_error\<close>) and their logging,
    \<open>Logger.hpp\<close>. Lemmas: the monad laws up to logging, how an error travels a chain.
  \<^item> Enocean_Types, Enocean_Parse, Crypto_Interface, Enocean_Driver: \<open>EnoceanTypes.hpp\<close>, the
    parsers, \<open>ICrypto.hpp\<close> and every member function of \<open>EnoceanDriver\<close>. The record
    \<open>EnoceanDriver\<close> has the members of the class; \<open>process_advertisement\<close> composes find, commission,
    switch and sensor handler as \<open>EnoceanDriver.ipp\<close> does. Lemmas of Enocean_Parse: the parsers
    against encoders (round trips) and their exact bounds.
  \<^item> Enocean_Reference: what the two parsers compute, as definitions over lists without an index
    (\<open>tlv_values\<close>, \<open>ad_structures\<close>), and the equality with the code on every byte string; what the
    fields of a sensor report mean, from their documentation (\<open>measured\<close>), and which bytes make the
    AD walk over-read (\<open>ad_over_reads\<close>).
  \<^item> Enocean_Handlers, Enocean_Table: which telegrams a handler accepts and what it reports (locale
    \<open>data_handler\<close>, the contract both handlers share); the invariant of the table and what
    allocation and lookup do (locale \<open>device_store\<close>).
  \<^item> Enocean_Machine, Enocean_Safety: the driver as a state machine, its reachable states
    (\<open>reachable\<close>), the abstract driver (\<open>spec_step\<close>: who is known, with which key and last sequence
    number) and the simulation; the properties of every reachable state and every run.
  \<^item> Enocean_Runs: the typing of everything a run reports, the independence of devices from each
    other (two runs that agree on one device), repeated advertisements, the full table.
  \<^item> Enocean_Trace: a reference for everything the driver reports about one device
    (\<open>device_run\<close>), and the equality with every run.
  \<^item> Crypto_Posix, Crypto_Zephyr: the backends, as providers of the locale \<open>aead_backend\<close>.
  \<^item> Thread_Core, Thread_Posix, Thread_Zephyr: \<open>IThread.hpp\<close> over the locale \<open>thread_platform\<close>;
    scheduling parameters, stack sizes, the fallback without real-time rights, joining.
  \<^item> Ble_Core, Ble_Posix, Ble_Zephyr: \<open>IBle.hpp\<close> over the locale \<open>scanner_platform\<close>; the HCI packets of
    BlueZ and the loop of the scan thread; the static instance pointer on Zephyr.
  \<^item> Ble_Posix_Threads: the BlueZ scanner with its owner, its scan thread and the sockets as one
    step relation (\<open>scan_step\<close>, at every access to what the threads share), its invariant and an
    executable form (\<open>scan_exec\<close>); the thread against \<open>scan_loop\<close>, stopping and destruction.
  \<^item> Mutex_Core, Mutex_Posix, Mutex_Zephyr; Semaphore_Core, Semaphore_Posix, Semaphore_Zephyr;
    Queue_Core, Queue_Posix, Queue_Zephyr: each interface over a locale (\<open>mutex_platform\<close>,
    \<open>semaphore_platform\<close>, \<open>queue_platform\<close>) whose laws both platforms discharge. Clients interleave in
    any order: a run is a list of steps, each of a named thread or guard.
  \<^item> Gpio, Led, Watchdog, Serial: the boards directory. Serial has the forwarding driver class, over
    a record of the operations a driver implements, and the owning class.
  \<^item> Sleep, Usb_Console: the sleep interface with its platforms; the set-up of the USB device in C.
  \<^item> App_Callbacks, App_Entry, App_Zephyr, App_Main, Zephyr_Appender: the callbacks and what they
    print; \<open>run_impl\<close> (\<open>app_run\<close>, over the scanner of a platform) with scanner, driver and
    backend together, on POSIX (with the scan thread) and on Zephyr (called by the Bluetooth
    stack); the main functions and the log appender of Zephyr.
  \<^item> App_Text, App_Session: the text of every line that is logged, and a session from the start of
    the program to the text of the first press.
  \<^item> App_Threads: the application thread and the scan thread on one driver as one step
    relation (\<open>app_step\<close>, a call of the driver cut at its entry, its access to the shared flag, each
    event and its return), in every interleaving against the sequential \<open>app_run\<close>. App_Trace: the
    reference of one device (Enocean_Trace) against these two threads. App_Liveness: what no schedule
    can avoid (\<open>inevitably\<close>), by a well-founded order on the work left. App_Transports: the two
    platforms against each other.
  \<^item> App_Sensor: the text of a sensor's report and a session up to the first one. App_Watchdog: the
    main function of Zephyr and its watchdog in time. App_Process: the POSIX process and its exit
    code.

  \<^bold>\<open>What the properties show.\<close> Of the driver: replay protection (C1), authenticity (C2),
  exactly what is reported about a device in any run and what its record is then (C3), refinement
  of its contract (C4), that commissioning and pressing work (C5), the table invariant and who may
  change it (C6, C7, C24), that devices do not notice each other (C8), that every report is well
  typed (C9, with the ranges of the encoding), and exactly which telegrams are accepted and what they report (C19, C20).
  Of the parsers: equality with reference definitions (C22, C23), the round trip of HCI packets
  (C30) and the one way they leave their input (C40). Of the whole program: from its start to the
  printed text of the first press (C10) and of the first sensor report (C11), its two threads
  against the sequential program (C12), what they report about a device in every interleaving
  (C13) and that they report all that arrives (C14), POSIX against Zephyr (C15, up to their backends), exactly
  what Zephyr logs for a switch telegram (C16), no input leads outside a buffer except the malformation of
  C40 (C17), every line is printed whole (C18), the log identifies presses (C21), how start-ups end (C35, C36), and the
  watchdog in time (C37). Of the scan thread: it ends when it is told to and only then
  (C25), computes its loop in every interleaving (C26), is gone after destruction unless the join fails (C28), makes a
  bounded number of calls after a stop (C29), and when the destructor returns (C27). Of the platform
  layer: mutual exclusion (C31), FIFO order (C32), conservation of counts (C33), the life of threads
  and serial ports (C34, C39), and deadlines (C38). Further theorems of the
  same theories, not numbered: what refused telegrams and single operations change, round trips of
  the TLV and AD parsers, printed temperatures, the main function of Zephyr, sizes of stacks,
  restarts of the scanner, forged telegrams under OpenSSL, the travel of errors through a
  chain, the silence of repeated advertisements.

  \<^bold>\<open>Flaws.\<close> Where the code departs from its documentation, the theorem states what it does and its
  text says so: the AD walk may read one byte behind an advertisement (C40), a manufacturer
  structure of two bytes hides what follows (\<open>short_manufacturer_hides\<close>), a telegram with
  three optional bytes is spent (\<open>switch_three_optional_bytes\<close>), a POSIX scanner cannot be restarted
  (\<open>scanner_restart_fails\<close>) and its destructor hangs while the scan thread waits for a packet (C27), a
  return value of 0 from OpenSSL counts as a valid tag (\<open>posix_forgery_reported\<close>), a failed start-up
  on Zephyr leaves the stack calling a destroyed scanner (C36), the temperature -32768 is misprinted
  (\<open>temperature_text\<close>), humidity and energy level may pass 100 per cent (\<open>percentages_unchecked\<close>), a
  report without data is lost when it comes alone (C30), the address of a device is printed in the
  opposite order of the README's lines (C10, C16, C21), failing feeds of the watchdog (C37) and
  failing joins (\<open>failed_join_leaves_thread\<close>) are ignored, stack sizes wrap within a word of 2^64 (\<open>stack_size_sanitized\<close>), and the
  POSIX program exits with 0 when its application could not start (\<open>posix_exit_code\<close>).

  \<^bold>\<open>Not modelled.\<close> Compile-time concepts and assertions, deleted copy and move operations, the
  static tables the macros of the USB stack build, tests and build files. Threads interleave at the
  granularity of the operations of these interfaces, in the BlueZ scanner at that of single accesses
  to the flag, the descriptor and the socket, and a callback of the driver at its access to the
  flag it shares with the application thread and at each event it causes; the C++ memory model
  below that (what a data race on a plain member may do) is not part of the model.
\<close>

end
